(* ===== verification/Prelude.thy ===== *)
theory Prelude
  imports Main "HOL-Library.Word" "HOL-Library.Signed_Division"
begin

text \<open>
  Shared vocabulary of the development: the machine integers of \<^verbatim>\<open>include/lib/types.h\<close>,
  the flat byte memory that every raw pointer of the kernel points into, read-only
  character pointers as views, the lemma collections the components share, and the
  locale of a machine with an invariant.
\<close>

unbundle bit_operations_syntax

section \<open>Lemma collections\<close>

named_theorems mem_simps "reading back what was stored in the flat memory"
named_theorems frame_simps "what an operation leaves unchanged"
named_theorems inv_intros "operations that keep a component's invariant"

section \<open>Machine integers\<close>

text \<open>
  \<^verbatim>\<open>int32_t\<close> and \<^verbatim>\<open>uint32_t\<close> are both 32-bit words: the signed reading is
  \<^const>\<open>sint\<close>, so a returned \<^verbatim>\<open>-1\<close> is the word \<^term>\<open>-1 :: 32 word\<close>.
\<close>

type_synonym u8 = "8 word"
type_synonym u16 = "16 word"
type_synonym u32 = "32 word"
type_synonym i32 = "32 word"

text \<open>The bytes of a character constant or string literal of the source.\<close>

definition chr :: "char \<Rightarrow> u8" where
  "chr c = of_char c"

definition str :: "string \<Rightarrow> u8 list" where
  "str cs = map chr cs"

lemma length_str [simp]: "length (str cs) = length cs"
  by (simp add: str_def)

section \<open>The flat memory\<close>

type_synonym memory = "u32 \<Rightarrow> u8"

text \<open>Little-endian 32-bit access, as a \<^verbatim>\<open>movl\<close> of the i386 does it.\<close>

definition load32 :: "memory \<Rightarrow> u32 \<Rightarrow> u32" where
  "load32 m a = ucast (m a) OR push_bit 8 (ucast (m (a + 1)))
     OR push_bit 16 (ucast (m (a + 2))) OR push_bit 24 (ucast (m (a + 3)))"

definition store32 :: "memory \<Rightarrow> u32 \<Rightarrow> u32 \<Rightarrow> memory" where
  "store32 m a v = m(a := ucast v, a + 1 := ucast (drop_bit 8 v),
     a + 2 := ucast (drop_bit 16 v), a + 3 := ucast (drop_bit 24 v))"

text \<open>A run of bytes, written and read in address order.\<close>

fun store_bytes :: "memory \<Rightarrow> u32 \<Rightarrow> u8 list \<Rightarrow> memory" where
  "store_bytes m a [] = m"
| "store_bytes m a (b # bs) = store_bytes (m(a := b)) (a + 1) bs"

definition load_bytes :: "memory \<Rightarrow> u32 \<Rightarrow> nat \<Rightarrow> u8 list" where
  "load_bytes m a n = map (\<lambda>i. m (a + of_nat i)) [0..<n]"

text \<open>
  The addresses of an \<open>n\<close>-byte object at \<open>a\<close>. Addresses wrap around at the top of the
  address space, so membership is stated by the offset from the start.
\<close>

definition rng :: "u32 \<Rightarrow> nat \<Rightarrow> u32 set" where
  "rng a n = {x. unat (x - a) < n}"

lemma in_rng [simp]: "x \<in> rng a n \<longleftrightarrow> unat (x - a) < n"
  by (simp add: rng_def)

lemma load32_store32 [mem_simps]: "load32 (store32 m a v) a = v"
proof (rule bit_word_eqI)
  fix n :: nat
  assume "n < LENGTH(32)"
  then have n: "n < 32" by simp
  consider "n < 8" | "8 \<le> n" "n < 16" | "16 \<le> n" "n < 24" | "24 \<le> n" by linarith
  then show "bit (load32 (store32 m a v) a) n = bit v n"
    using n by cases (auto simp: load32_def store32_def bit_simps)
qed

lemma load32_cong:
  assumes "m a = m' a" "m (a + 1) = m' (a + 1)" "m (a + 2) = m' (a + 2)" "m (a + 3) = m' (a + 3)"
  shows "load32 m a = load32 m' a"
  using assms by (simp add: load32_def)

lemma unat_of_nat32 [simp]: "i < 4294967296 \<Longrightarrow> unat (of_nat i :: u32) = i"
  by (simp add: unat_of_nat)

lemma addr_offset: "i < 4294967296 \<Longrightarrow> unat (a + of_nat i - a :: u32) = i"
  by simp

lemma addr_eq_iff:
  "i < 4294967296 \<Longrightarrow> j < 4294967296 \<Longrightarrow> (a + of_nat i = a + (of_nat j :: u32)) \<longleftrightarrow> i = j"
  by (metis add_left_cancel unat_of_nat32)

lemma of_nat_inj32:
  "(of_nat i :: u32) = of_nat j \<Longrightarrow> i < 4294967296 \<Longrightarrow> j < 4294967296 \<Longrightarrow> i = j"
  by (metis unat_of_nat32)

lemma of_int_inj32:
  assumes "(of_int i :: u32) = of_int j" and "0 \<le> i" "i < 4294967296" "0 \<le> j" "j < 4294967296"
  shows "i = j"
proof -
  have "uint (of_int i :: u32) = uint (of_int j :: u32)" using assms(1) by simp
  with assms(2-) show ?thesis by (simp add: uint_word_of_int)
qed

lemma rng_nth: "x \<in> rng a n \<Longrightarrow> \<exists>i<n. x = a + of_nat i"
  by (rule exI [of _ "unat (x - a)"]) simp

lemma nth_in_rng: "i < n \<Longrightarrow> n \<le> 4294967296 \<Longrightarrow> a + of_nat i \<in> rng a n"
  by simp

text \<open>Two objects that do not wrap around and lie one after the other are disjoint.\<close>

lemma rng_disjoint:
  assumes "unat a + n \<le> unat b" and "unat b + k \<le> 4294967296"
  shows "rng a n \<inter> rng b k = {}"
proof (rule ccontr)
  assume "rng a n \<inter> rng b k \<noteq> {}"
  then obtain x where "unat (x - a) < n" "unat (x - b) < k" by auto
  moreover define i j where "i = unat (x - a)" and "j = unat (x - b)"
  ultimately have ij: "i < n" "j < k" by simp_all
  have "a + of_nat i = b + of_nat j"
    by (simp add: i_def j_def)
  then have "unat (a + of_nat i) = unat (b + of_nat j)" by simp
  moreover have "unat (a + of_nat i) = unat a + i"
    using assms ij by (simp add: unat_word_ariths)
  moreover have "unat (b + of_nat j) = unat b + j"
    using assms ij by (simp add: unat_word_ariths)
  ultimately show False using assms ij by linarith
qed

lemma unat_lt32: "unat (w :: u32) < 4294967296"
  using unsigned_less [of w, where 'a = nat] by simp

lemma no_wrap_offset:
  "unat a + n \<le> 4294967296 \<Longrightarrow> i < n \<Longrightarrow> unat (a + of_nat i :: u32) = unat a + i"
  by (simp add: unat_word_ariths)

text \<open>An object that does not wrap around is an interval of addresses.\<close>

lemma in_rng_interval:
  assumes "unat a + n \<le> 4294967296"
  shows "x \<in> rng a n \<longleftrightarrow> unat a \<le> unat x \<and> unat x < unat a + n"
proof
  assume "x \<in> rng a n"
  then obtain i where "i < n" "x = a + of_nat i" by (blast dest: rng_nth)
  with assms show "unat a \<le> unat x \<and> unat x < unat a + n" by (simp add: no_wrap_offset)
next
  assume "unat a \<le> unat x \<and> unat x < unat a + n"
  then show "x \<in> rng a n" by (auto simp: unat_sub word_le_nat_alt)
qed

lemma rng_mono: "n \<le> k \<Longrightarrow> rng a n \<subseteq> rng a k"
  by auto

subsection \<open>Runs of bytes\<close>

lemma length_load_bytes [simp]: "length (load_bytes m a n) = n"
  by (simp add: load_bytes_def)

lemma load_bytes_0 [simp]: "load_bytes m a 0 = []"
  by (simp add: load_bytes_def)

lemma nth_load_bytes [simp]: "i < n \<Longrightarrow> load_bytes m a n ! i = m (a + of_nat i)"
  by (simp add: load_bytes_def)

lemma offset_Suc:
  assumes "x \<noteq> (a :: u32)"
  shows "unat (x - a) = Suc (unat (x - (a + 1)))"
proof -
  have "x - (a + 1) = x - a - 1" by simp
  moreover have "unat (x - a - 1) = unat (x - a) - 1"
    by (rule unat_minus_one) (use assms in simp)
  moreover have "unat (x - a) \<noteq> 0"
    using assms by (simp add: unat_eq_zero)
  ultimately show ?thesis by (simp only:)
qed

lemma store_bytes_apply:
  "length bs \<le> 4294967296 \<Longrightarrow>
     store_bytes m a bs x = (if unat (x - a) < length bs then bs ! unat (x - a) else m x)"
proof (induction bs arbitrary: m a)
  case Nil
  then show ?case by simp
next
  case (Cons b bs)
  show ?case
  proof (cases "x = a")
    case True
    have "unat (a - (a + 1)) = 4294967295"
      by (simp add: unsigned_minus_1_eq_mask mask_eq_exp_minus_1)
    with True Cons show ?thesis by simp
  next
    case False
    then have u: "unat (x - a) = Suc (unat (x - (a + 1)))"
      by (rule offset_Suc)
    define k where "k = unat (x - (a + 1))"
    have "store_bytes m a (b # bs) x = (if k < length bs then bs ! k else (m(a := b)) x)"
      unfolding store_bytes.simps k_def using Cons.prems by (subst Cons.IH) simp_all
    with False u show ?thesis by (simp add: k_def [symmetric])
  qed
qed

lemma store_bytes_outside [frame_simps]:
  "length bs \<le> 4294967296 \<Longrightarrow> x \<notin> rng a (length bs) \<Longrightarrow> store_bytes m a bs x = m x"
  by (simp add: store_bytes_apply)

lemma store_bytes_nth [mem_simps]:
  "i < length bs \<Longrightarrow> length bs \<le> 4294967296 \<Longrightarrow> store_bytes m a bs (a + of_nat i) = bs ! i"
  by (simp add: store_bytes_apply)

lemma store_bytes_append:
  "store_bytes m a (xs @ ys) = store_bytes (store_bytes m a xs) (a + of_nat (length xs)) ys"
  by (induction xs arbitrary: m a) (simp_all add: algebra_simps)

lemma load_bytes_add: "load_bytes m a (n + k) = load_bytes m a n @ load_bytes m (a + of_nat n) k"
  by (rule nth_equalityI) (auto simp: nth_append algebra_simps)

lemma load_store_bytes [mem_simps]:
  "length bs \<le> 4294967296 \<Longrightarrow> n = length bs \<Longrightarrow> load_bytes (store_bytes m a bs) a n = bs"
  by (rule nth_equalityI) (simp_all add: store_bytes_nth)

lemma load_bytes_outside [frame_simps]:
  assumes "length bs \<le> 4294967296" and "k \<le> 4294967296" and "rng a (length bs) \<inter> rng b k = {}"
  shows "load_bytes (store_bytes m a bs) b k = load_bytes m b k"
proof (rule nth_equalityI)
  fix i assume "i < length (load_bytes (store_bytes m a bs) b k)"
  then have i: "i < k" by simp
  with assms have "b + of_nat i \<notin> rng a (length bs)"
    using nth_in_rng [of i k b] by blast
  with i assms show "load_bytes (store_bytes m a bs) b k ! i = load_bytes m b k ! i"
    by (simp add: store_bytes_outside del: in_rng)
qed simp

lemma store32_bytes:
  "store32 m a v = store_bytes m a
     [ucast v, ucast (drop_bit 8 v), ucast (drop_bit 16 v), ucast (drop_bit 24 v)]"
  by (simp add: store32_def add.assoc)

section \<open>Read-only character pointers\<close>

text \<open>
  A parameter declared \<^verbatim>\<open>const int8_t *\<close> that a routine only reads is modelled by the
  function that gives \<open>p[i]\<close>. It may look at the flat memory (\<open>view\<close>), at a byte array
  that is a field of a structure (\<open>arr\<close>), or at a string literal (\<open>lit\<close>).
\<close>

type_synonym cview = "nat \<Rightarrow> u8"

definition view :: "memory \<Rightarrow> u32 \<Rightarrow> cview" where
  "view m p i = m (p + of_nat i)"

definition arr :: "u8 list \<Rightarrow> cview" where
  "arr xs i = (if i < length xs then xs ! i else 0)"

definition lit :: "string \<Rightarrow> cview" where
  "lit cs = arr (str cs @ [0])"

text \<open>The view holds the NUL-terminated string \<open>s\<close>.\<close>

definition cstr :: "cview \<Rightarrow> u8 list \<Rightarrow> bool" where
  "cstr v s \<longleftrightarrow> (\<forall>i<length s. v i = s ! i \<and> s ! i \<noteq> 0) \<and> v (length s) = 0"

lemma cstr_nth: "cstr v s \<Longrightarrow> i < length s \<Longrightarrow> v i = s ! i"
  by (simp add: cstr_def)

lemma cstr_nonzero: "cstr v s \<Longrightarrow> i < length s \<Longrightarrow> v i \<noteq> 0"
  by (simp add: cstr_def)

lemma cstr_end: "cstr v s \<Longrightarrow> v (length s) = 0"
  by (simp add: cstr_def)

lemma cstr_unique:
  assumes "cstr v s" and "cstr v t"
  shows "s = t"
proof -
  have "length s = length t"
    using assms unfolding cstr_def by (metis linorder_neqE_nat)
  with assms show ?thesis
    by (auto simp: cstr_def intro: nth_equalityI)
qed

lemma cstr_arr:
  assumes "0 \<notin> set s"
  shows "cstr (arr (s @ 0 # t)) s"
  using assms by (auto simp: cstr_def arr_def nth_append in_set_conv_nth)

lemma arr_pad: "arr xs = arr (xs @ replicate n 0)"
  by (auto simp: arr_def nth_append fun_eq_iff)

section \<open>Counted loops\<close>

text \<open>Two nested counted loops over a rectangle are one loop over its cells.\<close>

lemma fold_upt_shift: "fold f [a..<a + n] s = fold (\<lambda>j. f (a + j)) [0..<n] s"
  by (induction n) simp_all

lemma fold_nested:
  "fold (\<lambda>i. fold (\<lambda>j. f (c * i + j)) [0..<c]) [0..<n] s = fold f [0..<c * n] s"
proof (induction n)
  case (Suc n)
  have "fold f [0..<c * Suc n] s = fold f [c * n..<c * n + c] (fold f [0..<c * n] s)"
    by (simp only: mult_Suc_right add.commute [of c] upt_add_eq_append [OF le0] fold_append o_apply)
  then show ?case by (simp only: fold_upt_shift upt_Suc_append le0 fold_append o_apply Suc.IH fold.simps id_apply)
qed simp

text \<open>A loop that only ever writes one field of a state is a loop over that field.\<close>

lemma fold_field:
  assumes "\<And>i x. f i (upd x s) = upd (g i x) s"
  shows "fold f is (upd x s) = upd (fold g is x) s"
  by (induction "is" arbitrary: x) (simp_all add: assms)

section \<open>A machine with an invariant\<close>

text \<open>
  Several components are driven by a sequence of events (characters to print, mouse
  packets, scan codes, system calls). What such a component keeps over one event it
  keeps over every sequence of events; the locale proves that once.
\<close>

fun run_events :: "('s \<Rightarrow> 'e \<Rightarrow> 's) \<Rightarrow> 's \<Rightarrow> 'e list \<Rightarrow> 's" where
  "run_events step s [] = s"
| "run_events step s (e # es) = run_events step (step s e) es"

lemma run_events_append:
  "run_events step s (xs @ ys) = run_events step (run_events step s xs) ys"
  by (induction xs arbitrary: s) simp_all

locale event_machine =
  fixes step :: "'s \<Rightarrow> 'e \<Rightarrow> 's"
    and inv :: "'s \<Rightarrow> bool"
    and ok :: "'e \<Rightarrow> bool"
  assumes step_inv: "inv s \<Longrightarrow> ok e \<Longrightarrow> inv (step s e)"
begin

lemma run_inv: "inv s \<Longrightarrow> list_all ok es \<Longrightarrow> inv (run_events step s es)"
  by (induction es arbitrary: s) (simp_all add: step_inv)

end

end
