(* ===== verification/Machine.thy ===== *)
theory Machine
  imports Prelude
begin

text \<open>
  The machine under the kernel, as \<^verbatim>\<open>include/lib/lib.h\<close> gives access to it: the flat
  memory, the I/O ports and the interrupt flag. What a device answers is not code of the
  repository: \<open>port_in\<close> is a parameter of the state that gives the byte the \<open>n\<close>-th port
  read of the run returns, for each port; \<open>port_out\<close> is the trace of the bytes written, in
  order.
\<close>

record machine =
  mem :: memory
  port_in :: "nat \<Rightarrow> u16 \<Rightarrow> u8"
  in_count :: nat
  port_out :: "(u16 \<times> u8) list"
  int_flag :: bool

section \<open>Memory and ports\<close>

definition poke :: "u32 \<Rightarrow> u8 \<Rightarrow> 'a machine_scheme \<Rightarrow> 'a machine_scheme" where
  "poke a v s = s\<lparr>mem := (mem s)(a := v)\<rparr>"

definition inb :: "u16 \<Rightarrow> 'a machine_scheme \<Rightarrow> u8 \<times> 'a machine_scheme" where
  "inb port s = (port_in s (in_count s) port, s\<lparr>in_count := Suc (in_count s)\<rparr>)"

definition outb :: "u8 \<Rightarrow> u16 \<Rightarrow> 'a machine_scheme \<Rightarrow> 'a machine_scheme" where
  "outb data port s = s\<lparr>port_out := port_out s @ [(port, data)]\<rparr>"

section \<open>Wide port accesses\<close>

text \<open>Two and four consecutive ports, the lowest byte first.\<close>

definition inw :: "u16 \<Rightarrow> 'a machine_scheme \<Rightarrow> u32 \<times> 'a machine_scheme" where
  "inw port s =
     (let b = port_in s (in_count s)
      in (push_bit 8 (ucast (b (port + 1))) OR ucast (b port), s\<lparr>in_count := Suc (in_count s)\<rparr>))"

definition inl :: "u16 \<Rightarrow> 'a machine_scheme \<Rightarrow> u32 \<times> 'a machine_scheme" where
  "inl port s =
     (let b = port_in s (in_count s)
      in (push_bit 24 (ucast (b (port + 3))) OR push_bit 16 (ucast (b (port + 2)))
            OR push_bit 8 (ucast (b (port + 1))) OR ucast (b port), s\<lparr>in_count := Suc (in_count s)\<rparr>))"

definition outw :: "u16 \<Rightarrow> u16 \<Rightarrow> 'a machine_scheme \<Rightarrow> 'a machine_scheme" where
  "outw data port s = s\<lparr>port_out := port_out s @ [(port, ucast data), (port + 1, ucast (drop_bit 8 data))]\<rparr>"

definition outl :: "u32 \<Rightarrow> u16 \<Rightarrow> 'a machine_scheme \<Rightarrow> 'a machine_scheme" where
  "outl data port s = s\<lparr>port_out := port_out s @ [(port, ucast data), (port + 1, ucast (drop_bit 8 data)),
     (port + 2, ucast (drop_bit 16 data)), (port + 3, ucast (drop_bit 24 data))]\<rparr>"

text \<open>Ports that hold the bytes of a wide write are read as its value.\<close>

lemma outw_inw:
  assumes "port_out (outw data port s) = port_out s @ ws" and "\<forall>(q, b) \<in> set ws. port_in t (in_count t) q = b"
  shows "fst (inw port t) = ucast data"
proof -
  have "port_in t (in_count t) port = ucast data" "port_in t (in_count t) (port + 1) = ucast (drop_bit 8 data)"
    using assms by (auto simp: outw_def)
  then have "fst (inw port t) = push_bit 8 (ucast (ucast (drop_bit 8 data) :: u8)) OR ucast (ucast data :: u8)"
    by (simp add: inw_def Let_def)
  also have "\<dots> = ucast data"
  proof (rule bit_word_eqI)
    fix n assume "n < LENGTH(32)"
    consider "n < 8" | "8 \<le> n" "n < 16" | "16 \<le> n" by linarith
    then show "bit (push_bit 8 (ucast (ucast (drop_bit 8 data) :: u8)) OR ucast (ucast data :: u8) :: u32) n = bit (ucast data :: u32) n"
      by cases (auto simp: bit_simps dest: bit_imp_le_length)
  qed
  finally show ?thesis .
qed

lemma outl_inl:
  assumes "port_out (outl data port s) = port_out s @ ws" and "\<forall>(q, b) \<in> set ws. port_in t (in_count t) q = b"
  shows "fst (inl port t) = data"
proof -
  have "port_in t (in_count t) port = ucast data" "port_in t (in_count t) (port + 1) = ucast (drop_bit 8 data)"
    "port_in t (in_count t) (port + 2) = ucast (drop_bit 16 data)" "port_in t (in_count t) (port + 3) = ucast (drop_bit 24 data)"
    using assms by (auto simp: outl_def)
  then have "fst (inl port t) = push_bit 24 (ucast (ucast (drop_bit 24 data) :: u8)) OR push_bit 16 (ucast (ucast (drop_bit 16 data) :: u8))
      OR push_bit 8 (ucast (ucast (drop_bit 8 data) :: u8)) OR (ucast (ucast data :: u8) :: u32)"
    by (simp add: inl_def Let_def)
  also have "\<dots> = data"
  proof (rule bit_word_eqI)
    fix n assume "n < LENGTH(32)"
    consider "n < 8" | "8 \<le> n" "n < 16" | "16 \<le> n" "n < 24" | "24 \<le> n" by linarith
    then show "bit (push_bit 24 (ucast (ucast (drop_bit 24 data) :: u8)) OR push_bit 16 (ucast (ucast (drop_bit 16 data) :: u8))
        OR push_bit 8 (ucast (ucast (drop_bit 8 data) :: u8)) OR ucast (ucast data :: u8) :: u32) n = bit data n"
      by cases (auto simp: bit_simps dest: bit_imp_le_length)
  qed
  finally show ?thesis .
qed

section \<open>The interrupt flag\<close>

definition cli :: "'a machine_scheme \<Rightarrow> 'a machine_scheme" where
  "cli s = s\<lparr>int_flag := False\<rparr>"

definition sti :: "'a machine_scheme \<Rightarrow> 'a machine_scheme" where
  "sti s = s\<lparr>int_flag := True\<rparr>"

definition cli_and_save :: "'a machine_scheme \<Rightarrow> bool \<times> 'a machine_scheme" where
  "cli_and_save s = (int_flag s, s\<lparr>int_flag := False\<rparr>)"

definition restore_flags :: "bool \<Rightarrow> 'a machine_scheme \<Rightarrow> 'a machine_scheme" where
  "restore_flags flags s = s\<lparr>int_flag := flags\<rparr>"

section \<open>Polling\<close>

text \<open>
  \<^verbatim>\<open>while(!P(inb(port)));\<close>: reads until the device answers as expected, which it may
  never do (\<^const>\<open>None\<close>).
\<close>

partial_function (option) inb_until ::
  "(u8 \<Rightarrow> bool) \<Rightarrow> u16 \<Rightarrow> 'a machine_scheme \<Rightarrow> 'a machine_scheme option" where
  "inb_until P port s =
     (if P (fst (inb port s)) then Some (snd (inb port s))
      else inb_until P port (snd (inb port s)))"

lemma inb_until_stop:
  "P (fst (inb port s)) \<Longrightarrow> inb_until P port s = Some (snd (inb port s))"
  by (subst inb_until.simps) simp

lemma inb_until_again:
  "\<not> P (fst (inb port s)) \<Longrightarrow> inb_until P port s = inb_until P port (snd (inb port s))"
  by (subst inb_until.simps) simp

lemma inb_until_answers:
  assumes "P (port_in s (in_count s + n) port)" and "\<forall>k<n. \<not> P (port_in s (in_count s + k) port)"
  shows "inb_until P port s = Some (s\<lparr>in_count := Suc (in_count s + n)\<rparr>)"
  using assms
proof (induction n arbitrary: s)
  case 0
  then show ?case by (simp add: inb_until_stop inb_def)
next
  case (Suc n)
  let ?s = "snd (inb port s)"
  have "\<not> P (fst (inb port s))" using Suc.prems(2) [rule_format, of 0] by (simp add: inb_def)
  then have "inb_until P port s = inb_until P port ?s" by (rule inb_until_again)
  also have "\<dots> = Some (?s\<lparr>in_count := Suc (in_count ?s + n)\<rparr>)"
    using Suc.prems by (intro Suc.IH) (auto simp: inb_def)
  finally show ?case by (simp add: inb_def)
qed

lemma inb_until_returns:
  assumes "P (port_in s (in_count s + n) port)"
  shows "\<exists>k\<le>n. inb_until P port s = Some (s\<lparr>in_count := Suc (in_count s + k)\<rparr>)"
proof -
  define k where "k = (LEAST k. P (port_in s (in_count s + k) port))"
  have "P (port_in s (in_count s + k) port)" and "k \<le> n"
    using assms by (auto simp: k_def intro: LeastI Least_le)
  moreover have "\<forall>j<k. \<not> P (port_in s (in_count s + j) port)"
    by (auto simp: k_def dest: not_less_Least)
  ultimately show ?thesis using inb_until_answers by blast
qed

section \<open>What the accesses leave alone\<close>

lemma poke_simps [simp]:
  "mem (poke a v s) = (mem s)(a := v)" "port_in (poke a v s) = port_in s"
  "in_count (poke a v s) = in_count s" "port_out (poke a v s) = port_out s"
  "int_flag (poke a v s) = int_flag s"
  by (simp_all add: poke_def)

lemma outb_simps [simp]:
  "mem (outb d p s) = mem s" "port_in (outb d p s) = port_in s"
  "in_count (outb d p s) = in_count s" "port_out (outb d p s) = port_out s @ [(p, d)]"
  "int_flag (outb d p s) = int_flag s"
  by (simp_all add: outb_def)

lemma int_flag_simps [simp]:
  "int_flag (cli s) = False" "int_flag (sti s) = True"
  "fst (cli_and_save s) = int_flag s" "int_flag (snd (cli_and_save s)) = False"
  "int_flag (restore_flags f s) = f"
  "mem (cli s) = mem s" "mem (sti s) = mem s" "mem (snd (cli_and_save s)) = mem s"
  "mem (restore_flags f s) = mem s"
  by (simp_all add: cli_def sti_def cli_and_save_def restore_flags_def)

end
