(* ===== verification/CMemory.thy ===== *)
theory CMemory
  imports Prelude
begin

text \<open>
  The block routines of \<^verbatim>\<open>src/lib/lib.c\<close>, written in inline assembly: \<^verbatim>\<open>memset\<close> with its
  word and double-word variants, \<^verbatim>\<open>memcpy\<close> and \<^verbatim>\<open>memmove\<close>. Each is shown equal to
  the byte-by-byte copy or fill it optimises.
\<close>

section \<open>memset, memcpy, memmove\<close>

text \<open>
  The inline assembly, loop by loop. \<open>edi\<close>, \<open>esi\<close> and the counter \<open>ecx\<close> are the registers;
  the byte loops of the head stop at a counter of 0 or an aligned \<open>edi\<close>, the string
  instruction moves whole words, the byte loop of the tail does what is left.
\<close>

fun memset_top :: "memory \<Rightarrow> u32 \<Rightarrow> u8 \<Rightarrow> nat \<Rightarrow> memory \<times> u32 \<times> nat" where
  "memset_top m edi al 0 = (m, edi, 0)"
| "memset_top m edi al (Suc ecx) =
     (if edi AND 3 = 0 then (m, edi, Suc ecx)
      else memset_top (m(edi := al)) (edi + 1) al ecx)"

fun rep_stosl :: "memory \<Rightarrow> u32 \<Rightarrow> u32 \<Rightarrow> nat \<Rightarrow> memory \<times> u32" where
  "rep_stosl m edi eax 0 = (m, edi)"
| "rep_stosl m edi eax (Suc ecx) = rep_stosl (store32 m edi eax) (edi + 4) eax ecx"

fun memset_bottom :: "memory \<Rightarrow> u32 \<Rightarrow> u8 \<Rightarrow> nat \<Rightarrow> memory" where
  "memset_bottom m edi al 0 = m"
| "memset_bottom m edi al (Suc edx) = memset_bottom (m(edi := al)) (edi + 1) al edx"

definition memset :: "memory \<Rightarrow> u32 \<Rightarrow> u32 \<Rightarrow> u32 \<Rightarrow> memory" where
  "memset m s c n =
     (let c8 = c AND 0xFF;
          eax = push_bit 24 c8 OR push_bit 16 c8 OR push_bit 8 c8 OR c8;
          (m1, edi, ecx) = memset_top m s (ucast eax) (unat n)
      in if ecx = 0 then m1
         else let (m2, edi') = rep_stosl m1 edi eax (ecx div 4)
              in memset_bottom m2 edi' (ucast eax) (ecx mod 4))"

definition memset_dword :: "memory \<Rightarrow> u32 \<Rightarrow> u32 \<Rightarrow> u32 \<Rightarrow> memory" where
  "memset_dword m s c n = fst (rep_stosl m s c (unat n))"

fun rep_stosw :: "memory \<Rightarrow> u32 \<Rightarrow> u16 \<Rightarrow> nat \<Rightarrow> memory" where
  "rep_stosw m edi ax 0 = m"
| "rep_stosw m edi ax (Suc ecx) =
     rep_stosw (m(edi := ucast ax, edi + 1 := ucast (drop_bit 8 ax))) (edi + 2) ax ecx"

definition memset_word :: "memory \<Rightarrow> u32 \<Rightarrow> u32 \<Rightarrow> u32 \<Rightarrow> memory" where
  "memset_word m s c n = rep_stosw m s (ucast c) (unat n)"

fun memcpy_top :: "memory \<Rightarrow> u32 \<Rightarrow> u32 \<Rightarrow> nat \<Rightarrow> memory \<times> u32 \<times> u32 \<times> nat" where
  "memcpy_top m esi edi 0 = (m, esi, edi, 0)"
| "memcpy_top m esi edi (Suc ecx) =
     (if edi AND 3 = 0 then (m, esi, edi, Suc ecx)
      else memcpy_top (m(edi := m esi)) (esi + 1) (edi + 1) ecx)"

fun rep_movsl :: "memory \<Rightarrow> u32 \<Rightarrow> u32 \<Rightarrow> nat \<Rightarrow> memory \<times> u32 \<times> u32" where
  "rep_movsl m esi edi 0 = (m, esi, edi)"
| "rep_movsl m esi edi (Suc ecx) =
     rep_movsl (store32 m edi (load32 m esi)) (esi + 4) (edi + 4) ecx"

fun rep_movsb :: "memory \<Rightarrow> u32 \<Rightarrow> u32 \<Rightarrow> nat \<Rightarrow> memory" where
  "rep_movsb m esi edi 0 = m"
| "rep_movsb m esi edi (Suc ecx) = rep_movsb (m(edi := m esi)) (esi + 1) (edi + 1) ecx"

definition memcpy :: "memory \<Rightarrow> u32 \<Rightarrow> u32 \<Rightarrow> u32 \<Rightarrow> memory" where
  "memcpy m dest src n =
     (let (m1, esi, edi, ecx) = memcpy_top m src dest (unat n)
      in if ecx = 0 then m1
         else let (m2, esi', edi') = rep_movsl m1 esi edi (ecx div 4)
              in rep_movsb m2 esi' edi' (ecx mod 4))"

text \<open>With the direction flag set, the string instruction walks downwards.\<close>

fun rep_movsb_down :: "memory \<Rightarrow> u32 \<Rightarrow> u32 \<Rightarrow> nat \<Rightarrow> memory" where
  "rep_movsb_down m esi edi 0 = m"
| "rep_movsb_down m esi edi (Suc ecx) = rep_movsb_down (m(edi := m esi)) (esi - 1) (edi - 1) ecx"

text \<open>The second component is the direction flag the routine leaves behind.\<close>

definition memmove :: "memory \<Rightarrow> u32 \<Rightarrow> u32 \<Rightarrow> u32 \<Rightarrow> memory \<times> bool" where
  "memmove m dest src n =
     (if src \<ge> dest then (rep_movsb m src dest (unat n), False)
      else (rep_movsb_down m (src + n - 1) (dest + n - 1) (unat n), True))"

section \<open>Correctness of memset, memcpy and memmove\<close>

lemma aligned_plus4: "(a + 4) AND 3 = (a AND 3 :: u32)"
proof -
  have and3: "x AND 3 = take_bit 2 x" for x :: u32
    by (simp add: take_bit_eq_mask mask_eq_exp_minus_1)
  have "take_bit 2 (a + 4) = take_bit 2 a"
    by transfer (simp add: take_bit_eq_mod mod_mod_cancel)
  then show ?thesis by (simp add: and3)
qed

lemma and_0xFF: "c AND 0xFF = take_bit 8 (c :: u32)"
  by (simp add: take_bit_eq_mask mask_eq_exp_minus_1)

text \<open>\<open>filled\<close> and \<open>copied\<close>: the memory after the first \<open>k\<close> bytes are done.\<close>

definition filled :: "memory \<Rightarrow> u32 \<Rightarrow> u8 \<Rightarrow> nat \<Rightarrow> memory" where
  "filled m d b k = store_bytes m d (replicate k b)"

definition copied :: "memory \<Rightarrow> u32 \<Rightarrow> u32 \<Rightarrow> nat \<Rightarrow> memory" where
  "copied m d s k = store_bytes m d (load_bytes m s k)"

lemma filled_0 [simp]: "filled m d b 0 = m"
  by (simp add: filled_def)

lemma copied_0 [simp]: "copied m d s 0 = m"
  by (simp add: copied_def load_bytes_def)

lemma filled_add: "store_bytes (filled m d b k) (d + of_nat k) (replicate j b) = filled m d b (k + j)"
  by (simp add: filled_def replicate_add store_bytes_append)

lemma filled_step: "(filled m d b k)(d + of_nat k := b) = filled m d b (Suc k)"
  using filled_add [of m d b k 1] by simp

lemma copied_add:
  "store_bytes (copied m d s k) (d + of_nat k) (load_bytes m (s + of_nat k) j) = copied m d s (k + j)"
  by (simp add: copied_def load_bytes_add store_bytes_append)

lemma copied_step: "(copied m d s k)(d + of_nat k := m (s + of_nat k)) = copied m d s (Suc k)"
  using copied_add [of m d s k 1] by (simp add: load_bytes_def)

lemma copied_source:
  assumes "rng d n \<inter> rng s n = {}" and "j < n" and "k \<le> n" and "n \<le> 4294967296"
  shows "copied m d s k (s + of_nat j) = m (s + of_nat j)"
proof -
  have "s + of_nat j \<in> rng s n" using assms by (intro nth_in_rng)
  with assms(1) have "s + of_nat j \<notin> rng d n" by blast
  with rng_mono [OF assms(3), of d] have "s + of_nat j \<notin> rng d k" by blast
  then show ?thesis
    unfolding copied_def using assms by (intro store_bytes_outside) simp_all
qed

lemma store32_fill:
  "store32 m a (push_bit 24 c OR push_bit 16 c OR push_bit 8 c OR c)
     = store_bytes m a (replicate 4 (ucast c))" if "c AND 0xFF = c"
proof -
  have c: "\<not> bit c n" if "8 \<le> n" for n
    using that \<open>c AND 0xFF = c\<close> by (metis and_0xFF bit_take_bit_iff not_le)
  let ?v = "push_bit 24 c OR push_bit 16 c OR push_bit 8 c OR c"
  have "ucast ?v = (ucast c :: u8)" "ucast (drop_bit 8 ?v) = (ucast c :: u8)"
    "ucast (drop_bit 16 ?v) = (ucast c :: u8)" "ucast (drop_bit 24 ?v) = (ucast c :: u8)"
    by (rule bit_word_eqI; auto simp: bit_simps c)+
  then show ?thesis
    unfolding store32_bytes by (simp add: numeral_eq_Suc)
qed

lemma store32_load32:
  "store32 m a (load32 m' b) = store_bytes m a (load_bytes m' b 4)"
proof -
  have "ucast (load32 m' b) = m' b" "ucast (drop_bit 8 (load32 m' b)) = m' (b + 1)"
    "ucast (drop_bit 16 (load32 m' b)) = m' (b + 2)" "ucast (drop_bit 24 (load32 m' b)) = m' (b + 3)"
    by (rule bit_word_eqI; auto simp: load32_def bit_simps dest: bit_imp_le_length)+
  then show ?thesis
    unfolding store32_bytes by (simp add: load_bytes_def upt_rec numeral_eq_Suc)
qed
lemma memset_top_filled:
  "\<exists>j\<le>n. memset_top (filled m d b k) (d + of_nat k) b n =
     (filled m d b (k + j), d + of_nat (k + j), n - j) \<and>
     (n - j = 0 \<or> (d + of_nat (k + j)) AND 3 = 0)"
proof (induction n arbitrary: k)
  case 0
  show ?case by simp
next
  case (Suc n)
  show ?case
  proof (cases "(d + of_nat k) AND 3 = 0")
    case True
    then show ?thesis by (intro exI [of _ 0]) simp
  next
    case False
    from Suc [of "Suc k"] obtain j where j: "j \<le> n"
      "memset_top (filled m d b (Suc k)) (d + of_nat (Suc k)) b n =
         (filled m d b (Suc k + j), d + of_nat (Suc k + j), n - j)"
      "n - j = 0 \<or> (d + of_nat (Suc k + j)) AND 3 = 0" by blast
    have "memset_top (filled m d b k) (d + of_nat k) b (Suc n) =
        memset_top (filled m d b (Suc k)) (d + of_nat (Suc k)) b n"
      using False by (simp add: filled_step add.commute add.left_commute)
    with j show ?thesis by (intro exI [of _ "Suc j"]) (simp add: add.commute add.left_commute)
  qed
qed

lemma rep_stosl_filled:
  assumes "c AND 0xFF = c"
  shows "rep_stosl (filled m d (ucast c) k) (d + of_nat k)
      (push_bit 24 c OR push_bit 16 c OR push_bit 8 c OR c) n =
    (filled m d (ucast c) (k + 4 * n), d + of_nat (k + 4 * n))"
proof (induction n arbitrary: k)
  case 0
  show ?case by simp
next
  case (Suc n)
  show ?case
    using Suc [of "k + 4"]
    by (simp add: store32_fill [OF assms] filled_add algebra_simps)
qed

lemma memset_bottom_filled:
  "memset_bottom (filled m d b k) (d + of_nat k) b n = filled m d b (k + n)"
proof (induction n arbitrary: k)
  case (Suc n)
  show ?case
    using Suc [of "Suc k"] by (simp add: filled_step add.commute add.left_commute)
qed simp

lemma memset_fills: "memset m s c n = store_bytes m s (replicate (unat n) (ucast c))"
proof -
  define c8 where "c8 = c AND 0xFF"
  define eax where "eax = push_bit 24 c8 OR push_bit 16 c8 OR push_bit 8 c8 OR c8"
  have c8: "c8 AND 0xFF = c8" by (simp add: c8_def and_0xFF)
  have b: "ucast eax = (ucast c8 :: u8)" "(ucast c8 :: u8) = ucast c"
    by (rule bit_word_eqI; auto simp: eax_def c8_def and_0xFF bit_simps)+
  obtain j where j: "j \<le> unat n"
    "memset_top m s (ucast c8) (unat n) = (filled m s (ucast c8) j, s + of_nat j, unat n - j)"
    using memset_top_filled [of "unat n" m s "ucast c8" 0] by auto
  have "memset m s c n = filled m s (ucast c8) (unat n)"
  proof (cases "unat n - j = 0")
    case True
    with j have "j = unat n" by simp
    with j True show ?thesis
      by (simp add: memset_def Let_def b(1) flip: c8_def eax_def)
  next
    case False
    define q where "q = (unat n - j) div 4"
    have "j + 4 * q + (unat n - j) mod 4 = unat n"
      using j by (simp add: q_def)
    then have "memset_bottom (filled m s (ucast c8) (j + 4 * q)) (s + of_nat (j + 4 * q))
        (ucast c8) ((unat n - j) mod 4) = filled m s (ucast c8) (unat n)"
      by (simp only: memset_bottom_filled)
    with j False show ?thesis
      by (simp add: memset_def Let_def b(1) rep_stosl_filled [OF c8, folded eax_def]
          flip: c8_def eax_def q_def)
  qed
  then show ?thesis by (simp add: filled_def b(2))
qed


text \<open>The copy loops, as long as source and destination do not overlap.\<close>

lemma memcpy_top_copied:
  assumes "rng d N \<inter> rng s N = {}" and "N \<le> 4294967296"
  shows "k + n \<le> N \<Longrightarrow>
    \<exists>j\<le>n. memcpy_top (copied m d s k) (s + of_nat k) (d + of_nat k) n =
      (copied m d s (k + j), s + of_nat (k + j), d + of_nat (k + j), n - j)"
proof (induction n arbitrary: k)
  case 0
  show ?case by simp
next
  case (Suc n)
  show ?case
  proof (cases "(d + of_nat k) AND 3 = 0")
    case True
    then show ?thesis by (intro exI [of _ 0]) simp
  next
    case False
    from Suc.IH [of "Suc k"] Suc.prems obtain j where j: "j \<le> n"
      "memcpy_top (copied m d s (Suc k)) (s + of_nat (Suc k)) (d + of_nat (Suc k)) n =
         (copied m d s (Suc k + j), s + of_nat (Suc k + j), d + of_nat (Suc k + j), n - j)" by auto
    have "copied m d s k (s + of_nat k) = m (s + of_nat k)"
      using Suc.prems assms by (intro copied_source [of _ N]) auto
    then have "memcpy_top (copied m d s k) (s + of_nat k) (d + of_nat k) (Suc n) =
        memcpy_top (copied m d s (Suc k)) (s + of_nat (Suc k)) (d + of_nat (Suc k)) n"
      using False by (simp add: copied_step algebra_simps)
    with j show ?thesis by (intro exI [of _ "Suc j"]) (simp add: algebra_simps)
  qed
qed

lemma load_bytes_copied:
  assumes "rng d N \<inter> rng s N = {}" and "N \<le> 4294967296" and "k + l \<le> N"
  shows "load_bytes (copied m d s k) (s + of_nat k) l = load_bytes m (s + of_nat k) l"
proof (rule nth_equalityI)
  fix i assume "i < length (load_bytes (copied m d s k) (s + of_nat k) l)"
  then have i: "i < l" by simp
  have "copied m d s k (s + of_nat (k + i)) = m (s + of_nat (k + i))"
    using i assms by (intro copied_source [of _ N]) auto
  with i show "load_bytes (copied m d s k) (s + of_nat k) l ! i = load_bytes m (s + of_nat k) l ! i"
    by (simp add: algebra_simps)
qed simp

lemma rep_movsl_copied:
  assumes "rng d N \<inter> rng s N = {}" and "N \<le> 4294967296"
  shows "k + 4 * n \<le> N \<Longrightarrow>
    rep_movsl (copied m d s k) (s + of_nat k) (d + of_nat k) n =
      (copied m d s (k + 4 * n), s + of_nat (k + 4 * n), d + of_nat (k + 4 * n))"
proof (induction n arbitrary: k)
  case 0
  show ?case by simp
next
  case (Suc n)
  have "store32 (copied m d s k) (d + of_nat k) (load32 (copied m d s k) (s + of_nat k)) =
      copied m d s (k + 4)"
    using Suc.prems by (simp add: store32_load32 load_bytes_copied [OF assms] copied_add)
  with Suc.IH [of "k + 4"] Suc.prems show ?case
    by (simp add: algebra_simps)
qed

lemma rep_movsb_copied:
  assumes "rng d N \<inter> rng s N = {}" and "N \<le> 4294967296"
  shows "k + n \<le> N \<Longrightarrow>
    rep_movsb (copied m d s k) (s + of_nat k) (d + of_nat k) n = copied m d s (k + n)"
proof (induction n arbitrary: k)
  case 0
  show ?case by simp
next
  case (Suc n)
  have "copied m d s k (s + of_nat k) = m (s + of_nat k)"
    using Suc.prems assms by (intro copied_source [of _ N]) auto
  with Suc.IH [of "Suc k"] Suc.prems show ?case
    by (simp add: copied_step algebra_simps)
qed

lemma memcpy_copies:
  assumes "rng d (unat n) \<inter> rng s (unat n) = {}"
  shows "memcpy m d s n = store_bytes m d (load_bytes m s (unat n))"
proof -
  have le: "unat n \<le> 4294967296"
    using unat_lt32 [of n] by simp
  obtain j where j: "j \<le> unat n"
    "memcpy_top m s d (unat n) = (copied m d s j, s + of_nat j, d + of_nat j, unat n - j)"
    using memcpy_top_copied [OF assms le, of 0 "unat n" m] by auto
  have "memcpy m d s n = copied m d s (unat n)"
  proof (cases "unat n - j = 0")
    case True
    with j have "j = unat n" by simp
    with j True show ?thesis by (simp add: memcpy_def)
  next
    case False
    define q where "q = (unat n - j) div 4"
    have q: "j + 4 * q + (unat n - j) mod 4 = unat n"
      using j by (simp add: q_def)
    then have "rep_movsl (copied m d s j) (s + of_nat j) (d + of_nat j) q =
        (copied m d s (j + 4 * q), s + of_nat (j + 4 * q), d + of_nat (j + 4 * q))"
      by (intro rep_movsl_copied [OF assms le]) simp
    moreover have "rep_movsb (copied m d s (j + 4 * q)) (s + of_nat (j + 4 * q))
        (d + of_nat (j + 4 * q)) ((unat n - j) mod 4) = copied m d s (unat n)"
      using q rep_movsb_copied [OF assms le, of "j + 4 * q" "(unat n - j) mod 4" m] by simp
    ultimately show ?thesis
      using j False by (simp add: memcpy_def flip: q_def del: of_nat_add)
  qed
  then show ?thesis by (simp add: copied_def)
qed

text \<open>
  \<^verbatim>\<open>memmove\<close> copies in the direction that never overwrites a byte still to be read.
\<close>

lemma rep_movsb_up:
  assumes "d \<le> s" and "unat s + N \<le> 4294967296"
  shows "k + n \<le> N \<Longrightarrow>
    rep_movsb (copied m d s k) (s + of_nat k) (d + of_nat k) n = copied m d s (k + n)"
proof (induction n arbitrary: k)
  case 0
  show ?case by simp
next
  case (Suc n)
  have ds: "unat d \<le> unat s" using assms(1) by (simp add: word_le_nat_alt)
  have "unat (s + of_nat k) = unat s + k"
    using Suc.prems assms(2) by (intro no_wrap_offset [of _ N]) auto
  then have "s + of_nat k \<notin> rng d k"
    using ds Suc.prems assms(2) by (subst in_rng_interval) simp_all
  then have "copied m d s k (s + of_nat k) = m (s + of_nat k)"
    unfolding copied_def using Suc.prems assms(2) by (intro store_bytes_outside) simp_all
  with Suc.IH [of "Suc k"] Suc.prems show ?case
    by (simp add: copied_step algebra_simps)
qed

text \<open>Downwards: the memory after the last \<open>N - k\<close> of \<open>N\<close> bytes are done.\<close>

definition copied_down :: "memory \<Rightarrow> u32 \<Rightarrow> u32 \<Rightarrow> nat \<Rightarrow> nat \<Rightarrow> memory" where
  "copied_down m d s N k = store_bytes m (d + of_nat k) (load_bytes m (s + of_nat k) (N - k))"

lemma store_bytes_front:
  "length bs < 4294967296 \<Longrightarrow> (store_bytes m (a + 1) bs)(a := b) = store_bytes m a (b # bs)"
  by (rule ext) (auto simp: store_bytes_apply offset_Suc unsigned_minus_1_eq_mask
      mask_eq_exp_minus_1 simp del: store_bytes.simps)

lemma load_bytes_Suc: "load_bytes m a (Suc n) = m a # load_bytes m (a + 1) n"
  using load_bytes_add [of m a 1 n] by (simp add: load_bytes_def)

lemma copied_down_step:
  assumes "k < N" and "N \<le> 4294967296"
  shows "(copied_down m d s N (Suc k))(d + of_nat k := m (s + of_nat k)) = copied_down m d s N k"
proof -
  have N: "N - k = Suc (N - Suc k)" using assms by simp
  have a: "d + of_nat (Suc k) = d + of_nat k + 1" "s + of_nat (Suc k) = s + of_nat k + 1"
    by simp_all
  have "(store_bytes m (d + of_nat k + 1) (load_bytes m (s + of_nat k + 1) (N - Suc k)))
      (d + of_nat k := m (s + of_nat k)) =
    store_bytes m (d + of_nat k) (m (s + of_nat k) # load_bytes m (s + of_nat k + 1) (N - Suc k))"
    using assms by (intro store_bytes_front) simp
  then show ?thesis
    unfolding copied_down_def N load_bytes_Suc a .
qed

lemma copied_down_source:
  assumes "s < d" and "unat d + N \<le> 4294967296" and "k < N"
  shows "copied_down m d s N (Suc k) (s + of_nat k) = m (s + of_nat k)"
proof (cases "Suc k < N")
  case True
  have sd: "unat s < unat d" using assms(1) by (simp add: word_less_nat_alt)
  have "unat (s + of_nat k) = unat s + k"
    using sd assms(2,3) by (intro no_wrap_offset [of _ N]) auto
  moreover have "unat (d + of_nat (Suc k)) = unat d + Suc k"
    using assms True by (intro no_wrap_offset [of _ N])
  ultimately have "s + of_nat k \<notin> rng (d + of_nat (Suc k)) (N - Suc k)"
    using sd assms(2,3) by (subst in_rng_interval) auto
  then show ?thesis
    unfolding copied_down_def using assms by (intro store_bytes_outside) simp_all
next
  case False
  with assms(3) show ?thesis by (simp add: copied_down_def load_bytes_def)
qed

lemma rep_movsb_down_copied:
  assumes "s < d" and "unat d + N \<le> 4294967296"
  shows "k \<le> N \<Longrightarrow>
    rep_movsb_down (copied_down m d s N k) (s + of_nat k - 1) (d + of_nat k - 1) k =
      copied_down m d s N 0"
proof (induction k)
  case 0
  then show ?case by simp
next
  case (Suc k)
  have "(copied_down m d s N (Suc k))(d + of_nat k := copied_down m d s N (Suc k) (s + of_nat k)) =
      copied_down m d s N k"
    using Suc.prems assms by (simp add: copied_down_source copied_down_step)
  with Suc show ?case by simp
qed

lemma memmove_copies:
  assumes "unat s + unat n \<le> 4294967296" and "unat d + unat n \<le> 4294967296"
  shows "fst (memmove m d s n) = store_bytes m d (load_bytes m s (unat n))"
proof (cases "s \<ge> d")
  case True
  then show ?thesis
    using rep_movsb_up [OF True assms(1), of 0 "unat n" m] by (simp add: memmove_def copied_def)
next
  case False
  then have "s < d" by simp
  from rep_movsb_down_copied [OF this assms(2), of "unat n" m] False show ?thesis
    by (simp add: memmove_def copied_down_def load_bytes_def)
qed

section \<open>Properties\<close>

text \<open>\<^verbatim>\<open>memset\<close> stores the low byte of \<open>c\<close> at \<open>n\<close> consecutive addresses and nothing else, for
  every alignment of the start and every length.\<close>

theorem memset_stores_bytes:
  shows "memset m s c n = store_bytes m s (replicate (unat n) (ucast c))"
  by (rule memset_fills)

text \<open>\<^verbatim>\<open>memcpy\<close> copies between objects that do not overlap, for every alignment and length.\<close>

theorem memcpy_copies_disjoint:
  assumes "rng d (unat n) \<inter> rng s (unat n) = {}"
  shows "memcpy m d s n = store_bytes m d (load_bytes m s (unat n))"
  by (rule memcpy_copies [OF assms])

theorem memcpy_copies_disjoint_witness:
  "\<forall>m. memcpy m 0x1001 0x2003 7 = store_bytes m 0x1001 (load_bytes m 0x2003 7)"
  using memcpy_copies_disjoint [of "0x1001" 7 "0x2003"] rng_disjoint [of "0x1001" 7 "0x2003" 7] by simp

text \<open>C37: \<^verbatim>\<open>memmove\<close> copies correctly between objects that may overlap in either direction.\<close>

theorem memmove_copies_overlapping:
  assumes "unat s + unat n \<le> 4294967296" and "unat d + unat n \<le> 4294967296"
  shows "fst (memmove m d s n) = store_bytes m d (load_bytes m s (unat n))"
  by (rule memmove_copies [OF assms])

theorem memmove_copies_overlapping_witness:
  "\<forall>m. fst (memmove m 0x1002 0x1000 9) = store_bytes m 0x1002 (load_bytes m 0x1000 9) \<and>
   fst (memmove m 0x1000 0x1002 9) = store_bytes m 0x1000 (load_bytes m 0x1002 9)"
  using memmove_copies_overlapping [of "0x1000" 9 "0x1002"] memmove_copies_overlapping [of "0x1002" 9 "0x1000"] by simp

end
