(* ===== verification/Console.thy ===== *)
theory Console
  imports Machine CMemory
begin

text \<open>
  The text console of \<^verbatim>\<open>src/lib/lib.c\<close>: one VGA text page at \<^verbatim>\<open>VIDEO\<close>, a cursor per
  terminal and a 4 KB backing page per terminal. A cell of the page is a character byte
  and an attribute byte.
\<close>

section \<open>State\<close>

text \<open>
  \<open>lib_active_terminal\<close> is the file-local \<^verbatim>\<open>static int active_terminal\<close> of \<^verbatim>\<open>lib.c\<close>, a
  copy that only some routines refresh from the \<^verbatim>\<open>active_terminal\<close> of
  \<^verbatim>\<open>drivers/keyboard.c\<close>. The cursor arrays have \<^verbatim>\<open>NUM_TERMINALS\<close> (3) entries.
\<close>

record console = machine +
  screen_x :: "nat \<Rightarrow> int"
  screen_y :: "nat \<Rightarrow> int"
  lib_active_terminal :: nat
  text_color :: u32
  lfsr :: u16
  lfsr_bit :: u32
  active_terminal :: u8

definition VIDEO :: u32 where
  "VIDEO = 0xB8000"

definition NUM_COLS :: int where
  "NUM_COLS = 80"

definition NUM_ROWS :: int where
  "NUM_ROWS = 25"

definition term_vid_mem :: "nat \<Rightarrow> u32" where
  "term_vid_mem t = [0xBC000, 0xDC000, 0xEC000] ! t"

text \<open>\<^verbatim>\<open>video_mem + (k << 1)\<close>\<close>

definition cell_addr :: "int \<Rightarrow> u32" where
  "cell_addr k = VIDEO + of_int (2 * k)"

text \<open>The pair of stores that every routine uses to draw a cell.\<close>

definition put_cell :: "int \<Rightarrow> u8 \<Rightarrow> 'a console_scheme \<Rightarrow> 'a console_scheme" where
  "put_cell k c s = poke (cell_addr k + 1) (ucast (text_color s)) (poke (cell_addr k) c s)"

section \<open>Operations\<close>

definition clear :: "'a console_scheme \<Rightarrow> 'a console_scheme" where
  "clear s = fold (\<lambda>i. put_cell (int i) (chr CHR '' '')) [0..<2000] s"

definition draw_full_block :: "int \<Rightarrow> int \<Rightarrow> u8 \<Rightarrow> 'a console_scheme \<Rightarrow> 'a console_scheme" where
  "draw_full_block x y p_char s = (let offset = y * NUM_COLS + x in put_cell offset p_char s)"

definition get_full_block :: "int \<Rightarrow> int \<Rightarrow> 'a console_scheme \<Rightarrow> u8" where
  "get_full_block x y s = (let offset = y * NUM_COLS + x in mem s (cell_addr offset))"

definition rand :: "'a console_scheme \<Rightarrow> u32 \<times> 'a console_scheme" where
  "rand s =
     (let v = ucast (lfsr s) :: u32;
          bit = (drop_bit 0 v XOR drop_bit 2 v XOR drop_bit 3 v XOR drop_bit 5 v) AND 1;
          v' = ucast (drop_bit 1 v OR push_bit 15 bit) :: u16
      in (ucast v', s\<lparr>lfsr_bit := bit, lfsr := v'\<rparr>))"

definition update_cursor :: "int \<Rightarrow> int \<Rightarrow> 'a console_scheme \<Rightarrow> 'a console_scheme" where
  "update_cursor row col s =
     (let position = of_int (row * NUM_COLS + col) :: u16;
          s = outb 15 0x3D4 s;
          s = outb (ucast (position AND 0xFF)) 0x3D5 s;
          s = outb 14 0x3D4 s
      in outb (ucast (drop_bit 8 position AND 0xFF)) 0x3D5 s)"

definition get_active_terminal :: "'a console_scheme \<Rightarrow> u8" where
  "get_active_terminal s = active_terminal s"

definition set_active_terminal :: "u8 \<Rightarrow> 'a console_scheme \<Rightarrow> 'a console_scheme" where
  "set_active_terminal t s = s\<lparr>active_terminal := t\<rparr>"

definition refresh_active :: "'a console_scheme \<Rightarrow> 'a console_scheme" where
  "refresh_active s = s\<lparr>lib_active_terminal := unat (get_active_terminal s)\<rparr>"

definition set_x :: "nat \<Rightarrow> int \<Rightarrow> 'a console_scheme \<Rightarrow> 'a console_scheme" where
  "set_x t x s = s\<lparr>screen_x := (screen_x s)(t := x)\<rparr>"

definition set_y :: "nat \<Rightarrow> int \<Rightarrow> 'a console_scheme \<Rightarrow> 'a console_scheme" where
  "set_y t y s = s\<lparr>screen_y := (screen_y s)(t := y)\<rparr>"

definition new_line :: "'a console_scheme \<Rightarrow> 'a console_scheme" where
  "new_line s0 =
     (let s = refresh_active s0; t = lib_active_terminal s;
          s = (if screen_y s t = NUM_ROWS - 1 then
                 let s = fold (\<lambda>i. fold (\<lambda>j s.
                           put_cell (NUM_COLS * int i + int j)
                             (mem s (cell_addr (NUM_COLS * (int i + 1) + int j))) s)
                           [0..<80]) [0..<24] s;
                     s = fold (\<lambda>i. fold (\<lambda>j.
                           put_cell (NUM_COLS * int i + int j) (chr CHR '' ''))
                           [0..<80]) [24..<25] s
                 in set_x t 0 (set_y t (NUM_ROWS - 1) s)
               else set_x t 0 (set_y t (screen_y s t + 1) s))
      in update_cursor (screen_y s t) (screen_x s t) s)"

text \<open>\<^verbatim>\<open>/\<close> and \<^verbatim>\<open>%\<close> of C truncate towards 0.\<close>

definition putc :: "u8 \<Rightarrow> 'a console_scheme \<Rightarrow> 'a console_scheme" where
  "putc c s0 =
     (let s = refresh_active s0; t = lib_active_terminal s;
          s = (if c = 10 \<or> c = 13 then new_line s
               else
                 let s = put_cell (NUM_COLS * screen_y s t + screen_x s t) c s;
                     s = set_x t (screen_x s t + 1) s;
                     s = (if screen_x s t = NUM_COLS then new_line s else s);
                     s = set_x t (screen_x s t smod NUM_COLS) s
                 in set_y t ((screen_y s t + screen_x s t sdiv NUM_COLS) smod NUM_ROWS) s)
      in update_cursor (screen_y s t) (screen_x s t) s)"

definition del_last_char :: "'a console_scheme \<Rightarrow> 'a console_scheme" where
  "del_last_char s0 =
     (let s = refresh_active s0; t = lib_active_terminal s;
          s = (if screen_x s t = 0 then set_y t (screen_y s t - 1) (set_x t (NUM_COLS - 1) s)
               else set_x t (screen_x s t - 1) s);
          s = put_cell (NUM_COLS * screen_y s t + screen_x s t) (chr CHR '' '') s
      in update_cursor (screen_y s t) (screen_x s t) s)"

text \<open>\<^verbatim>\<open>clear_screen\<close> works on the copy of the active terminal, which it does not refresh.\<close>

definition clear_screen :: "'a console_scheme \<Rightarrow> 'a console_scheme" where
  "clear_screen s =
     (let s = fold (\<lambda>i. put_cell (int i) (chr CHR '' '')) [0..<2000] s;
          t = lib_active_terminal s;
          s = set_y t 0 (set_x t 0 s)
      in update_cursor (screen_y s t) (screen_x s t) s)"

definition set_color :: "u32 \<Rightarrow> 'a console_scheme \<Rightarrow> 'a console_scheme" where
  "set_color color s = fold (\<lambda>i. poke (cell_addr (int i) + 1) (ucast color)) [0..<2000] s"

definition update_screen :: "u8 \<Rightarrow> u8 \<Rightarrow> 'a console_scheme \<Rightarrow> 'a console_scheme" where
  "update_screen dest src s =
     (let s = s\<lparr>mem := memcpy (mem s) (term_vid_mem (unat src)) VIDEO 0x1000\<rparr>;
          s = s\<lparr>mem := memcpy (mem s) VIDEO (term_vid_mem (unat dest)) 0x1000\<rparr>;
          s = (if dest = 0 then set_color 0x04 (s\<lparr>text_color := 0x04\<rparr>)
               else if dest = 1 then set_color 0x0A (s\<lparr>text_color := 0x0A\<rparr>)
               else if dest = 2 then set_color 0x0E (s\<lparr>text_color := 0x0E\<rparr>)
               else s)
      in update_cursor (screen_y s (unat dest)) (screen_x s (unat dest)) s)"

definition test_interrupts :: "'a console_scheme \<Rightarrow> 'a console_scheme" where
  "test_interrupts s =
     fold (\<lambda>i s. poke (cell_addr (int i)) (mem s (cell_addr (int i)) + 1) s) [0..<2000] s"

text \<open>\<^verbatim>\<open>puts\<close>; the string is read through a view and does not lie on the screen.\<close>

partial_function (option) puts_from ::
  "cview \<Rightarrow> nat \<Rightarrow> 'a console_scheme \<Rightarrow> (nat \<times> 'a console_scheme) option" where
  "puts_from v index s =
     (if v index \<noteq> 0 then puts_from v (Suc index) (putc (v index) s) else Some (index, s))"

definition puts :: "cview \<Rightarrow> 'a console_scheme \<Rightarrow> (nat \<times> 'a console_scheme) option" where
  "puts v s = puts_from v 0 s"

section \<open>The screen page as characters and attributes\<close>

definition cell_put :: "u8 \<Rightarrow> int \<Rightarrow> u8 \<Rightarrow> memory \<Rightarrow> memory" where
  "cell_put attr k c m = m(cell_addr k := c, cell_addr k + 1 := attr)"

definition char_at :: "memory \<Rightarrow> nat \<Rightarrow> u8" where
  "char_at m k = m (cell_addr (int k))"

definition attr_at :: "memory \<Rightarrow> nat \<Rightarrow> u8" where
  "attr_at m k = m (cell_addr (int k) + 1)"

text \<open>Bytes outside the 4000 bytes that are displayed.\<close>

definition off_screen_same :: "memory \<Rightarrow> memory \<Rightarrow> bool" where
  "off_screen_same m m' \<longleftrightarrow> (\<forall>a. a \<notin> rng VIDEO 4000 \<longrightarrow> m' a = m a)"

lemma off_screen_same_refl [simp]: "off_screen_same m m"
  by (simp add: off_screen_same_def)

lemma off_screen_same_trans [trans]:
  "off_screen_same m m' \<Longrightarrow> off_screen_same m' m'' \<Longrightarrow> off_screen_same m m''"
  by (auto simp: off_screen_same_def)

lemma cell_addr_nat: "cell_addr (int k) = VIDEO + of_nat (2 * k)"
  by (simp add: cell_addr_def)

lemma cell_addr_odd: "cell_addr (int k) + 1 = VIDEO + of_nat (2 * k + 1)"
  by (simp add: cell_addr_def)

lemma cell_addr_distinct [simp]:
  assumes "j < 2000" and "k < 2000"
  shows "cell_addr (int j) = cell_addr (int k) \<longleftrightarrow> j = k"
    and "cell_addr (int j) \<noteq> cell_addr (int k) + 1" "cell_addr (int k) + 1 \<noteq> cell_addr (int j)"
proof -
  have "2 * j \<noteq> 2 * k + 1" by presburger
  then have "VIDEO + of_nat (2 * j) \<noteq> VIDEO + of_nat (2 * k + 1)"
    using assms by (subst addr_eq_iff) simp_all
  then show "cell_addr (int j) \<noteq> cell_addr (int k) + 1" "cell_addr (int k) + 1 \<noteq> cell_addr (int j)"
    by (metis cell_addr_nat cell_addr_odd)+
  show "cell_addr (int j) = cell_addr (int k) \<longleftrightarrow> j = k"
    unfolding cell_addr_nat using assms by (subst addr_eq_iff) simp_all
qed

lemma char_at_cell_put [simp]:
  "j < 2000 \<Longrightarrow> k < 2000 \<Longrightarrow> char_at (cell_put a (int k) c m) j = (if j = k then c else char_at m j)"
  by (simp add: char_at_def cell_put_def)

lemma attr_at_cell_put [simp]:
  "j < 2000 \<Longrightarrow> k < 2000 \<Longrightarrow> attr_at (cell_put a (int k) c m) j = (if j = k then a else attr_at m j)"
  by (simp add: attr_at_def cell_put_def)

lemma off_screen_cell_put:
  assumes "off_screen_same m m'" and "k < 2000"
  shows "off_screen_same m (cell_put a (int k) c m')"
proof -
  have "cell_addr (int k) \<in> rng VIDEO 4000" "cell_addr (int k) + 1 \<in> rng VIDEO 4000"
    using assms(2) by (simp_all add: cell_addr_def VIDEO_def unat_word_ariths)
  with assms show ?thesis by (auto simp: off_screen_same_def cell_put_def simp del: in_rng)
qed

text \<open>The two loops over cells: filling with one character, and moving everything up a row.\<close>

lemma fill_cells:
  assumes "n \<le> 2000"
  shows "k < 2000 \<Longrightarrow> char_at (fold (\<lambda>i. cell_put a (int i) c) [0..<n] m) k = (if k < n then c else char_at m k)"
    and "k < 2000 \<Longrightarrow> attr_at (fold (\<lambda>i. cell_put a (int i) c) [0..<n] m) k = (if k < n then a else attr_at m k)"
    and "off_screen_same m (fold (\<lambda>i. cell_put a (int i) c) [0..<n] m)"
  using assms by (induction n) (auto intro: off_screen_cell_put)

lemma blank_row:
  assumes "n \<le> 80"
  shows "k < 2000 \<Longrightarrow> char_at (fold (\<lambda>j. cell_put a (int (1920 + j)) c) [0..<n] m) k
           = (if 1920 \<le> k \<and> k < 1920 + n then c else char_at m k)"
    and "k < 2000 \<Longrightarrow> attr_at (fold (\<lambda>j. cell_put a (int (1920 + j)) c) [0..<n] m) k
           = (if 1920 \<le> k \<and> k < 1920 + n then a else attr_at m k)"
    and "off_screen_same m (fold (\<lambda>j. cell_put a (int (1920 + j)) c) [0..<n] m)"
  using assms
  by (induction n) (auto intro: off_screen_cell_put simp del: of_nat_add)

lemma scroll_cells:
  assumes "n \<le> 1920"
  shows "k < 2000 \<Longrightarrow> char_at (fold (\<lambda>i m. cell_put a (int i) (char_at m (i + 80)) m) [0..<n] m) k
           = (if k < n then char_at m (k + 80) else char_at m k)"
    and "k < 2000 \<Longrightarrow> attr_at (fold (\<lambda>i m. cell_put a (int i) (char_at m (i + 80)) m) [0..<n] m) k
           = (if k < n then a else attr_at m k)"
    and "off_screen_same m (fold (\<lambda>i m. cell_put a (int i) (char_at m (i + 80)) m) [0..<n] m)"
proof -
  show "k < 2000 \<Longrightarrow> char_at (fold (\<lambda>i m. cell_put a (int i) (char_at m (i + 80)) m) [0..<n] m) k
           = (if k < n then char_at m (k + 80) else char_at m k)"
    using assms by (induction n arbitrary: k) auto
  show "k < 2000 \<Longrightarrow> attr_at (fold (\<lambda>i m. cell_put a (int i) (char_at m (i + 80)) m) [0..<n] m) k
           = (if k < n then a else attr_at m k)"
    using assms by (induction n) auto
  show "off_screen_same m (fold (\<lambda>i m. cell_put a (int i) (char_at m (i + 80)) m) [0..<n] m)"
    using assms by (induction n) (auto intro: off_screen_cell_put)
qed

section \<open>The effect of the drawing routines on the memory\<close>

lemma put_cell_mem: "put_cell k c s = s\<lparr>mem := cell_put (ucast (text_color s)) k c (mem s)\<rparr>"
  by (simp add: put_cell_def cell_put_def poke_def)

lemma fold_put_cell:
  "fold (\<lambda>i s. put_cell (g i) (h i (mem s)) s) is s =
     s\<lparr>mem := fold (\<lambda>i m. cell_put (ucast (text_color s)) (g i) (h i m) m) is (mem s)\<rparr>"
  by (induction "is" arbitrary: s) (simp_all add: put_cell_mem)

definition blank_screen :: "u8 \<Rightarrow> memory \<Rightarrow> memory" where
  "blank_screen a m = fold (\<lambda>i. cell_put a (int i) (chr CHR '' '')) [0..<2000] m"

definition scrolled :: "u8 \<Rightarrow> memory \<Rightarrow> memory" where
  "scrolled a m = fold (\<lambda>j. cell_put a (int (1920 + j)) (chr CHR '' '')) [0..<80]
     (fold (\<lambda>i m. cell_put a (int i) (char_at m (i + 80)) m) [0..<1920] m)"

lemma blank_screen_cells:
  "k < 2000 \<Longrightarrow> char_at (blank_screen a m) k = chr CHR '' ''"
  "k < 2000 \<Longrightarrow> attr_at (blank_screen a m) k = a"
  "off_screen_same m (blank_screen a m)"
  using fill_cells [where n = 2000] by (simp_all add: blank_screen_def)

lemma scrolled_cells:
  "k < 2000 \<Longrightarrow> char_at (scrolled a m) k = (if k < 1920 then char_at m (k + 80) else chr CHR '' '')"
  "k < 2000 \<Longrightarrow> attr_at (scrolled a m) k = a"
  "off_screen_same m (scrolled a m)"
proof -
  show "off_screen_same m (scrolled a m)"
    unfolding scrolled_def by (rule off_screen_same_trans [OF scroll_cells(3) blank_row(3)]) simp_all
qed (use scroll_cells [where n = 1920] blank_row [where n = 80] in \<open>auto simp: scrolled_def\<close>)

lemma clear_mem: "clear s = s\<lparr>mem := blank_screen (ucast (text_color s)) (mem s)\<rparr>"
  unfolding clear_def blank_screen_def
  by (rule fold_put_cell [where g = int and h = "\<lambda>_ _. chr CHR '' ''"])

lemma scroll_loops:
  "fold (\<lambda>i. fold (\<lambda>j. put_cell (NUM_COLS * int i + int j) (chr CHR '' '')) [0..<80]) [24..<25]
     (fold (\<lambda>i. fold (\<lambda>j s. put_cell (NUM_COLS * int i + int j)
        (mem s (cell_addr (NUM_COLS * (int i + 1) + int j))) s) [0..<80]) [0..<24] s)
   = s\<lparr>mem := scrolled (ucast (text_color s)) (mem s)\<rparr>"
proof -
  let ?a = "ucast (text_color s) :: u8"
  have "fold (\<lambda>i. fold (\<lambda>j s. put_cell (NUM_COLS * int i + int j)
        (mem s (cell_addr (NUM_COLS * (int i + 1) + int j))) s) [0..<80]) [0..<24] s =
      fold (\<lambda>k s. put_cell (int k) (char_at (mem s) (k + 80)) s) [0..<80 * 24] s"
    unfolding fold_nested [symmetric] char_at_def NUM_COLS_def
    by (simp add: algebra_simps)
  also have "\<dots> = s\<lparr>mem := fold (\<lambda>i m. cell_put ?a (int i) (char_at m (i + 80)) m) [0..<1920] (mem s)\<rparr>"
    unfolding fold_put_cell [where g = int and h = "\<lambda>k m. char_at m (k + 80)"] by simp
  finally have 1: "fold (\<lambda>i. fold (\<lambda>j s. put_cell (NUM_COLS * int i + int j)
        (mem s (cell_addr (NUM_COLS * (int i + 1) + int j))) s) [0..<80]) [0..<24] s = \<dots>" .
  have 2: "fold (\<lambda>i. fold (\<lambda>j. put_cell (NUM_COLS * int i + int j) (chr CHR '' '')) [0..<80]) [24..<25] s'
      = s'\<lparr>mem := fold (\<lambda>j. cell_put (ucast (text_color s')) (int (1920 + j)) (chr CHR '' '')) [0..<80] (mem s')\<rparr>"
    for s' :: "'a console_scheme"
  proof -
    have "[24..<25] = [24]" by (simp add: upt_rec)
    then show ?thesis
      using fold_put_cell [where g = "\<lambda>j. int (1920 + j)" and h = "\<lambda>_ _. chr CHR '' ''" and s = s']
      by (simp add: NUM_COLS_def del: upt.simps upt_rec_numeral)
  qed
  show ?thesis unfolding 1 2 by (simp add: scrolled_def)
qed


section \<open>The console as its user sees it\<close>

text \<open>
  The contract of the console: 2000 characters in reading order and a cursor. A printed
  character goes into the cursor's cell and the cursor moves on; at the end of a row, or
  at a newline, it goes to the start of the next row, and below the last row the page
  scrolls up.
\<close>

record tscreen =
  cells :: "u8 list"
  cur_x :: nat
  cur_y :: nat

definition spec_newline :: "tscreen \<Rightarrow> tscreen" where
  "spec_newline ts =
     (if cur_y ts = 24
      then ts\<lparr>cells := drop 80 (cells ts) @ replicate 80 (chr CHR '' ''), cur_x := 0\<rparr>
      else ts\<lparr>cur_x := 0, cur_y := cur_y ts + 1\<rparr>)"

definition spec_putc :: "u8 \<Rightarrow> tscreen \<Rightarrow> tscreen" where
  "spec_putc c ts =
     (if c = 10 \<or> c = 13 then spec_newline ts
      else let ts = ts\<lparr>cells := (cells ts)[80 * cur_y ts + cur_x ts := c]\<rparr>
           in if cur_x ts = 79 then spec_newline ts else ts\<lparr>cur_x := cur_x ts + 1\<rparr>)"

definition screen_cells :: "memory \<Rightarrow> u8 list" where
  "screen_cells m = map (char_at m) [0..<2000]"

definition abs_screen :: "'a console_scheme \<Rightarrow> tscreen" where
  "abs_screen s =
     (let t = unat (active_terminal s)
      in \<lparr>cells = screen_cells (mem s), cur_x = nat (screen_x s t), cur_y = nat (screen_y s t)\<rparr>)"

text \<open>The representation invariant: three terminals, each with its cursor on the page.\<close>

definition cursor_ok :: "'a console_scheme \<Rightarrow> bool" where
  "cursor_ok s \<longleftrightarrow> active_terminal s < 3 \<and>
     (\<forall>t<3. 0 \<le> screen_x s t \<and> screen_x s t < NUM_COLS \<and> 0 \<le> screen_y s t \<and> screen_y s t < NUM_ROWS)"

lemma screen_cells_length [simp]: "length (screen_cells m) = 2000"
  by (simp add: screen_cells_def)

lemma screen_cells_put [simp]:
  "k < 2000 \<Longrightarrow> screen_cells (cell_put a (int k) c m) = (screen_cells m)[k := c]"
  by (rule nth_equalityI) (auto simp: screen_cells_def nth_list_update)

lemma screen_cells_scrolled [simp]:
  "screen_cells (scrolled a m) = drop 80 (screen_cells m) @ replicate 80 (chr CHR '' '')"
  by (rule nth_equalityI) (auto simp: screen_cells_def scrolled_cells nth_append add.commute)

lemma screen_cells_blank [simp]:
  "screen_cells (blank_screen a m) = replicate 2000 (chr CHR '' '')"
  by (rule nth_equalityI) (auto simp: screen_cells_def blank_screen_cells)

section \<open>Closed forms of the operations\<close>

definition cursor_bytes :: "int \<Rightarrow> int \<Rightarrow> (u16 \<times> u8) list" where
  "cursor_bytes row col =
     (let p = of_int (row * NUM_COLS + col) :: u16
      in [(0x3D4, 15), (0x3D5, ucast p), (0x3D4, 14), (0x3D5, ucast (drop_bit 8 p))])"

lemma ucast_low_byte: "(ucast (x AND 0xFF) :: u8) = ucast (x :: u16)"
proof -
  have "x AND 0xFF = take_bit 8 x" by (simp add: take_bit_eq_mask mask_eq_exp_minus_1)
  then show ?thesis by (auto intro!: bit_word_eqI simp: bit_simps)
qed

lemma update_cursor_bytes:
  "update_cursor row col s = s\<lparr>port_out := port_out s @ cursor_bytes row col\<rparr>"
  by (simp add: update_cursor_def cursor_bytes_def outb_def ucast_low_byte Let_def)

lemma new_line_eq:
  fixes s :: "'a console_scheme"
  defines "t \<equiv> unat (active_terminal s)"
  defines "y \<equiv> (if screen_y s t = 24 then 24 else screen_y s t + 1)"
  shows "new_line s = s\<lparr>lib_active_terminal := t,
      mem := (if screen_y s t = 24 then scrolled (ucast (text_color s)) (mem s) else mem s),
      screen_x := (screen_x s)(t := 0), screen_y := (screen_y s)(t := y),
      port_out := port_out s @ cursor_bytes y 0\<rparr>"
  unfolding new_line_def Let_def scroll_loops
  by (simp add: refresh_active_def get_active_terminal_def set_x_def set_y_def
      update_cursor_bytes NUM_ROWS_def t_def y_def)


text \<open>The routines change the console's own fields and the port trace only.\<close>

definition console_step :: "'a console_scheme \<Rightarrow> 'a console_scheme \<Rightarrow> bool" where
  "console_step s s' \<longleftrightarrow>
     s' = s\<lparr>mem := mem s', screen_x := screen_x s', screen_y := screen_y s',
            lib_active_terminal := lib_active_terminal s', port_out := port_out s'\<rparr>
     \<and> off_screen_same (mem s) (mem s')"

lemma console_step_refl [simp]: "console_step s s"
  by (simp add: console_step_def)

lemma console_step_trans [trans]:
  assumes "console_step s s'" and "console_step s' s''"
  shows "console_step s s''"
proof -
  have "s'' = s'\<lparr>mem := mem s'', screen_x := screen_x s'', screen_y := screen_y s'',
            lib_active_terminal := lib_active_terminal s'', port_out := port_out s''\<rparr>"
    using assms(2) by (simp add: console_step_def)
  also have "\<dots> = s\<lparr>mem := mem s'', screen_x := screen_x s'', screen_y := screen_y s'',
            lib_active_terminal := lib_active_terminal s'', port_out := port_out s''\<rparr>"
    using assms(1) unfolding console_step_def by (cases s; cases s') simp
  finally show ?thesis
    using assms by (auto simp: console_step_def intro: off_screen_same_trans)
qed

lemma new_line_refines:
  assumes "cursor_ok s"
  shows "abs_screen (new_line s) = spec_newline (abs_screen s)"
  using assms
  by (auto simp: new_line_eq abs_screen_def spec_newline_def Let_def cursor_ok_def word_less_nat_alt
      NUM_ROWS_def)

lemma new_line_cursor_ok:
  assumes "cursor_ok s"
  shows "cursor_ok (new_line s)"
  using assms by (auto simp: new_line_eq cursor_ok_def NUM_ROWS_def NUM_COLS_def word_less_nat_alt)

lemma new_line_step: "console_step s (new_line s)"
  by (simp add: new_line_eq console_step_def scrolled_cells)

lemma smod_small: "0 \<le> a \<Longrightarrow> a < b \<Longrightarrow> a smod b = (a :: int)"
  by (simp add: smod_int_alt_def sgn_if)

lemma sdiv_small: "0 \<le> a \<Longrightarrow> a < b \<Longrightarrow> a sdiv b = (0 :: int)"
  by (simp add: signed_divide_int_def sgn_if)

text \<open>\<^verbatim>\<open>putc\<close> on its three branches, with the cursor on the page.\<close>

lemma putc_newline:
  assumes "c = 10 \<or> c = 13"
  shows "putc c s = update_cursor (screen_y (new_line s) (unat (active_terminal s))) 0 (new_line s)"
  using assms unfolding putc_def Let_def refresh_active_def get_active_terminal_def
  by (simp add: new_line_eq)

lemma cursor_bounds:
  assumes "cursor_ok s" and "t = unat (active_terminal s)"
  shows "t < 3" "0 \<le> screen_x s t" "screen_x s t < 80" "0 \<le> screen_y s t" "screen_y s t < 25"
  using assms by (simp_all add: cursor_ok_def NUM_COLS_def NUM_ROWS_def word_less_nat_alt)

lemma putc_inside:
  assumes "cursor_ok s" and "t = unat (active_terminal s)" and "c \<noteq> 10" "c \<noteq> 13" "screen_x s t \<noteq> 79"
  shows "putc c s = update_cursor (screen_y s t) (screen_x s t + 1)
    (set_x t (screen_x s t + 1) (put_cell (80 * screen_y s t + screen_x s t) c (s\<lparr>lib_active_terminal := t\<rparr>)))"
  using cursor_bounds [OF assms(1,2)] assms(3-)
  by (simp add: putc_def Let_def refresh_active_def get_active_terminal_def assms(2) [symmetric]
      NUM_COLS_def NUM_ROWS_def set_x_def set_y_def put_cell_mem smod_small sdiv_small)

lemma putc_edge:
  assumes "cursor_ok s" and "t = unat (active_terminal s)" and "c \<noteq> 10" "c \<noteq> 13" "screen_x s t = 79"
  shows "putc c s = (let s' = new_line (put_cell (80 * screen_y s t + 79) c s)
                     in update_cursor (screen_y s' t) 0 s')"
  using cursor_bounds [OF assms(1,2)] assms(3-)
  by (simp add: putc_def Let_def refresh_active_def get_active_terminal_def assms(2) [symmetric]
      NUM_COLS_def NUM_ROWS_def set_x_def set_y_def put_cell_mem new_line_eq smod_small sdiv_small
      update_cursor_bytes)

lemma update_cursor_simps [simp]:
  "abs_screen (update_cursor row col s) = abs_screen s"
  "cursor_ok (update_cursor row col s) = cursor_ok s"
  "console_step s (update_cursor row col s)"
  by (simp_all add: update_cursor_bytes abs_screen_def cursor_ok_def console_step_def)

text \<open>The cursor's cell, as an index into the page.\<close>

lemma put_cell_refines:
  assumes "cursor_ok s" and "t = unat (active_terminal s)"
  shows "abs_screen (put_cell (80 * screen_y s t + screen_x s t) c s)
       = (abs_screen s)\<lparr>cells := (cells (abs_screen s))[80 * cur_y (abs_screen s) + cur_x (abs_screen s) := c]\<rparr>"
    and "cursor_ok (put_cell (80 * screen_y s t + screen_x s t) c s)"
    and "console_step s (put_cell (80 * screen_y s t + screen_x s t) c s)"
proof -
  note b = cursor_bounds [OF assms]
  define k where "k = nat (80 * screen_y s t + screen_x s t)"
  have k: "80 * screen_y s t + screen_x s t = int k" and k2: "k < 2000"
    and k3: "k = 80 * nat (screen_y s t) + nat (screen_x s t)"
    using b by (simp_all add: k_def nat_add_distrib nat_mult_distrib)
  show "abs_screen (put_cell (80 * screen_y s t + screen_x s t) c s)
       = (abs_screen s)\<lparr>cells := (cells (abs_screen s))[80 * cur_y (abs_screen s) + cur_x (abs_screen s) := c]\<rparr>"
    unfolding k by (simp add: put_cell_mem abs_screen_def Let_def k2 k3 [symmetric] assms(2) [symmetric] del: of_nat_add)
  show "cursor_ok (put_cell (80 * screen_y s t + screen_x s t) c s)"
    using assms(1) by (simp add: put_cell_mem cursor_ok_def)
  show "console_step s (put_cell (80 * screen_y s t + screen_x s t) c s)"
    unfolding k by (simp add: put_cell_mem console_step_def off_screen_cell_put k2)
qed

lemma putc_all:
  assumes "cursor_ok s"
  shows "abs_screen (putc c s) = spec_putc c (abs_screen s) \<and> cursor_ok (putc c s) \<and> console_step s (putc c s)"
proof -
  define t where "t = unat (active_terminal s)"
  note b = cursor_bounds [OF assms t_def] and cell = put_cell_refines [OF assms t_def, of c]
  consider "c = 10 \<or> c = 13" | "c \<noteq> 10" "c \<noteq> 13" "screen_x s t = 79"
    | "c \<noteq> 10" "c \<noteq> 13" "screen_x s t \<noteq> 79" by blast
  then show ?thesis
  proof cases
    case 1
    then show ?thesis
      using new_line_refines [OF assms] new_line_cursor_ok [OF assms] new_line_step [of s]
      by (auto simp: putc_newline spec_putc_def intro: console_step_trans)
  next
    case 2
    let ?s = "put_cell (80 * screen_y s t + 79) c s"
    have "cur_x (abs_screen s) = 79" using 2 by (simp add: abs_screen_def t_def [symmetric] Let_def)
    then show ?thesis
      using cell 2 new_line_refines [of ?s] new_line_cursor_ok [of ?s] new_line_step [of ?s]
      by (auto simp: putc_edge [OF assms t_def] spec_putc_def Let_def intro: console_step_trans)
  next
    case 3
    let ?s = "put_cell (80 * screen_y s t + screen_x s t) c s"
    have "nat (screen_x s t) \<noteq> 79" using 3 b by linarith
    then show ?thesis
      using cell 3 b assms
      by (auto simp: putc_inside [OF assms t_def] spec_putc_def Let_def abs_screen_def t_def [symmetric]
          set_x_def put_cell_mem cursor_ok_def console_step_def nat_add_distrib update_cursor_bytes
          NUM_COLS_def NUM_ROWS_def)
  qed
qed


lemmas putc_refines = putc_all [THEN conjunct1]
lemmas putc_cursor_ok = putc_all [THEN conjunct2, THEN conjunct1]
lemmas putc_step = putc_all [THEN conjunct2, THEN conjunct2]

text \<open>Without the cursor on the page, only the frame is left of this.\<close>

definition console_frame :: "'a console_scheme \<Rightarrow> 'a console_scheme \<Rightarrow> bool" where
  "console_frame s s' \<longleftrightarrow>
     s' = s\<lparr>mem := mem s', screen_x := screen_x s', screen_y := screen_y s',
            lib_active_terminal := lib_active_terminal s', port_out := port_out s'\<rparr>"

lemma console_frameE:
  assumes "console_frame s s'"
  obtains m x y l p where "s' = s\<lparr>mem := m, screen_x := x, screen_y := y, lib_active_terminal := l, port_out := p\<rparr>"
  using assms unfolding console_frame_def by blast

lemma console_frame_refl [simp]: "console_frame s s"
  by (simp add: console_frame_def)

lemma console_frame_trans [trans]:
  assumes "console_frame s s'" and "console_frame s' s''"
  shows "console_frame s s''"
  using assms by (elim console_frameE) (simp add: console_frame_def)

lemma console_frame_steps:
  "console_frame s (new_line s)" "console_frame s (put_cell k c s)" "console_frame s (set_x t x s)"
  "console_frame s (set_y t y s)" "console_frame s (update_cursor row col s)" "console_frame s (refresh_active s)"
  by (simp_all add: console_frame_def new_line_eq put_cell_mem set_x_def set_y_def update_cursor_bytes refresh_active_def)

lemma putc_frame: "console_frame s (putc c s)"
  unfolding putc_def Let_def
  by (auto intro!: console_frame_trans [OF _ console_frame_steps(5)] console_frame_trans [OF _ console_frame_steps(4)]
      console_frame_trans [OF _ console_frame_steps(3)] console_frame_trans [OF _ console_frame_steps(1)]
      console_frame_trans [OF _ console_frame_steps(2)] console_frame_steps)

lemma putc_run_frame: "console_frame s (fold putc cs s)"
  by (induction cs arbitrary: s) (auto intro: console_frame_trans putc_frame)

section \<open>Sequences of characters\<close>

text \<open>From any state of the console, whatever is printed.\<close>

interpretation printing: event_machine
    "\<lambda>s c. putc c s" "\<lambda>s. cursor_ok s \<and> console_step s0 s" "\<lambda>_. True" for s0 :: "'a console_scheme"
  by unfold_locales (auto intro: putc_cursor_ok console_step_trans putc_step)

lemma putc_run:
  assumes "cursor_ok s"
  shows "cursor_ok (fold putc cs s)" and "console_step s (fold putc cs s)"
proof -
  have "run_events (\<lambda>s c. putc c s) s cs = fold putc cs s" for s :: "'a console_scheme"
    by (induction cs arbitrary: s) simp_all
  then show "cursor_ok (fold putc cs s)" and "console_step s (fold putc cs s)"
    using printing.run_inv [of s s cs] assms by (simp_all add: list_all_iff)
qed

lemma putc_run_refines:
  "cursor_ok s \<Longrightarrow> abs_screen (fold putc cs s) = fold spec_putc cs (abs_screen s)"
  by (induction cs arbitrary: s) (simp_all add: putc_refines putc_cursor_ok)

lemma puts_from_cstr:
  assumes "cstr v xs" and "i \<le> length xs"
  shows "puts_from v i s = Some (length xs, fold putc (drop i xs) s)"
  using assms(2)
proof (induction "length xs - i" arbitrary: i s)
  case 0
  then show ?case using cstr_end [OF assms(1)] by (subst puts_from.simps) simp
next
  case (Suc k)
  then have "i < length xs" by simp
  then show ?case
    using Suc cstr_nth [OF assms(1)] cstr_nonzero [OF assms(1)]
    by (subst puts_from.simps) (simp add: Cons_nth_drop_Suc [symmetric])
qed

lemma puts_cstr: "cstr v xs \<Longrightarrow> puts v s = Some (length xs, fold putc xs s)"
  by (simp add: puts_def puts_from_cstr)

section \<open>Erasing\<close>

definition spec_erase :: "tscreen \<Rightarrow> tscreen" where
  "spec_erase ts =
     (let ts = (if cur_x ts = 0 then ts\<lparr>cur_x := 79, cur_y := cur_y ts - 1\<rparr>
                else ts\<lparr>cur_x := cur_x ts - 1\<rparr>)
      in ts\<lparr>cells := (cells ts)[80 * cur_y ts + cur_x ts := chr CHR '' '']\<rparr>)"

lemma del_last_char_eq:
  fixes s :: "'a console_scheme"
  defines "t \<equiv> unat (active_terminal s)"
  defines "s' \<equiv> (if screen_x s t = 0 then s\<lparr>lib_active_terminal := t, screen_x := (screen_x s)(t := 79),
                      screen_y := (screen_y s)(t := screen_y s t - 1)\<rparr>
                   else s\<lparr>lib_active_terminal := t, screen_x := (screen_x s)(t := screen_x s t - 1)\<rparr>)"
  shows "del_last_char s = update_cursor (screen_y s' t) (screen_x s' t)
           (put_cell (80 * screen_y s' t + screen_x s' t) (chr CHR '' '') s')"
  by (simp add: del_last_char_def Let_def refresh_active_def get_active_terminal_def set_x_def set_y_def
      NUM_COLS_def put_cell_mem s'_def t_def)

lemma del_last_char_all:
  assumes "cursor_ok s" and "t = unat (active_terminal s)" and "screen_x s t \<noteq> 0 \<or> screen_y s t \<noteq> 0"
  shows "abs_screen (del_last_char s) = spec_erase (abs_screen s) \<and> cursor_ok (del_last_char s)
       \<and> console_step s (del_last_char s)"
proof -
  note b = cursor_bounds [OF assms(1,2)]
  define s' where "s' = (if screen_x s t = 0 then s\<lparr>lib_active_terminal := t, screen_x := (screen_x s)(t := 79),
                      screen_y := (screen_y s)(t := screen_y s t - 1)\<rparr>
                   else s\<lparr>lib_active_terminal := t, screen_x := (screen_x s)(t := screen_x s t - 1)\<rparr>)"
  have ok: "cursor_ok s'" and t: "t = unat (active_terminal s')" and "console_step s s'"
    using assms b by (auto simp: s'_def cursor_ok_def console_step_def NUM_COLS_def NUM_ROWS_def)
  have abs: "abs_screen s' = (let ts = abs_screen s in if cur_x ts = 0 then ts\<lparr>cur_x := 79, cur_y := cur_y ts - 1\<rparr>
                else ts\<lparr>cur_x := cur_x ts - 1\<rparr>)"
    using b by (auto simp: s'_def abs_screen_def assms(2) [symmetric] Let_def nat_diff_distrib)
  have "del_last_char s = update_cursor (screen_y s' t) (screen_x s' t)
           (put_cell (80 * screen_y s' t + screen_x s' t) (chr CHR '' '') s')"
    using del_last_char_eq [of s] by (simp add: s'_def assms(2))
  then show ?thesis
    using put_cell_refines [OF ok t, of "chr CHR '' ''"] \<open>console_step s s'\<close>
    by (auto simp: spec_erase_def abs Let_def intro: console_step_trans)
qed

lemma spec_erase_putc:
  assumes "length (cells ts) = 2000" and "cur_x ts < 80" "cur_y ts < 25" and "c \<noteq> 10" "c \<noteq> 13"
    and "cur_x ts \<noteq> 79 \<or> cur_y ts \<noteq> 24"
  shows "spec_erase (spec_putc c ts) = ts\<lparr>cells := (cells ts)[80 * cur_y ts + cur_x ts := chr CHR '' '']\<rparr>"
  using assms by (auto simp: spec_erase_def spec_putc_def spec_newline_def Let_def)

section \<open>Switching the page\<close>

lemma page_disjoint:
  assumes "t < 3"
  shows "rng (term_vid_mem t) 4096 \<inter> rng VIDEO 4096 = {}" and "rng VIDEO 4096 \<inter> rng (term_vid_mem t) 4096 = {}"
proof -
  have "t = 0 \<or> t = 1 \<or> t = 2" using assms by linarith
  then have "rng VIDEO 4096 \<inter> rng (term_vid_mem t) 4096 = {}"
    by (intro rng_disjoint) (auto simp: VIDEO_def term_vid_mem_def)
  then show "rng VIDEO 4096 \<inter> rng (term_vid_mem t) 4096 = {}"
    and "rng (term_vid_mem t) 4096 \<inter> rng VIDEO 4096 = {}" by blast+
qed

lemma pages_disjoint:
  assumes "t < 3" "t' < 3" "t \<noteq> t'"
  shows "rng (term_vid_mem t) 4096 \<inter> rng (term_vid_mem t') 4096 = {}"
proof -
  have "rng (term_vid_mem i) 4096 \<inter> rng (term_vid_mem j) 4096 = {}" if "i < j" "j < 3" for i j
  proof -
    have "i = 0 \<and> j = 1 \<or> i = 0 \<and> j = 2 \<or> i = 1 \<and> j = 2" using that by linarith
    then show ?thesis by (intro rng_disjoint) (auto simp: term_vid_mem_def)
  qed
  then show ?thesis using assms by (metis Int_commute linorder_neqE_nat)
qed


lemma set_color_eq: "set_color color s = s\<lparr>mem := fold (\<lambda>i m. m(cell_addr (int i) + 1 := ucast color)) [0..<2000] (mem s)\<rparr>"
proof -
  have "fold (\<lambda>i. poke (cell_addr (int i) + 1) (ucast color)) is s =
      s\<lparr>mem := fold (\<lambda>i m. m(cell_addr (int i) + 1 := ucast color)) is (mem s)\<rparr>" for "is"
    by (induction "is" arbitrary: s) (simp_all add: poke_def)
  then show ?thesis by (simp add: set_color_def)
qed

definition recoloured :: "u8 \<Rightarrow> nat \<Rightarrow> memory \<Rightarrow> memory" where
  "recoloured a n m = fold (\<lambda>i m. m(cell_addr (int i) + 1 := a)) [0..<n] m"

lemma recoloured_cells:
  assumes "n \<le> 2000"
  shows "k < 2000 \<Longrightarrow> char_at (recoloured a n m) k = char_at m k"
    and "k < 2000 \<Longrightarrow> attr_at (recoloured a n m) k = (if k < n then a else attr_at m k)"
    and "off_screen_same m (recoloured a n m)"
proof -
  show "k < 2000 \<Longrightarrow> char_at (recoloured a n m) k = char_at m k"
    using assms unfolding recoloured_def char_at_def by (induction n) auto
  show "k < 2000 \<Longrightarrow> attr_at (recoloured a n m) k = (if k < n then a else attr_at m k)"
    using assms unfolding recoloured_def attr_at_def by (induction n) auto
  have "cell_addr (int i) + 1 \<in> rng VIDEO 4000" if "i < 2000" for i
    using that by (simp add: cell_addr_def VIDEO_def unat_word_ariths)
  then show "off_screen_same m (recoloured a n m)"
    using assms unfolding recoloured_def by (induction n) (auto simp: off_screen_same_def simp del: in_rng)
qed

text \<open>The colour of each terminal.\<close>

definition term_color :: "u8 \<Rightarrow> u8" where
  "term_color t = (if t = 0 then 0x04 else if t = 1 then 0x0A else 0x0E)"

definition page_chars :: "memory \<Rightarrow> u32 \<Rightarrow> u8 list" where
  "page_chars m p = map (\<lambda>k. m (p + of_nat (2 * k))) [0..<2000]"

lemma screen_page_chars: "screen_cells m = page_chars m VIDEO"
  by (simp add: screen_cells_def page_chars_def char_at_def cell_addr_nat)

lemma page_chars_load:
  assumes "load_bytes m p 4096 = load_bytes m' p' 4096"
  shows "page_chars m p = page_chars m' p'"
  unfolding page_chars_def
proof (rule map_cong [OF refl])
  fix k assume "k \<in> set [0..<2000]"
  then have "2 * k < 4096" by simp
  then show "m (p + of_nat (2 * k)) = m' (p' + of_nat (2 * k))"
    using arg_cong [OF assms, of "\<lambda>xs. xs ! (2 * k)"] by (simp only: nth_load_bytes)
qed

text \<open>What a switch from terminal \<open>src\<close> to terminal \<open>dest\<close> leaves in memory.\<close>

definition switched :: "u8 \<Rightarrow> u8 \<Rightarrow> memory \<Rightarrow> memory" where
  "switched dest src m =
     (let m = store_bytes m (term_vid_mem (unat src)) (load_bytes m VIDEO 4096);
          m = store_bytes m VIDEO (load_bytes m (term_vid_mem (unat dest)) 4096)
      in recoloured (term_color dest) 2000 m)"

lemma terminal_cases: "(t :: u8) < 3 \<Longrightarrow> t = 0 \<or> t = 1 \<or> t = 2"
proof -
  assume "t < 3"
  then have "unat t = 0 \<or> unat t = 1 \<or> unat t = 2" by (simp add: word_less_nat_alt) linarith
  moreover have "unat (0 :: u8) = 0" "unat (1 :: u8) = 1" "unat (2 :: u8) = 2" by simp_all
  ultimately show ?thesis by (metis unsigned_word_eqI)
qed

lemma update_screen_eq:
  assumes "dest < 3" and "src < 3"
  shows "update_screen dest src s = s\<lparr>mem := switched dest src (mem s), text_color := ucast (term_color dest),
     port_out := port_out s @ cursor_bytes (screen_y s (unat dest)) (screen_x s (unat dest))\<rparr>"
proof -
  have u: "unat dest < 3" "unat src < 3" using assms by (simp_all add: word_less_nat_alt)
  note terminal_cases [OF assms(1)]
  then show ?thesis
    using u by (auto simp: update_screen_def Let_def memcpy_copies page_disjoint switched_def
        recoloured_def set_color_eq update_cursor_bytes term_color_def)
qed

lemma off_screen_load:
  assumes "off_screen_same m m'" and "rng p n \<inter> rng VIDEO 4096 = {}" and "n \<le> 4294967296"
  shows "load_bytes m' p n = load_bytes m p n"
proof (rule nth_equalityI)
  fix i assume "i < length (load_bytes m' p n)"
  then have "i < n" by simp
  then have "p + of_nat i \<in> rng p n" using assms(3) by (intro nth_in_rng)
  moreover have "rng VIDEO 4000 \<subseteq> rng VIDEO 4096" by (rule rng_mono) simp
  ultimately have "p + of_nat i \<notin> rng VIDEO 4000" using assms(2) by blast
  with \<open>i < n\<close> assms(1) show "load_bytes m' p n ! i = load_bytes m p n ! i"
    by (simp add: off_screen_same_def del: in_rng)
qed simp

lemma switched_pages:
  assumes "dest < 3" and "src < 3"
  shows "load_bytes (switched dest src m) (term_vid_mem (unat src)) 4096 = load_bytes m VIDEO 4096"
    and "dest \<noteq> src \<Longrightarrow> screen_cells (switched dest src m) = page_chars m (term_vid_mem (unat dest))"
    and "k < 2000 \<Longrightarrow> attr_at (switched dest src m) k = term_color dest"
    and "t < 3 \<Longrightarrow> t \<noteq> unat src \<Longrightarrow>
      load_bytes (switched dest src m) (term_vid_mem t) 4096 = load_bytes m (term_vid_mem t) 4096"
proof -
  have u: "unat dest < 3" "unat src < 3" using assms by (simp_all add: word_less_nat_alt)
  let ?m1 = "store_bytes m (term_vid_mem (unat src)) (load_bytes m VIDEO 4096)"
  let ?m2 = "store_bytes ?m1 VIDEO (load_bytes ?m1 (term_vid_mem (unat dest)) 4096)"
  have sw: "switched dest src m = recoloured (term_color dest) 2000 ?m2"
    by (simp add: switched_def Let_def)
  have off: "load_bytes (switched dest src m) (term_vid_mem t) 4096 = load_bytes ?m1 (term_vid_mem t) 4096"
    if "t < 3" for t
  proof -
    have "load_bytes (switched dest src m) (term_vid_mem t) 4096 = load_bytes ?m2 (term_vid_mem t) 4096"
      unfolding sw using page_disjoint(1) [OF that] recoloured_cells(3) [OF order_refl]
      by (intro off_screen_load) simp_all
    then show ?thesis using page_disjoint [OF that] by (simp add: load_bytes_outside)
  qed
  show "load_bytes (switched dest src m) (term_vid_mem (unat src)) 4096 = load_bytes m VIDEO 4096"
    by (simp add: off u load_store_bytes)
  show "load_bytes (switched dest src m) (term_vid_mem t) 4096 = load_bytes m (term_vid_mem t) 4096"
    if "t < 3" "t \<noteq> unat src" using that u pages_disjoint [of "unat src" t]
    by (simp add: off load_bytes_outside)
  show "k < 2000 \<Longrightarrow> attr_at (switched dest src m) k = term_color dest"
    by (simp add: sw recoloured_cells)
  assume "dest \<noteq> src"
  then have "unat dest \<noteq> unat src" by (metis unsigned_word_eqI)
  then have "load_bytes ?m2 VIDEO 4096 = load_bytes m (term_vid_mem (unat dest)) 4096"
    using u pages_disjoint [of "unat src" "unat dest"] by (simp add: load_store_bytes load_bytes_outside)
  then have "page_chars ?m2 VIDEO = page_chars m (term_vid_mem (unat dest))"
    by (rule page_chars_load)
  moreover have "screen_cells (switched dest src m) = screen_cells ?m2"
    unfolding sw screen_cells_def by (rule map_cong) (simp_all add: recoloured_cells)
  ultimately show "screen_cells (switched dest src m) = page_chars m (term_vid_mem (unat dest))"
    by (simp add: screen_page_chars)
qed

section \<open>Properties\<close>

definition demo_console :: console where
  "demo_console = \<lparr>mem = \<lambda>_. 0, port_in = \<lambda>_ _. 0, in_count = 0, port_out = [], int_flag = True,
     screen_x = \<lambda>_. 79, screen_y = \<lambda>_. 24, lib_active_terminal = 0, text_color = 7, lfsr = 1, lfsr_bit = 0,
     active_terminal = 0\<rparr>"

lemma demo_console_ok: "cursor_ok demo_console"
  by (simp add: cursor_ok_def demo_console_def NUM_COLS_def NUM_ROWS_def)

text \<open>C17: \<^verbatim>\<open>puts\<close> returns the length of the string and has the effect that the screen contract
  gives to its characters, one after the other, wrapping and scrolling included; the cursors
  stay on the page and no byte of memory outside the displayed page changes.\<close>

theorem puts_implements_screen:
  assumes "cursor_ok s" and "cstr v xs"
  shows "\<exists>s'. puts v s = Some (length xs, s') \<and> abs_screen s' = fold spec_putc xs (abs_screen s)
    \<and> cursor_ok s' \<and> console_step s s'"
  using puts_cstr [OF assms(2), of s] putc_run_refines [OF assms(1), of xs] putc_run [OF assms(1), of xs]
  by blast

theorem puts_implements_screen_witness:
  "\<exists>s'. puts (arr [65, 66, 0]) demo_console = Some (2, s') \<and>
     abs_screen s' = fold spec_putc [65, 66] (abs_screen demo_console)"
  using puts_implements_screen [OF demo_console_ok, of "arr [65, 66, 0]" "[65, 66]"] cstr_arr [of "[65, 66]" "[]"]
  by auto

lemma console_stepE:
  assumes "console_step s s'"
  obtains m x y l p where "s' = s\<lparr>mem := m, screen_x := x, screen_y := y, lib_active_terminal := l, port_out := p\<rparr>"
    and "off_screen_same (mem s) m"
  using assms unfolding console_step_def by blast

lemma console_step_active: "console_step s s' \<Longrightarrow> active_terminal s' = active_terminal s"
  by (elim console_stepE) simp

text \<open>Erasing right after typing a visible character takes the cursor back to where it was
  and blanks the cell, also when the character was the last one of its row.\<close>

theorem del_last_char_undoes_putc:
  assumes "cursor_ok s" and "c \<noteq> 10" "c \<noteq> 13"
    and "cur_x (abs_screen s) \<noteq> 79 \<or> cur_y (abs_screen s) \<noteq> 24"
  shows "abs_screen (del_last_char (putc c s)) =
    (abs_screen s)\<lparr>cells := (cells (abs_screen s))[80 * cur_y (abs_screen s) + cur_x (abs_screen s) := chr CHR '' '']\<rparr>"
proof -
  define t where "t = unat (active_terminal s)"
  let ?s = "putc c s"
  note b = cursor_bounds [OF assms(1) t_def]
  have abs: "length (cells (abs_screen s)) = 2000" "cur_x (abs_screen s) < 80" "cur_y (abs_screen s) < 25"
    using b by (simp_all add: abs_screen_def Let_def t_def [symmetric])
  have t: "t = unat (active_terminal ?s)"
    using console_step_active [OF putc_step [OF assms(1)]] by (simp add: t_def)
  have "cur_x (abs_screen ?s) \<noteq> 0 \<or> cur_y (abs_screen ?s) \<noteq> 0"
    using assms(2-) by (simp add: putc_refines [OF assms(1)] spec_putc_def spec_newline_def Let_def)
  then have "screen_x ?s t \<noteq> 0 \<or> screen_y ?s t \<noteq> 0"
    by (auto simp: abs_screen_def Let_def t [symmetric])
  then have "abs_screen (del_last_char ?s) = spec_erase (abs_screen ?s)"
    using del_last_char_all [OF putc_cursor_ok [OF assms(1)] t] by blast
  then show ?thesis
    using spec_erase_putc [OF abs assms(2-)] by (simp add: putc_refines [OF assms(1)])
qed

theorem del_last_char_undoes_putc_witness:
  "abs_screen (del_last_char (putc 65 (demo_console\<lparr>screen_y := \<lambda>_. 3\<rparr>))) =
     (abs_screen (demo_console\<lparr>screen_y := \<lambda>_. 3\<rparr>))\<lparr>cells := (screen_cells (\<lambda>_. 0))[319 := chr CHR '' '']\<rparr>"
proof -
  have "cursor_ok (demo_console\<lparr>screen_y := \<lambda>_. 3\<rparr>)"
    by (simp add: cursor_ok_def demo_console_def NUM_COLS_def NUM_ROWS_def)
  from del_last_char_undoes_putc [OF this, of 65] show ?thesis
    by (simp add: abs_screen_def demo_console_def Let_def)
qed



text \<open>\<^verbatim>\<open>clear_screen\<close> blanks the page, but homes the cursor of the terminal that the library
  last looked at: the active terminal's own cursor stays where it was if that is another one.\<close>

theorem clear_screen_homes_stale_terminal:
  shows "abs_screen (clear_screen s) =
    (if unat (active_terminal s) = lib_active_terminal s
     then \<lparr>cells = replicate 2000 (chr CHR '' ''), cur_x = 0, cur_y = 0\<rparr>
     else (abs_screen s)\<lparr>cells := replicate 2000 (chr CHR '' '')\<rparr>)"
proof -
  have "fold (\<lambda>i. put_cell (int i) (chr CHR '' '')) [0..<2000] s
      = s\<lparr>mem := blank_screen (ucast (text_color s)) (mem s)\<rparr>"
    using clear_mem [of s] by (simp add: clear_def)
  then show ?thesis
    by (simp add: clear_screen_def Let_def set_x_def set_y_def update_cursor_bytes abs_screen_def)
qed

section \<open>Where the code goes wrong\<close>

text \<open>Erasing at the home position moves the cursor above the page and writes before the video memory.\<close>

lemma del_last_char_at_home:
  assumes "screen_x s t = 0" "screen_y s t = 0" "t = unat (active_terminal s)"
  shows "screen_y (del_last_char s) t = -1" "mem (del_last_char s) (VIDEO - 2) = chr CHR '' ''"
  using assms
  by (simp_all add: del_last_char_eq put_cell_mem update_cursor_bytes cell_put_def cell_addr_def)

end
