(* ===== verification/CString.thy ===== *)
theory CString
  imports Prelude
begin

text \<open>
  The string routines of \<^verbatim>\<open>src/lib/lib.c\<close>: \<^verbatim>\<open>strlen\<close>, \<^verbatim>\<open>strncmp\<close>, \<^verbatim>\<open>strcpy\<close>, \<^verbatim>\<open>strncpy\<close>
  and \<^verbatim>\<open>strtok\<close>. A routine that may run off the end
  of an unterminated string returns an option, with \<^const>\<open>None\<close> for the run that
  never returns or leaves the destination object.
\<close>

section \<open>Destinations of a copy\<close>

text \<open>
  \<^verbatim>\<open>dest[i] = v\<close>, into a byte array that is a field of a structure or a local (a list,
  where an index past its end is a write outside the object) and into the flat memory.
\<close>

definition arr_put :: "nat \<Rightarrow> u8 \<Rightarrow> u8 list \<Rightarrow> u8 list option" where
  "arr_put i v xs = (if i < length xs then Some (xs[i := v]) else None)"

definition mem_put :: "u32 \<Rightarrow> nat \<Rightarrow> u8 \<Rightarrow> memory \<Rightarrow> memory option" where
  "mem_put p i v m = (if i < 4294967296 then Some (m(p + of_nat i := v)) else None)"

section \<open>strlen, strncmp\<close>

partial_function (option) strlen_from :: "cview \<Rightarrow> nat \<Rightarrow> nat option" where
  "strlen_from s len = (if s len \<noteq> 0 then strlen_from s (Suc len) else Some len)"

definition strlen :: "cview \<Rightarrow> nat option" where
  "strlen s = strlen_from s 0"

text \<open>\<^verbatim>\<open>int8_t\<close> is \<^verbatim>\<open>char\<close>, signed on the i386, so the bytes are compared as signed numbers.\<close>

function strncmp_from :: "cview \<Rightarrow> cview \<Rightarrow> nat \<Rightarrow> nat \<Rightarrow> int" where
  "strncmp_from s1 s2 n i =
     (if i < n then
        (if s1 i \<noteq> s2 i \<or> s1 i = 0 then sint (s1 i) - sint (s2 i)
         else strncmp_from s1 s2 n (Suc i))
      else 0)"
  by pat_completeness auto
termination
  by (relation "measure (\<lambda>(s1, s2, n, i). n - i)") auto

declare strncmp_from.simps [simp del]

definition strncmp :: "cview \<Rightarrow> cview \<Rightarrow> nat \<Rightarrow> int" where
  "strncmp s1 s2 n = strncmp_from s1 s2 n 0"

section \<open>strcpy, strncpy\<close>

partial_function (option) strcpy_from ::
  "(nat \<Rightarrow> u8 \<Rightarrow> 'd \<Rightarrow> 'd option) \<Rightarrow> cview \<Rightarrow> 'd \<Rightarrow> nat \<Rightarrow> 'd option" where
  "strcpy_from put src dest i =
     (if src i \<noteq> 0 then
        Option.bind (put i (src i) dest) (\<lambda>dest'. strcpy_from put src dest' (Suc i))
      else put i 0 dest)"

definition strcpy :: "(nat \<Rightarrow> u8 \<Rightarrow> 'd \<Rightarrow> 'd option) \<Rightarrow> 'd \<Rightarrow> cview \<Rightarrow> 'd option" where
  "strcpy put dest src = strcpy_from put src dest 0"

function strncpy_copy ::
  "(nat \<Rightarrow> u8 \<Rightarrow> 'd \<Rightarrow> 'd option) \<Rightarrow> cview \<Rightarrow> nat \<Rightarrow> 'd \<Rightarrow> nat \<Rightarrow> ('d \<times> nat) option" where
  "strncpy_copy put src n dest i =
     (if src i \<noteq> 0 \<and> i < n then
        Option.bind (put i (src i) dest) (\<lambda>dest'. strncpy_copy put src n dest' (Suc i))
      else Some (dest, i))"
  by pat_completeness auto
termination
  by (relation "measure (\<lambda>(put, src, n, dest, i). n - i)") auto

function strncpy_pad :: "(nat \<Rightarrow> u8 \<Rightarrow> 'd \<Rightarrow> 'd option) \<Rightarrow> nat \<Rightarrow> 'd \<Rightarrow> nat \<Rightarrow> 'd option" where
  "strncpy_pad put n dest i =
     (if i < n then Option.bind (put i 0 dest) (\<lambda>dest'. strncpy_pad put n dest' (Suc i))
      else Some dest)"
  by pat_completeness auto
termination
  by (relation "measure (\<lambda>(put, n, dest, i). n - i)") auto

declare strncpy_copy.simps [simp del] strncpy_pad.simps [simp del]

definition strncpy :: "(nat \<Rightarrow> u8 \<Rightarrow> 'd \<Rightarrow> 'd option) \<Rightarrow> 'd \<Rightarrow> cview \<Rightarrow> nat \<Rightarrow> 'd option" where
  "strncpy put dest src n =
     Option.bind (strncpy_copy put src n dest 0) (\<lambda>(dest', i). strncpy_pad put n dest' i)"

section \<open>strtok\<close>

text \<open>
  The result lies in the bytes of the literal \<^verbatim>\<open>"PLACEHOLDERPLACEHOLDERPLACEHOLDER"\<close>, which
  every call overwrites: \<open>buf\<close> is its contents before the call. The inner
  \<^const>\<open>None\<close> is the returned \<^verbatim>\<open>NULL\<close>; otherwise the result is the literal's new contents
  and the value left in the global \<^verbatim>\<open>index\<close>.
\<close>

definition strtok_output :: "u8 list" where
  "strtok_output = str ''PLACEHOLDERPLACEHOLDERPLACEHOLDER'' @ [0]"

function strtok_copy :: "cview \<Rightarrow> nat \<Rightarrow> u8 list \<Rightarrow> nat \<Rightarrow> (u8 list \<times> nat) option" where
  "strtok_copy input len buf i =
     (if i < len + 1 then
        (if input i = chr CHR '' '' \<or> input i = 10 \<or> input i = 0 then Some (buf, i)
         else Option.bind (arr_put i (input i) buf) (\<lambda>buf'. strtok_copy input len buf' (Suc i)))
      else Some (buf, i))"
  by pat_completeness auto
termination
  by (relation "measure (\<lambda>(input, len, buf, i). Suc len - i)") auto

declare strtok_copy.simps [simp del]

definition strtok :: "cview \<Rightarrow> u8 list \<Rightarrow> (u8 list \<times> nat) option option" where
  "strtok input buf =
     Option.bind (strlen input) (\<lambda>len.
       if len = 0 then Some None
       else if input 0 = chr CHR '' '' then Some None
       else Option.bind (strtok_copy input len buf 0) (\<lambda>(buf', i).
              map_option (\<lambda>buf''. Some (buf'', i)) (arr_put i 0 buf')))"

section \<open>Correctness of strlen and strncmp\<close>

lemma strlen_from_stop: "v k = 0 \<Longrightarrow> strlen_from v k = Some k"
  by (subst strlen_from.simps) simp

lemma strlen_from_step: "v k \<noteq> 0 \<Longrightarrow> strlen_from v k = strlen_from v (Suc k)"
  by (subst strlen_from.simps) simp

lemma strlen_from_cstr:
  assumes "cstr v s"
  shows "k \<le> length s \<Longrightarrow> strlen_from v k = Some (length s)"
proof (induction "length s - k" arbitrary: k)
  case 0
  then show ?case using assms cstr_end [of v s] strlen_from_stop [of v "length s"] by simp
next
  case (Suc d)
  then have "k < length s" and "strlen_from v (Suc k) = Some (length s)" by simp_all
  then show ?case using assms by (metis cstr_nonzero strlen_from_step)
qed

lemma strlen_cstr [simp]: "cstr v s \<Longrightarrow> strlen v = Some (length s)"
  by (simp add: strlen_def strlen_from_cstr)

lemma strlen_from_SomeD:
  assumes "strlen_from v k = Some n"
  shows "k \<le> n \<and> v n = 0 \<and> (\<forall>i. k \<le> i \<and> i < n \<longrightarrow> v i \<noteq> 0)"
proof (rule strlen_from.raw_induct
    [where P = "\<lambda>v k n. k \<le> n \<and> v n = 0 \<and> (\<forall>i. k \<le> i \<and> i < n \<longrightarrow> v i \<noteq> 0)", OF _ assms])
  fix f s len n
  assume IH: "\<And>s len n. f s len = Some n \<Longrightarrow>
      len \<le> n \<and> s n = 0 \<and> (\<forall>i. len \<le> i \<and> i < n \<longrightarrow> s i \<noteq> (0::u8))"
    and eq: "(if s len \<noteq> 0 then f s (Suc len) else Some len) = Some n"
  show "len \<le> n \<and> s n = 0 \<and> (\<forall>i. len \<le> i \<and> i < n \<longrightarrow> s i \<noteq> 0)"
  proof (cases "s len = 0")
    case True
    with eq show ?thesis by auto
  next
    case False
    with eq have "f s (Suc len) = Some n" by simp
    from IH [OF this] False show ?thesis
      by (metis Suc_leD le_antisym not_less_eq_eq)
  qed
qed

lemma strlen_SomeD: "strlen v = Some n \<Longrightarrow> cstr v (map v [0..<n])"
  using strlen_from_SomeD [of v 0 n] by (simp add: strlen_def cstr_def)

lemma strncmp_from_end: "n \<le> k \<Longrightarrow> strncmp_from v w n k = 0"
  by (subst strncmp_from.simps) simp

lemma strncmp_from_same:
  "k < n \<Longrightarrow> v k = w k \<Longrightarrow> v k \<noteq> 0 \<Longrightarrow> strncmp_from v w n k = strncmp_from v w n (Suc k)"
  by (subst strncmp_from.simps) simp

lemma strncmp_from_differ:
  "k < n \<Longrightarrow> v k \<noteq> w k \<or> v k = 0 \<Longrightarrow> strncmp_from v w n k = sint (v k) - sint (w k)"
  by (subst strncmp_from.simps) simp

lemma strncmp_from_cases:
  "k \<le> n \<Longrightarrow> \<exists>j. k \<le> j \<and> j \<le> n \<and> (\<forall>i. k \<le> i \<and> i < j \<longrightarrow> v i = w i \<and> v i \<noteq> 0) \<and>
     (if j = n then strncmp_from v w n k = 0
      else (v j \<noteq> w j \<or> v j = 0) \<and> strncmp_from v w n k = sint (v j) - sint (w j))"
proof (induction v w n k rule: strncmp_from.induct)
  case (1 v w n k)
  show ?case
  proof (cases "k < n \<and> v k = w k \<and> v k \<noteq> 0")
    case True
    with 1 obtain j where j: "Suc k \<le> j" "j \<le> n"
      "\<forall>i. Suc k \<le> i \<and> i < j \<longrightarrow> v i = w i \<and> v i \<noteq> 0"
      "if j = n then strncmp_from v w n (Suc k) = 0
       else (v j \<noteq> w j \<or> v j = 0) \<and> strncmp_from v w n (Suc k) = sint (v j) - sint (w j)"
      by auto
    have "strncmp_from v w n k = strncmp_from v w n (Suc k)"
      using True by (intro strncmp_from_same) auto
    moreover have "\<forall>i. k \<le> i \<and> i < j \<longrightarrow> v i = w i \<and> v i \<noteq> 0"
      using j True by (metis Suc_leI le_neq_implies_less)
    ultimately show ?thesis
      using j by (intro exI [of _ j]) auto
  next
    case False
    with "1.prems" show ?thesis
      using strncmp_from_end [of n k v w] strncmp_from_differ [of k n v w]
      by (intro exI [of _ k]) auto
  qed
qed

lemma strncmp_eq_0_iff:
  "strncmp v w n = 0 \<longleftrightarrow> (\<exists>j\<le>n. (\<forall>i<j. v i = w i) \<and> (j = n \<or> v j = 0 \<and> w j = 0))"
proof -
  obtain j where j: "j \<le> n" "\<forall>i<j. v i = w i \<and> v i \<noteq> 0"
    "if j = n then strncmp v w n = 0
     else (v j \<noteq> w j \<or> v j = 0) \<and> strncmp v w n = sint (v j) - sint (w j)"
    unfolding strncmp_def using strncmp_from_cases [of 0 n v w] by blast
  show ?thesis
  proof (cases "j = n")
    case True
    with j show ?thesis by auto
  next
    case False
    with j have r: "strncmp v w n = 0 \<longleftrightarrow> v j = w j" and s: "v j \<noteq> w j \<or> v j = 0" "j < n"
      by (auto simp: signed_word_eqI)
    show ?thesis
    proof (cases "v j = w j")
      case True
      with r s j show ?thesis by (metis less_imp_le)
    next
      case False
      have "\<not> (\<exists>k\<le>n. (\<forall>i<k. v i = w i) \<and> (k = n \<or> v k = 0 \<and> w k = 0))"
      proof
        assume "\<exists>k\<le>n. (\<forall>i<k. v i = w i) \<and> (k = n \<or> v k = 0 \<and> w k = 0)"
        then obtain k where k: "k \<le> n" "\<forall>i<k. v i = w i" "k = n \<or> v k = 0 \<and> w k = 0" by blast
        with False s have "k \<le> j" by (metis not_le)
        with k j s False show False by (metis le_neq_implies_less not_less_iff_gr_or_eq)
      qed
      with r False show ?thesis by simp
    qed
  qed
qed

text \<open>On two terminated strings: equal up to \<open>n\<close> characters.\<close>

lemma strncmp_cstr:
  assumes "cstr v s" and "cstr w t"
  shows "strncmp v w n = 0 \<longleftrightarrow> take n s = take n t"
proof -
  have v: "\<And>i. i < length s \<Longrightarrow> v i = s ! i \<and> v i \<noteq> 0" "v (length s) = 0"
    and w: "\<And>i. i < length t \<Longrightarrow> w i = t ! i \<and> w i \<noteq> 0" "w (length t) = 0"
    using assms by (auto simp: cstr_def)
  show ?thesis
  proof
    assume "strncmp v w n = 0"
    then obtain j where j: "j \<le> n" "\<forall>i<j. v i = w i" "j = n \<or> v j = 0 \<and> w j = 0"
      unfolding strncmp_eq_0_iff by blast
    consider "j = n" | "v j = 0" "w j = 0" using j by blast
    then show "take n s = take n t"
    proof cases
      case 1
      then have eq: "\<forall>i<n. v i = w i" using j by simp
      have "\<not> (length s < n \<and> length s < length t)" "\<not> (length t < n \<and> length t < length s)"
        using eq v w by metis+
      then have "min n (length s) = min n (length t)" by linarith
      then show ?thesis
        using eq v w by (intro nth_equalityI) (simp, metis length_take min_less_iff_conj nth_take)
    next
      case 2
      have le: "length s \<le> j" "length t \<le> j"
        using 2 v w by (metis not_less)+
      have "\<not> length s < length t" "\<not> length t < length s"
        using j v w le by (metis order_less_le_trans)+
      then have len: "length s = length t" by simp
      have "s = t"
      proof (rule nth_equalityI [OF len])
        fix i assume "i < length s"
        then show "s ! i = t ! i" using j v w le len by (metis order_less_le_trans)
      qed
      then show ?thesis by simp
    qed
  next
    assume t: "take n s = take n t"
    show "strncmp v w n = 0"
    proof (cases "n \<le> length s")
      case True
      with t have "n \<le> length t" by (metis length_take min.absorb2 min.cobounded1)
      with True t v w have "\<forall>i<n. v i = w i" by (metis nth_take order_less_le_trans)
      then show ?thesis unfolding strncmp_eq_0_iff by blast
    next
      case False
      with t have "s = t" by (metis length_take linorder_not_le min_def nat_le_linear take_all)
      with v w have "(\<forall>i<length s. v i = w i) \<and> v (length s) = 0 \<and> w (length s) = 0" by auto
      with False show ?thesis unfolding strncmp_eq_0_iff by (metis nat_le_linear)
    qed
  qed
qed

section \<open>Correctness of strcpy and strncpy\<close>

text \<open>
  What a copy routine relies on in its destination: a write below the capacity changes
  that byte only, a write past it is no write of the object at all.
\<close>

locale byte_dest =
  fixes put :: "nat \<Rightarrow> u8 \<Rightarrow> 'd \<Rightarrow> 'd option"
    and get :: "'d \<Rightarrow> nat \<Rightarrow> u8"
    and cap :: "'d \<Rightarrow> nat"
  assumes put_in: "i < cap d \<Longrightarrow> \<exists>d'. put i v d = Some d'"
    and put_out: "cap d \<le> i \<Longrightarrow> put i v d = None"
    and get_put: "put i v d = Some d' \<Longrightarrow> j < cap d \<Longrightarrow> get d' j = (if j = i then v else get d j)"
    and cap_put: "put i v d = Some d' \<Longrightarrow> cap d' = cap d"
begin

lemma strcpy_from_fits:
  assumes "cstr src s"
  shows "k \<le> length s \<Longrightarrow> length s < cap d \<Longrightarrow>
    \<exists>d'. strcpy_from put src d k = Some d' \<and> cap d' = cap d \<and>
      (\<forall>j<cap d. get d' j = (if k \<le> j \<and> j < length s then s ! j
                              else if j = length s then 0 else get d j))"
proof (induction "length s - k" arbitrary: k d)
  case 0
  then have k: "k = length s" by simp
  with "0.prems" obtain d' where d': "put k 0 d = Some d'" using put_in by blast
  moreover have "strcpy_from put src d k = put k 0 d"
    using assms k by (subst strcpy_from.simps) (simp add: cstr_end)
  ultimately show ?case
    using k cap_put [OF d'] get_put [OF d'] by auto
next
  case (Suc n)
  then have k: "k < length s" and n: "n = length s - Suc k" by simp_all
  with Suc.prems obtain d1 where d1: "put k (src k) d = Some d1"
    using put_in [of k d] by auto
  have cap1: "cap d1 = cap d" by (rule cap_put [OF d1])
  have step: "strcpy_from put src d k = strcpy_from put src d1 (Suc k)"
    using assms k d1 by (subst strcpy_from.simps) (simp add: cstr_nonzero)
  from Suc.hyps(1) [OF n, of d1] k Suc.prems cap1 obtain d' where d':
    "strcpy_from put src d1 (Suc k) = Some d'" "cap d' = cap d"
    "\<And>j. j < cap d \<Longrightarrow> get d' j = (if Suc k \<le> j \<and> j < length s then s ! j
        else if j = length s then 0 else get d1 j)" by auto
  have "get d' j = (if k \<le> j \<and> j < length s then s ! j
      else if j = length s then 0 else get d j)" if "j < cap d" for j
    using d'(3) [OF that] get_put [OF d1 that] k cstr_nth [OF assms k] by auto
  with d' step show ?case by auto
qed

lemma strcpy_fits:
  assumes "cstr src s" and "length s < cap d"
  obtains d' where "strcpy put d src = Some d'" and "cap d' = cap d"
    and "\<And>j. j < length s \<Longrightarrow> get d' j = s ! j" and "get d' (length s) = 0"
    and "\<And>j. length s < j \<Longrightarrow> j < cap d \<Longrightarrow> get d' j = get d j"
proof -
  from strcpy_from_fits [OF assms(1), of 0 d] assms(2) obtain d' where
    "strcpy_from put src d 0 = Some d'" "cap d' = cap d"
    "\<And>j. j < cap d \<Longrightarrow> get d' j = (if j < length s then s ! j
        else if j = length s then 0 else get d j)" by auto
  with assms(2) show ?thesis
    by (intro that [of d']) (simp_all add: strcpy_def)
qed

lemma strcpy_from_overflows:
  assumes "cstr src s"
  shows "k \<le> length s \<Longrightarrow> cap d \<le> length s \<Longrightarrow> strcpy_from put src d k = None"
proof (induction "length s - k" arbitrary: k d)
  case 0
  then show ?case
    using assms by (subst strcpy_from.simps) (simp add: cstr_end put_out)
next
  case (Suc n)
  then have k: "k < length s" and n: "n = length s - Suc k" by simp_all
  have "strcpy_from put src d1 (Suc k) = None" if "put k (src k) d = Some d1" for d1
    using Suc.hyps(1) [OF n, of d1] k Suc.prems cap_put [OF that] by simp
  then show ?case
    using assms k by (subst strcpy_from.simps) (cases "put k (src k) d", simp_all add: cstr_nonzero)
qed

lemma strcpy_overflows: "cstr src s \<Longrightarrow> cap d \<le> length s \<Longrightarrow> strcpy put d src = None"
  by (simp add: strcpy_def strcpy_from_overflows)

lemma strncpy_pad_zeros:
  "k \<le> n \<Longrightarrow> n \<le> cap d \<Longrightarrow> \<exists>d'. strncpy_pad put n d k = Some d' \<and> cap d' = cap d \<and>
     (\<forall>j<cap d. get d' j = (if k \<le> j \<and> j < n then 0 else get d j))"
proof (induction "n - k" arbitrary: k d)
  case 0
  then show ?case by (subst strncpy_pad.simps) auto
next
  case (Suc i)
  then have k: "k < n" and i: "i = n - Suc k" by simp_all
  with Suc.prems obtain d1 where d1: "put k 0 d = Some d1" using put_in [of k d] by auto
  have cap1: "cap d1 = cap d" by (rule cap_put [OF d1])
  have step: "strncpy_pad put n d k = strncpy_pad put n d1 (Suc k)"
    using k d1 by (subst strncpy_pad.simps) simp
  from Suc.hyps(1) [OF i, of d1] k Suc.prems cap1 obtain d' where d':
    "strncpy_pad put n d1 (Suc k) = Some d'" "cap d' = cap d"
    "\<And>j. j < cap d \<Longrightarrow> get d' j = (if Suc k \<le> j \<and> j < n then 0 else get d1 j)" by auto
  have "get d' j = (if k \<le> j \<and> j < n then 0 else get d j)" if "j < cap d" for j
    using d'(3) [OF that] get_put [OF d1 that] k by auto
  with d' step show ?case by auto
qed

lemma strncpy_copy_prefix:
  assumes "cstr src s"
  shows "k \<le> min n (length s) \<Longrightarrow> n \<le> cap d \<Longrightarrow>
    \<exists>d'. strncpy_copy put src n d k = Some (d', min n (length s)) \<and> cap d' = cap d \<and>
      (\<forall>j<cap d. get d' j = (if k \<le> j \<and> j < min n (length s) then s ! j else get d j))"
proof (induction "min n (length s) - k" arbitrary: k d)
  case 0
  then have "k = min n (length s)" by simp
  moreover then have "\<not> (src k \<noteq> 0 \<and> k < n)"
    using assms by (auto simp: cstr_end min_def)
  ultimately show ?case
    by (subst strncpy_copy.simps) auto
next
  case (Suc i)
  then have k: "k < n" "k < length s" and i: "i = min n (length s) - Suc k" by simp_all
  with Suc.prems obtain d1 where d1: "put k (src k) d = Some d1"
    using put_in [of k d] by auto
  have cap1: "cap d1 = cap d" by (rule cap_put [OF d1])
  have step: "strncpy_copy put src n d k = strncpy_copy put src n d1 (Suc k)"
    using assms k d1 by (subst strncpy_copy.simps) (simp add: cstr_nonzero)
  from Suc.hyps(1) [OF i, of d1] k Suc.prems cap1 obtain d' where d':
    "strncpy_copy put src n d1 (Suc k) = Some (d', min n (length s))" "cap d' = cap d"
    "\<And>j. j < cap d \<Longrightarrow> get d' j = (if Suc k \<le> j \<and> j < min n (length s) then s ! j else get d1 j)"
    by auto
  have "get d' j = (if k \<le> j \<and> j < min n (length s) then s ! j else get d j)" if "j < cap d" for j
    using d'(3) [OF that] get_put [OF d1 that] k cstr_nth [OF assms k(2)] by auto
  with d' step show ?case by auto
qed

text \<open>
  The contract of \<^verbatim>\<open>strncpy\<close>: the first \<open>n\<close> bytes of the destination are those of the
  string, padded with zeros, and there is no terminator when the string is longer.
\<close>

lemma strncpy_spec:
  assumes "cstr src s" and "n \<le> cap d"
  obtains d' where "strncpy put d src n = Some d'" and "cap d' = cap d"
    and "\<And>j. j < n \<Longrightarrow> get d' j = (if j < length s then s ! j else 0)"
    and "\<And>j. n \<le> j \<Longrightarrow> j < cap d \<Longrightarrow> get d' j = get d j"
proof -
  from strncpy_copy_prefix [OF assms(1), of 0 n d] assms(2) obtain d1 where d1:
    "strncpy_copy put src n d 0 = Some (d1, min n (length s))" "cap d1 = cap d"
    "\<And>j. j < cap d \<Longrightarrow> get d1 j = (if j < min n (length s) then s ! j else get d j)" by auto
  from strncpy_pad_zeros [of "min n (length s)" n d1] assms(2) d1(2) obtain d' where d':
    "strncpy_pad put n d1 (min n (length s)) = Some d'" "cap d' = cap d"
    "\<And>j. j < cap d \<Longrightarrow> get d' j = (if min n (length s) \<le> j \<and> j < n then 0 else get d1 j)" by auto
  show ?thesis
  proof (rule that)
    show "strncpy put d src n = Some d'"
      by (simp add: strncpy_def d1 d')
    show "cap d' = cap d" by (rule d')
    show "get d' j = (if j < length s then s ! j else 0)" if "j < n" for j
      using d'(3) [of j] d1(3) [of j] that assms(2) by auto
    show "get d' j = get d j" if "n \<le> j" "j < cap d" for j
      using d'(3) [of j] d1(3) [of j] that by auto
  qed
qed

end

interpretation array: byte_dest arr_put "(!)" length
  by unfold_locales (auto simp: arr_put_def split: if_splits)

interpretation ram: byte_dest "mem_put p" "\<lambda>m. view m p" "\<lambda>_. 4294967296" for p
  by unfold_locales (auto simp: mem_put_def view_def split: if_splits dest: of_nat_inj32)

section \<open>Correctness of strtok\<close>

text \<open>The first word of a command line: everything before a blank or a line feed.\<close>

definition first_word :: "u8 list \<Rightarrow> u8 list" where
  "first_word s = takeWhile (\<lambda>c. c \<noteq> chr CHR '' '' \<and> c \<noteq> 10) s"

lemma first_word_le: "length (first_word s) \<le> length s"
  by (simp add: first_word_def length_takeWhile_le)

lemma first_word_nth: "i < length (first_word s) \<Longrightarrow> first_word s ! i = s ! i"
  by (simp add: first_word_def takeWhile_nth)

lemma first_word_inside: "i < length (first_word s) \<Longrightarrow> s ! i \<noteq> chr CHR '' '' \<and> s ! i \<noteq> 10"
  using nth_mem [of i "first_word s"] first_word_nth [of i s] set_takeWhileD
  unfolding first_word_def by force

lemma first_word_stops:
  assumes "cstr v s"
  shows "v (length (first_word s)) \<in> {chr CHR '' '', 10, 0}"
proof (cases "length (first_word s) < length s")
  case True
  with assms nth_length_takeWhile [OF True [unfolded first_word_def]] show ?thesis
    by (auto simp: cstr_nth first_word_def)
next
  case False
  with first_word_le [of s] have "length (first_word s) = length s" by simp
  with assms show ?thesis by (simp add: cstr_end)
qed

lemma strtok_copy_word:
  assumes "cstr v s"
  shows "k \<le> length (first_word s) \<Longrightarrow> length (first_word s) \<le> length buf \<Longrightarrow>
    take k buf = take k s \<Longrightarrow>
    strtok_copy v (length s) buf k =
      Some (first_word s @ drop (length (first_word s)) buf, length (first_word s))"
proof (induction "length (first_word s) - k" arbitrary: k buf)
  case 0
  then have k: "k = length (first_word s)" by simp
  have "first_word s = take (length (first_word s)) s"
    unfolding first_word_def by (rule takeWhile_eq_take)
  then have "first_word s = take k buf" using "0.prems"(3) k by simp
  then have buf: "first_word s @ drop k buf = buf" by (metis append_take_drop_id)
  have stop: "v k = chr CHR '' '' \<or> v k = 10 \<or> v k = 0" using first_word_stops [OF assms] k by blast
  have "k < length s + 1" using first_word_le [of s] k by simp
  with stop have "strtok_copy v (length s) buf k = Some (buf, k)"
    by (subst strtok_copy.simps) (simp only: if_True)
  with buf k show ?case by simp
next
  case (Suc n)
  then have k: "k < length (first_word s)" by simp
  then have ks: "k < length s" using first_word_le [of s] by simp
  have vk: "v k = s ! k" "s ! k \<noteq> 0" "s ! k \<noteq> chr CHR '' ''" "s ! k \<noteq> 10"
    using assms ks k first_word_inside [OF k] by (auto simp: cstr_def)
  have kb: "k < length buf" using k Suc.prems by simp
  have "take (Suc k) (buf[k := s ! k]) = take (Suc k) s"
    using Suc.prems ks kb by (simp add: take_Suc_conv_app_nth)
  then have "strtok_copy v (length s) (buf[k := s ! k]) (Suc k) =
      Some (first_word s @ drop (length (first_word s)) (buf[k := s ! k]), length (first_word s))"
    using Suc k by (intro Suc.hyps(1)) simp_all
  with k kb ks vk show ?case
    by (subst strtok_copy.simps) (simp add: arr_put_def)
qed

lemma strtok_first_word:
  assumes "cstr v s" and "s \<noteq> []" and "hd s \<noteq> chr CHR '' ''"
    and "length (first_word s) < length buf"
  shows "strtok v buf = Some (Some (first_word s @ 0 # drop (Suc (length (first_word s))) buf,
    length (first_word s)))"
proof -
  let ?n = "length (first_word s)"
  have "v 0 \<noteq> chr CHR '' ''"
    using assms(1-3) by (cases s) (auto simp: cstr_def)
  moreover have "strtok_copy v (length s) buf 0 = Some (first_word s @ drop ?n buf, ?n)"
    using assms by (intro strtok_copy_word) simp_all
  moreover have "(first_word s @ drop ?n buf)[?n := 0] = first_word s @ 0 # drop (Suc ?n) buf"
    using assms(4) by (simp add: list_update_append Cons_nth_drop_Suc [symmetric])
  ultimately show ?thesis
    using assms by (simp add: strtok_def arr_put_def)
qed

section \<open>Properties\<close>

text \<open>\<^verbatim>\<open>strncmp\<close> of two strings is 0 exactly when they agree on their first \<open>n\<close> characters,
  the end of the string counting as a character.\<close>

theorem strncmp_decides_prefix_equality:
  assumes "cstr v s" and "cstr w t"
  shows "strncmp v w n = 0 \<longleftrightarrow> take n s = take n t"
  by (rule strncmp_cstr [OF assms])

theorem strncmp_decides_prefix_equality_witness:
  "strncmp (arr [1, 2, 3, 0]) (arr [1, 2, 4, 0]) 2 = 0 \<and> strncmp (arr [1, 2, 3, 0]) (arr [1, 2, 4, 0]) 3 \<noteq> 0"
  using strncmp_decides_prefix_equality [of "arr [1, 2, 3, 0]" "[1, 2, 3]" "arr [1, 2, 4, 0]" "[1, 2, 4]"]
    cstr_arr [of "[1, 2, 3]" "[]"] cstr_arr [of "[1, 2, 4]" "[]"]
  by simp

lemma strcpy_arr:
  assumes "cstr src s"
  shows "strcpy arr_put xs src =
    (if length s < length xs then Some (s @ 0 # drop (Suc (length s)) xs) else None)"
proof (cases "length s < length xs")
  case True
  obtain d' where d: "strcpy arr_put xs src = Some d'" "length d' = length xs"
    "\<And>j. j < length s \<Longrightarrow> d' ! j = s ! j" "d' ! length s = 0"
    "\<And>j. length s < j \<Longrightarrow> j < length xs \<Longrightarrow> d' ! j = xs ! j"
    by (rule array.strcpy_fits [OF assms True]) blast
  have "d' = s @ 0 # drop (Suc (length s)) xs"
  proof (rule nth_equalityI)
    fix j assume "j < length d'"
    then show "d' ! j = (s @ 0 # drop (Suc (length s)) xs) ! j"
      using d(2-5) by (cases "j < length s"; cases "j = length s") (auto simp: nth_append nth_Cons')
  qed (use d(2) True in simp)
  with d(1) True show ?thesis by simp
qed (simp add: array.strcpy_overflows [OF assms])

text \<open>C39: \<^verbatim>\<open>strcpy\<close> into an array that has room for the string and its terminator replaces exactly
  these bytes; into a smaller one it writes past the end of the array.\<close>

theorem strcpy_fits_or_overflows:
  assumes "cstr src s"
  shows "strcpy arr_put xs src =
    (if length s < length xs then Some (s @ 0 # drop (Suc (length s)) xs) else None)"
  by (rule strcpy_arr [OF assms])

theorem strcpy_fits_or_overflows_witness:
  "strcpy arr_put [9, 9, 9, 9] (arr [1, 2, 0]) = Some [1, 2, 0, 9] \<and> strcpy arr_put [9, 9] (arr [1, 2, 0]) = None"
  using strcpy_fits_or_overflows [of "arr [1, 2, 0]" "[1, 2]"] cstr_arr [of "[1, 2]" "[]"] by simp

text \<open>\<^verbatim>\<open>strncpy\<close> writes exactly \<open>n\<close> bytes, the string cut off or padded with zeros: a string of
  \<open>n\<close> or more characters is left without a terminator.\<close>

theorem strncpy_writes_n_bytes:
  assumes "cstr src s" and "n \<le> length xs"
  shows "strncpy arr_put xs src n = Some (take n s @ replicate (n - length s) 0 @ drop n xs)"
proof -
  obtain d' where d: "strncpy arr_put xs src n = Some d'" "length d' = length xs"
    "\<And>j. j < n \<Longrightarrow> d' ! j = (if j < length s then s ! j else 0)"
    "\<And>j. n \<le> j \<Longrightarrow> j < length xs \<Longrightarrow> d' ! j = xs ! j"
    by (rule array.strncpy_spec [OF assms]) blast
  have "d' = take n s @ replicate (n - length s) 0 @ drop n xs"
  proof (rule nth_equalityI)
    fix j assume "j < length d'"
    then show "d' ! j = (take n s @ replicate (n - length s) 0 @ drop n xs) ! j"
      using d(2-4) assms(2) by (cases "j < n"; cases "j < length s") (auto simp: nth_append min_def)
  qed (use d(2) assms(2) in auto)
  with d(1) show ?thesis by simp
qed

theorem strncpy_writes_n_bytes_witness:
  "strncpy arr_put [9, 9, 9, 9] (arr [1, 2, 0]) 3 = Some [1, 2, 0, 9] \<and>
   strncpy arr_put [9, 9, 9, 9] (arr [1, 2, 0]) 2 = Some [1, 2, 9, 9]"
  using strncpy_writes_n_bytes [of "arr [1, 2, 0]" "[1, 2]"] cstr_arr [of "[1, 2]" "[]"] by simp

text \<open>\<^verbatim>\<open>strtok\<close> of a command line that does not start with a blank gives its first word,
  terminated, in the static buffer, when the word is shorter than the 33-character literal.\<close>

theorem strtok_gives_first_word:
  assumes "cstr v s" and "s \<noteq> []" and "hd s \<noteq> chr CHR '' ''" and "length (first_word s) < length buf"
  shows "\<exists>rest. strtok v buf = Some (Some (first_word s @ 0 # rest, length (first_word s)))
    \<and> length (first_word s @ 0 # rest) = length buf"
  using strtok_first_word [OF assms] assms(4) by simp

theorem strtok_gives_first_word_witness:
  "\<exists>rest. strtok (lit ''ls -a'') strtok_output = Some (Some (str ''ls'' @ 0 # rest, 2))"
proof -
  have w: "first_word (str ''ls -a'') = str ''ls''" and n: "(0 :: u8) \<notin> set (str ''ls -a'')"
    and h: "str ''ls -a'' \<noteq> []" "hd (str ''ls -a'') \<noteq> chr CHR '' ''"
    by code_simp+
  have "cstr (lit ''ls -a'') (str ''ls -a'')" using cstr_arr [OF n, of "[]"] by (simp add: lit_def)
  from strtok_gives_first_word [OF this h, of strtok_output] show ?thesis
    by (auto simp: w strtok_output_def)
qed

end
