(* ===== verification/Itoa.thy ===== *)
theory Itoa
  imports CString
begin

text \<open>
  \<^verbatim>\<open>strrev\<close> and \<^verbatim>\<open>itoa\<close> of \<^verbatim>\<open>src/lib/lib.c\<close>, both working in place on a buffer of the
  flat memory, and the number text they are shown to produce.
\<close>

section \<open>strrev, itoa\<close>

function strrev_swap :: "memory \<Rightarrow> u32 \<Rightarrow> int \<Rightarrow> int \<Rightarrow> memory" where
  "strrev_swap m s beg end =
     (if beg < end then
        (let tmp = m (s + of_int end);
             m1 = m(s + of_int end := m (s + of_int beg));
             m2 = m1(s + of_int beg := tmp)
         in strrev_swap m2 s (beg + 1) (end - 1))
      else m)"
  by pat_completeness auto
termination
  by (relation "measure (\<lambda>(m, s, beg, end). nat (end - beg))") auto

declare strrev_swap.simps [simp del]

definition strrev :: "memory \<Rightarrow> u32 \<Rightarrow> memory option" where
  "strrev m s = map_option (\<lambda>n. strrev_swap m s 0 (int n - 1)) (strlen (view m s))"

text \<open>
  A radix of 0 is a division trap and a digit past the table is a read outside it
  (\<^const>\<open>None\<close>); a radix of 1 never gets to 0.
\<close>

definition itoa_lookup :: "u8 list" where
  "itoa_lookup = str ''0123456789ABCDEFGHIJKLMNOPQRSTUVWXYZ'' @ [0]"

partial_function (option) itoa_digits ::
  "memory \<Rightarrow> u32 \<Rightarrow> u32 \<Rightarrow> u32 \<Rightarrow> (memory \<times> u32) option" where
  "itoa_digits m newbuf newval radix =
     (if newval > 0 then
        (if radix = 0 \<or> \<not> unat (newval mod radix) < length itoa_lookup then None
         else itoa_digits (m(newbuf := itoa_lookup ! unat (newval mod radix))) (newbuf + 1)
                (newval div radix) radix)
      else Some (m, newbuf))"

definition itoa :: "memory \<Rightarrow> u32 \<Rightarrow> u32 \<Rightarrow> u32 \<Rightarrow> memory option" where
  "itoa m value buf radix =
     (if value = 0 then Some (m(buf := chr CHR ''0'', buf + 1 := 0))
      else Option.bind (itoa_digits m buf value radix) (\<lambda>(m', newbuf).
             strrev (m'(newbuf := 0)) buf))"

section \<open>Correctness of strrev and itoa\<close>

lemma strrev_swap_reads:
  "0 \<le> beg \<Longrightarrow> end < 4294967296 \<Longrightarrow> 0 \<le> i \<Longrightarrow> i < 4294967296 \<Longrightarrow>
     strrev_swap m s beg end (s + of_int i) =
       (if beg \<le> i \<and> i \<le> end then m (s + of_int (beg + end - i)) else m (s + of_int i))"
proof (induction m s beg "end" arbitrary: i rule: strrev_swap.induct)
  case (1 m s beg "end")
  show ?case
  proof (cases "beg < end")
    case True
    define m2 where "m2 = m(s + of_int end := m (s + of_int beg), s + of_int beg := m (s + of_int end))"
    have step: "strrev_swap m s beg end = strrev_swap m2 s (beg + 1) (end - 1)"
      using True by (subst strrev_swap.simps) (simp add: Let_def m2_def)
    have m2: "m2 (s + of_int j) = (if j = beg then m (s + of_int end)
        else if j = end then m (s + of_int beg) else m (s + of_int j))"
      if "0 \<le> j" "j < 4294967296" for j
      using that True "1.prems" by (auto simp: m2_def dest!: of_int_inj32)
    have IH: "strrev_swap m2 s (beg + 1) (end - 1) (s + of_int i) =
        (if beg + 1 \<le> i \<and> i \<le> end - 1 then m2 (s + of_int (beg + 1 + (end - 1) - i))
         else m2 (s + of_int i))"
      using "1.prems" True by (intro "1.IH" [OF True refl refl, folded m2_def]) auto
    show ?thesis
    proof (cases "beg + 1 \<le> i \<and> i \<le> end - 1")
      case True
      have e: "beg + 1 + (end - 1) - i = beg + end - i" by simp
      show ?thesis using True "1.prems" unfolding step IH e by (subst m2) auto
    next
      case False
      then show ?thesis using "1.prems" True unfolding step IH by (subst m2) auto
    qed
  next
    case False
    then have stop: "strrev_swap m s beg end = m" by (subst strrev_swap.simps) simp
    show ?thesis
    proof (cases "beg \<le> i \<and> i \<le> end")
      case True
      with False have "beg + end - i = i" by linarith
      with True show ?thesis by (simp only: stop if_True simp_thms)
    qed (simp only: stop if_False)
  qed
qed

lemma strrev_reverses:
  assumes "cstr (view m s) xs" and "length xs < 4294967296"
  shows "strrev m s = Some (store_bytes m s (rev xs))"
proof -
  have x: "view m s i = xs ! i" if "i < length xs" for i
    using assms(1) that by (simp add: cstr_nth)
  have "strrev_swap m s 0 (int (length xs) - 1) = store_bytes m s (rev xs)"
  proof
    fix a
    define i where "i = unat (a - s)"
    have i: "i < 4294967296" by (simp add: i_def unat_lt32)
    have a: "a = s + of_int (int i)" by (simp add: i_def)
    have "strrev_swap m s 0 (int (length xs) - 1) a =
        (if i < length xs then m (s + of_int (int (length xs) - 1 - int i)) else m a)"
      unfolding a using i assms(2) by (subst strrev_swap_reads) auto
    also have "\<dots> = (if i < length xs then rev xs ! i else m a)"
    proof -
      have "m (s + of_int (int (length xs) - 1 - int i)) = rev xs ! i" if "i < length xs"
      proof -
        have e: "int (length xs) - 1 - int i = int (length xs - Suc i)" using that by simp
        show ?thesis
          unfolding e using x [of "length xs - Suc i"] that by (simp add: rev_nth view_def)
      qed
      then show ?thesis by simp
    qed
    also have "\<dots> = store_bytes m s (rev xs) a"
      using assms(2) by (subst store_bytes_apply) (auto simp: i_def)
    finally show "strrev_swap m s 0 (int (length xs) - 1) a = store_bytes m s (rev xs) a" .
  qed
  with assms(1) show ?thesis by (simp add: strrev_def)
qed

lemma view_store_bytes:
  "length bs \<le> 4294967296 \<Longrightarrow> i < length bs \<Longrightarrow> view (store_bytes m p bs) p i = bs ! i"
  by (simp add: view_def store_bytes_nth)

lemma cstr_store_bytes:
  assumes "0 \<notin> set s" and "length s < 4294967296"
  shows "cstr (view (store_bytes m p (s @ [0])) p) s"
proof -
  have "view (store_bytes m p (s @ [0])) p i = (s @ [0]) ! i" if "i \<le> length s" for i
    using assms(2) that by (intro view_store_bytes) auto
  with assms(1) show ?thesis
    by (auto simp: cstr_def nth_append in_set_conv_nth)
qed

text \<open>
  The digits of a number, least significant first, as the loop produces them, and the
  value a digit string denotes, most significant first.
\<close>

fun digits_lsb :: "nat \<Rightarrow> nat \<Rightarrow> nat list" where
  "digits_lsb r v = (if v = 0 \<or> r < 2 then [] else (v mod r) # digits_lsb r (v div r))"

declare digits_lsb.simps [simp del]

definition digit_char :: "nat \<Rightarrow> u8" where
  "digit_char d = itoa_lookup ! d"

fun digits_value :: "nat \<Rightarrow> nat list \<Rightarrow> nat" where
  "digits_value r [] = 0"
| "digits_value r (d # ds) = d * r ^ length ds + digits_value r ds"

definition number_text :: "nat \<Rightarrow> nat \<Rightarrow> u8 list" where
  "number_text r v = (if v = 0 then [digit_char 0] else map digit_char (rev (digits_lsb r v)))"

lemma digits_value_append:
  "digits_value r (xs @ ys) = digits_value r xs * r ^ length ys + digits_value r ys"
  by (induction xs) (simp_all add: algebra_simps power_add)

lemma digits_lsb_value: "2 \<le> r \<Longrightarrow> digits_value r (rev (digits_lsb r v)) = v"
proof (induction r v rule: digits_lsb.induct)
  case (1 r v)
  show ?case
  proof (cases "v = 0")
    case False
    with 1 show ?thesis
      by (subst digits_lsb.simps) (simp add: digits_value_append)
  qed (simp add: digits_lsb.simps)
qed

lemma digits_lsb_less: "d \<in> set (digits_lsb r v) \<Longrightarrow> d < r"
proof (induction r v rule: digits_lsb.induct)
  case (1 r v)
  then show ?case
    by (cases "v = 0 \<or> r < 2") (auto simp: digits_lsb.simps [of r v])
qed

lemma digits_lsb_length_base: "2 \<le> r \<Longrightarrow> v < r ^ k \<Longrightarrow> length (digits_lsb r v) \<le> k"
proof (induction r v arbitrary: k rule: digits_lsb.induct)
  case (1 r v)
  show ?case
  proof (cases "v = 0")
    case False
    with "1.prems" obtain k' where k': "k = Suc k'" by (cases k) auto
    have "v div r < r ^ k'" using "1.prems" k' by (simp add: less_mult_imp_div_less mult.commute)
    then have "length (digits_lsb r (v div r)) \<le> k'"
      using "1.IH" False "1.prems" by simp
    with False k' "1.prems" show ?thesis by (simp add: digits_lsb.simps [of r v])
  qed (simp add: digits_lsb.simps)
qed

lemma digits_lsb_length: "2 \<le> r \<Longrightarrow> v < 2 ^ k \<Longrightarrow> length (digits_lsb r v) \<le> k"
  using power_mono [of 2 r k] by (intro digits_lsb_length_base) auto

lemma digits_lsb_last: "2 \<le> r \<Longrightarrow> v \<noteq> 0 \<Longrightarrow> digits_lsb r v \<noteq> [] \<and> last (digits_lsb r v) \<noteq> 0"
proof (induction r v rule: digits_lsb.induct)
  case (1 r v)
  show ?case
  proof (cases "v div r = 0")
    case True
    with "1.prems" have "v < r" by (simp add: div_eq_0_iff)
    with True "1.prems" show ?thesis by (simp add: digits_lsb.simps)
  next
    case False
    with 1 show ?thesis by (simp add: digits_lsb.simps [of r v])
  qed
qed

lemma digit_char_nonzero: "d < 36 \<Longrightarrow> digit_char d \<noteq> 0"
proof -
  have "\<forall>d<36. digit_char d \<noteq> 0" by code_simp
  then show "d < 36 \<Longrightarrow> digit_char d \<noteq> 0" by blast
qed

lemma digit_char_inj: "d < 36 \<Longrightarrow> e < 36 \<Longrightarrow> digit_char d = digit_char e \<Longrightarrow> d = e"
proof -
  have "\<forall>d<36. \<forall>e<36. digit_char d = digit_char e \<longrightarrow> d = e" by code_simp
  then show "d < 36 \<Longrightarrow> e < 36 \<Longrightarrow> digit_char d = digit_char e \<Longrightarrow> d = e" by blast
qed

lemma itoa_digits_writes:
  assumes "2 \<le> unat r" and "unat r \<le> 36"
  shows "itoa_digits m p v r =
    Some (store_bytes m p (map digit_char (digits_lsb (unat r) (unat v))),
          p + of_nat (length (digits_lsb (unat r) (unat v))))"
proof (induction "unat v" arbitrary: m p v rule: less_induct)
  case less
  show ?case
  proof (cases "v = 0")
    case True
    then show ?thesis by (subst itoa_digits.simps) (simp add: digits_lsb.simps)
  next
    case False
    then have v0: "unat v \<noteq> 0" by (simp add: unat_eq_zero)
    have dv: "unat (v div r) = unat v div unat r" "unat (v mod r) = unat v mod unat r"
      by (simp_all add: unat_div unat_mod)
    have "unat (v div r) < unat v" using v0 assms by (simp add: dv)
    from less [OF this] have IH: "itoa_digits m' p' (v div r) r =
      Some (store_bytes m' p' (map digit_char (digits_lsb (unat r) (unat v div unat r))),
            p' + of_nat (length (digits_lsb (unat r) (unat v div unat r))))" for m' p'
      by (simp add: dv)
    have "unat v mod unat r < 36"
      using assms by (metis mod_less_divisor less_le_trans zero_less_numeral)
    moreover have "r \<noteq> 0" using assms by auto
    ultimately have "itoa_digits m p v r =
        itoa_digits (m(p := digit_char (unat v mod unat r))) (p + 1) (v div r) r"
      using False by (subst itoa_digits.simps)
        (simp add: dv digit_char_def itoa_lookup_def word_greater_zero_iff)
    with v0 assms show ?thesis
      by (simp add: IH digits_lsb.simps [of "unat r" "unat v"])
  qed
qed

text \<open>
  \<^verbatim>\<open>itoa\<close> writes the number's digits, most significant first, and a terminator.
\<close>

lemma itoa_writes:
  assumes "2 \<le> unat r" and "unat r \<le> 36"
  shows "itoa m v p r = Some (store_bytes m p (number_text (unat r) (unat v) @ [0]))"
proof (cases "v = 0")
  case True
  have "digit_char 0 = chr CHR ''0''" by code_simp
  with True show ?thesis by (simp add: itoa_def number_text_def)
next
  case False
  define ds where "ds = map digit_char (digits_lsb (unat r) (unat v))"
  have len: "length ds \<le> 32"
    unfolding ds_def using digits_lsb_length [OF assms(1), of "unat v" 32] unat_lt32 [of v] by simp
  have nz: "0 \<notin> set ds"
    using assms(2) by (force simp: ds_def dest!: digits_lsb_less digit_char_nonzero [OF less_le_trans])
  have "itoa_digits m p v r = Some (store_bytes m p ds, p + of_nat (length ds))"
    using itoa_digits_writes [OF assms] by (simp add: ds_def)
  moreover have "(store_bytes m p ds)(p + of_nat (length ds) := 0) = store_bytes m p (ds @ [0])"
    by (simp add: store_bytes_append)
  moreover have "strrev (store_bytes m p (ds @ [0])) p =
      Some (store_bytes (store_bytes m p (ds @ [0])) p (rev ds))"
    using len nz by (intro strrev_reverses cstr_store_bytes) simp_all
  moreover have "store_bytes (store_bytes m p (ds @ [0])) p (rev ds) = store_bytes m p (rev ds @ [0])"
    using len by (auto simp: fun_eq_iff store_bytes_apply nth_append)
  ultimately show ?thesis
    using False by (simp add: itoa_def number_text_def ds_def unat_eq_zero rev_map)
qed

section \<open>Properties\<close>

text \<open>C38: \<^verbatim>\<open>itoa\<close> with a radix from 2 to 36 returns, having written a terminated string whose
  characters stand for digits below the radix that have the number as their value, without
  leading zeros.\<close>

theorem itoa_writes_digits:
  assumes "2 \<le> unat r" and "unat r \<le> 36"
  shows "\<exists>ds. itoa m v p r = Some (store_bytes m p (map digit_char ds @ [0])) \<and>
    digits_value (unat r) ds = unat v \<and> (\<forall>d\<in>set ds. d < unat r) \<and> ds \<noteq> [] \<and> (v = 0 \<or> hd ds \<noteq> 0)"
proof (cases "v = 0")
  case True
  then show ?thesis
    using itoa_writes [OF assms, of m v p] assms(1) by (intro exI [of _ "[0]"]) (simp add: number_text_def)
next
  case False
  let ?ds = "rev (digits_lsb (unat r) (unat v))"
  have v: "unat v \<noteq> 0" using False by (simp add: unat_eq_zero)
  then have "digits_lsb (unat r) (unat v) \<noteq> [] \<and> last (digits_lsb (unat r) (unat v)) \<noteq> 0"
    using digits_lsb_last assms(1) by blast
  then show ?thesis
    using itoa_writes [OF assms, of m v p] digits_lsb_value [OF assms(1), of "unat v"] v
    by (intro exI [of _ ?ds]) (auto simp: number_text_def hd_rev digits_lsb_less)
qed

theorem itoa_writes_digits_witness:
  "\<forall>m p. \<exists>ds. itoa m 48879 p 16 = Some (store_bytes m p (map digit_char ds @ [0])) \<and> digits_value 16 ds = 48879"
proof (intro allI)
  fix m p
  show "\<exists>ds. itoa m 48879 p 16 = Some (store_bytes m p (map digit_char ds @ [0])) \<and> digits_value 16 ds = 48879"
    using itoa_writes_digits [of 16 m 48879 p] by auto
qed

text \<open>\<^verbatim>\<open>strrev\<close> reverses a string in place.\<close>

theorem strrev_reverses_in_place:
  assumes "cstr (view m s) xs" and "length xs < 4294967296"
  shows "strrev m s = Some (store_bytes m s (rev xs))"
  by (rule strrev_reverses [OF assms])

theorem strrev_reverses_in_place_witness:
  "strrev (store_bytes (\<lambda>_. 0) 0x1000 ([1, 2, 3] @ [0])) 0x1000
     = Some (store_bytes (store_bytes (\<lambda>_. 0) 0x1000 ([1, 2, 3] @ [0])) 0x1000 [3, 2, 1])"
proof -
  have "cstr (view (store_bytes (\<lambda>_. 0) 0x1000 ([1, 2, 3] @ [0])) 0x1000) [1, 2, 3]"
    by (rule cstr_store_bytes) simp_all
  from strrev_reverses_in_place [OF this] show ?thesis by simp
qed

end
