(* ===== verification/Files.thy ===== *)
theory Files
  imports Console CString Itoa
begin

text \<open>
  The read-only file system of \<^verbatim>\<open>src/fs/files.c\<close>. Its image is a boot module in the flat
  memory: a boot block with the directory entries, one 4 KB block per inode, and the data
  blocks. \<open>boot_blk\<close> (the global \<^verbatim>\<open>b\<close>), \<open>b_block_addrs\<close>, \<open>dentries\<close>, \<open>inodes\<close> and \<open>data_blocks\<close> are the globals
  of the file; the last three are pointers into the image. Results of type
  \<^verbatim>\<open>int32_t\<close> are words, so \<^verbatim>\<open>-1\<close> is \<^term>\<open>-1 :: i32\<close>.
\<close>

section \<open>State\<close>

record boot_block =
  n_dentries :: u32
  n_inodes :: u32
  n_data_blocks :: u32

record fs = console +
  boot_blk :: boot_block
  b_block_addrs :: u32
  dentries :: u32
  inodes :: u32
  data_blocks :: u32

text \<open>\<^verbatim>\<open>dentry_t\<close> as a local variable of a caller, and \<^verbatim>\<open>file_array\<close>, one open file.\<close>

record dentry =
  file_name :: "u8 list"
  file_type :: u32
  inode_num :: u32

text \<open>The operation tables of \<^verbatim>\<open>src/kernel/syscall.c\<close> that \<^verbatim>\<open>operations_pointer\<close> can point to.\<close>

datatype ops_table = Stdin_ops | Stdout_ops | Rtc_ops | Dir_ops | Files_ops

record file_array =
  operations_pointer :: "ops_table option"
  fd_inode :: u32
  file_position :: u32
  fd_flags :: u32
  fd_file_name :: "u8 list"

definition BOOT_BLOCK_SIZE :: u32 where
  "BOOT_BLOCK_SIZE = 64"

definition BLOCK_SIZE :: u32 where
  "BLOCK_SIZE = 0x1000"

definition MAX_FILENAME_LENGTH :: nat where
  "MAX_FILENAME_LENGTH = 31"

text \<open>The fields of \<^verbatim>\<open>dentries[i]\<close> and \<^verbatim>\<open>inodes[n]\<close>.\<close>

definition dentry_addr :: "nat \<Rightarrow> 'a fs_scheme \<Rightarrow> u32" where
  "dentry_addr i s = dentries s + 64 * of_nat i"

definition dentry_name :: "nat \<Rightarrow> 'a fs_scheme \<Rightarrow> cview" where
  "dentry_name i s = view (mem s) (dentry_addr i s)"

definition dentry_type :: "nat \<Rightarrow> 'a fs_scheme \<Rightarrow> u32" where
  "dentry_type i s = load32 (mem s) (dentry_addr i s + 32)"

definition dentry_inode :: "nat \<Rightarrow> 'a fs_scheme \<Rightarrow> u32" where
  "dentry_inode i s = load32 (mem s) (dentry_addr i s + 36)"

definition inode_size :: "u32 \<Rightarrow> 'a fs_scheme \<Rightarrow> u32" where
  "inode_size n s = load32 (mem s) (inodes s + 4096 * n)"

definition inode_block :: "u32 \<Rightarrow> nat \<Rightarrow> 'a fs_scheme \<Rightarrow> u32" where
  "inode_block n k s = load32 (mem s) (inodes s + 4096 * n + 4 + 4 * of_nat k)"

section \<open>Operations\<close>

definition load_boot_block :: "memory \<Rightarrow> u32 \<Rightarrow> boot_block" where
  "load_boot_block m a =
     \<lparr>n_dentries = load32 m a, n_inodes = load32 m (a + 4), n_data_blocks = load32 m (a + 8)\<rparr>"

definition fs_init :: "u32 \<Rightarrow> 'a fs_scheme \<Rightarrow> 'a fs_scheme" where
  "fs_init addrs s =
     (let s = s\<lparr>b_block_addrs := addrs\<rparr>;
          s = s\<lparr>boot_blk := load_boot_block (mem s) (b_block_addrs s)\<rparr>;
          s = s\<lparr>dentries := b_block_addrs s + BOOT_BLOCK_SIZE\<rparr>;
          s = s\<lparr>inodes := b_block_addrs s + BLOCK_SIZE\<rparr>
      in s\<lparr>data_blocks := b_block_addrs s + n_inodes (boot_blk s) * BLOCK_SIZE + BLOCK_SIZE\<rparr>)"

text \<open>The search loop of \<^verbatim>\<open>read_dentry_by_name\<close>.\<close>

function dentry_search ::
  "cview \<Rightarrow> nat \<Rightarrow> dentry \<Rightarrow> 'a fs_scheme \<Rightarrow> nat \<Rightarrow> (i32 \<times> dentry) option" where
  "dentry_search fname readBytes d s i =
     (if i < unat (n_dentries (boot_blk s)) then
        Option.bind (strlen fname) (\<lambda>l.
        Option.bind (strlen (dentry_name i s)) (\<lambda>l'.
          if l = l' \<and> strncmp (dentry_name i s) fname readBytes = 0 then
            Option.bind (strncpy arr_put (file_name d) (dentry_name i s) readBytes) (\<lambda>name.
              Some (0, d\<lparr>file_name := name, file_type := dentry_type i s, inode_num := dentry_inode i s\<rparr>))
          else dentry_search fname readBytes d s (Suc i)))
      else Some (-1, d))"
  by pat_completeness auto
termination
  by (relation "measure (\<lambda>(fname, readBytes, d, s, i). unat (n_dentries (boot_blk s)) - i)") auto

declare dentry_search.simps [simp del]

definition read_dentry_by_name :: "cview \<Rightarrow> dentry \<Rightarrow> 'a fs_scheme \<Rightarrow> (i32 \<times> dentry) option" where
  "read_dentry_by_name fname d s =
     Option.bind (strlen fname) (\<lambda>readBytes.
       let readBytes = (if readBytes > MAX_FILENAME_LENGTH then MAX_FILENAME_LENGTH else readBytes)
       in dentry_search fname readBytes d s 0)"

definition read_dentry_by_index :: "u32 \<Rightarrow> dentry \<Rightarrow> 'a fs_scheme \<Rightarrow> (i32 \<times> dentry) option" where
  "read_dentry_by_index index d s =
     (if index \<ge> n_dentries (boot_blk s) then Some (-1, d)
      else Option.bind (strncpy arr_put (file_name d) (dentry_name (unat index) s) 32) (\<lambda>name.
             Some (0, d\<lparr>file_name := name, file_type := dentry_type (unat index) s,
                         inode_num := dentry_inode (unat index) s\<rparr>)))"

text \<open>
  The copy loop of \<^verbatim>\<open>read_data\<close>: \<open>num_reads\<close> and \<open>buf_pos\<close> count the bytes read,
  \<open>curr_read_pos\<close> is the pointer into the data block \<open>curr_block\<close> of the inode. The inode
  is read again from memory in every round, as the source does.
\<close>

lemma unat_Suc_less:
  assumes "(n :: u32) < k"
  shows "unat (n + 1) = Suc (unat n)"
proof -
  have "unat n < unat k" using assms by (simp add: word_less_nat_alt)
  then have "Suc (unat n) < 4294967296" using unat_lt32 [of k] by simp
  then show ?thesis by (simp add: unat_word_ariths)
qed

function read_loop ::
  "u32 \<Rightarrow> u32 \<Rightarrow> u32 \<Rightarrow> u32 \<Rightarrow> u32 \<Rightarrow> u32 \<Rightarrow> nat \<Rightarrow> nat \<Rightarrow> u32 \<Rightarrow> 'a fs_scheme
     \<Rightarrow> i32 \<times> 'a fs_scheme" where
  "read_loop inode offset buf len num_reads buf_pos curr_block location_in_block curr_read_pos s =
     (if num_reads < len then
        let s = poke (buf + buf_pos) (mem s curr_read_pos) s;
            num_reads = num_reads + 1;
            buf_pos = buf_pos + 1;
            curr_read_pos = curr_read_pos + 1;
            location_in_block = location_in_block + 1
        in if offset + num_reads > inode_size inode s then (num_reads, s)
           else if location_in_block \<ge> unat BLOCK_SIZE then
             let location_in_block = 0; curr_block = curr_block + 1
             in if inode_block inode curr_block s \<ge> n_data_blocks (boot_blk s) then (-1, s)
                else read_loop inode offset buf len num_reads buf_pos curr_block location_in_block
                       (data_blocks s + inode_block inode curr_block s * BLOCK_SIZE + of_nat location_in_block) s
           else read_loop inode offset buf len num_reads buf_pos curr_block location_in_block
                  curr_read_pos s
      else (num_reads, s))"
  by pat_completeness auto
termination
  by (relation "measure (\<lambda>(inode, offset, buf, len, num_reads, _). unat len - unat num_reads)")
     (auto simp: unat_Suc_less word_less_nat_alt)

declare read_loop.simps [simp del]

definition read_data :: "u32 \<Rightarrow> u32 \<Rightarrow> u32 \<Rightarrow> u32 \<Rightarrow> 'a fs_scheme \<Rightarrow> i32 \<times> 'a fs_scheme" where
  "read_data inode offset buf len s =
     (if inode \<ge> n_inodes (boot_blk s) then (-1, s)
      else if offset \<ge> inode_size inode s then (0, s)
      else
        let curr_block = unat (offset div BLOCK_SIZE);
            location_in_block = unat (offset mod BLOCK_SIZE);
            curr_read_pos = data_blocks s + inode_block inode curr_block s * BLOCK_SIZE + of_nat location_in_block
        in read_loop inode offset buf len 0 0 curr_block location_in_block curr_read_pos s)"

text \<open>
  \<^verbatim>\<open>dentry_t temp\<close>, a local variable without initialiser; no caller reads a field that
  \<^verbatim>\<open>read_dentry_by_name\<close> has not written.
\<close>

definition local_dentry :: dentry where
  "local_dentry = \<lparr>file_name = replicate 32 0, file_type = 0, inode_num = 0\<rparr>"

definition fs_read ::
  "file_array \<Rightarrow> u32 \<Rightarrow> u32 \<Rightarrow> 'a fs_scheme \<Rightarrow> (i32 \<times> file_array \<times> 'a fs_scheme) option" where
  "fs_read fd buf nbytes s =
     Option.bind (read_dentry_by_name (arr (fd_file_name fd)) local_dentry s) (\<lambda>(r, temp).
       if r \<noteq> 0 then Some (-1, fd, s)
       else
         let (bytesRead, s) = read_data (inode_num temp) (file_position fd) buf nbytes s
         in Some (bytesRead, fd\<lparr>file_position := file_position fd + bytesRead\<rparr>, s))"

definition fs_write :: "u32 \<Rightarrow> u32 \<Rightarrow> u32 \<Rightarrow> i32" where
  "fs_write fd buf nbytes = -1"

definition fs_open :: "cview \<Rightarrow> i32" where
  "fs_open filename = 0"

definition fs_close :: i32 where
  "fs_close = 0"

definition copy_file_to_addr :: "cview \<Rightarrow> u32 \<Rightarrow> 'a fs_scheme \<Rightarrow> (i32 \<times> 'a fs_scheme) option" where
  "copy_file_to_addr fname addr s =
     Option.bind (read_dentry_by_name fname local_dentry s) (\<lambda>(r, temp_dentry).
       if r \<noteq> 0 then Some (-1, s)
       else
         let file_size = inode_size (inode_num temp_dentry) s;
             (ret, s) = read_data (inode_num temp_dentry) 0 addr file_size s
         in if ret = -1 then Some (-1, s) else Some (0, s))"

text \<open>The result is the address of the entry's name, or \<^verbatim>\<open>(char * ) -1\<close>.\<close>

function autocomplete_search :: "cview \<Rightarrow> nat \<Rightarrow> 'a fs_scheme \<Rightarrow> nat \<Rightarrow> u32" where
  "autocomplete_search curr_text str_length s i =
     (if i < unat (n_dentries (boot_blk s)) then
        if strncmp (dentry_name i s) curr_text str_length = 0 then dentry_addr i s
        else autocomplete_search curr_text str_length s (Suc i)
      else -1)"
  by pat_completeness auto
termination
  by (relation "measure (\<lambda>(curr_text, str_length, s, i). unat (n_dentries (boot_blk s)) - i)") auto

declare autocomplete_search.simps [simp del]

definition autocomplete_command :: "cview \<Rightarrow> 'a fs_scheme \<Rightarrow> u32 option" where
  "autocomplete_command curr_text s =
     map_option (\<lambda>str_length. autocomplete_search curr_text str_length s 0) (strlen curr_text)"

text \<open>\<^verbatim>\<open>inodes + inode_num * BLOCK_SIZE\<close> is arithmetic on a pointer to a 4096-byte structure.\<close>

definition get_inode :: "u32 \<Rightarrow> 'a fs_scheme \<Rightarrow> u32" where
  "get_inode n s = inodes s + 4096 * (n * BLOCK_SIZE)"

definition dir_open :: "cview \<Rightarrow> i32" where
  "dir_open filename = 0"

definition dir_close :: i32 where
  "dir_close = 0"

definition dir_write :: "u32 \<Rightarrow> u32 \<Rightarrow> u32 \<Rightarrow> i32" where
  "dir_write fd buf nbytes = -1"

definition dir_read ::
  "file_array \<Rightarrow> u32 \<Rightarrow> u32 \<Rightarrow> 'a fs_scheme \<Rightarrow> (i32 \<times> file_array \<times> 'a fs_scheme) option" where
  "dir_read fd buf len s =
     (if file_position fd \<ge> n_dentries (boot_blk s) then Some (0, fd\<lparr>file_position := 0\<rparr>, s)
      else
        Option.bind (strcpy (mem_put buf) (mem s) (dentry_name (unat (file_position fd)) s)) (\<lambda>m.
          let s = s\<lparr>mem := m\<rparr>
          in Option.bind (strlen (view (mem s) buf)) (\<lambda>bytesCopied.
               Some (of_nat bytesCopied, fd\<lparr>file_position := file_position fd + 1\<rparr>, s))))"

section \<open>The directory\<close>

text \<open>The names of the entries, in order; the file system stores at most 31 characters and a NUL.\<close>

definition directory :: "'a fs_scheme \<Rightarrow> u8 list list \<Rightarrow> bool" where
  "directory s names \<longleftrightarrow> length names = unat (n_dentries (boot_blk s)) \<and>
     (\<forall>i<length names. cstr (dentry_name i s) (names ! i) \<and> length (names ! i) \<le> 31)"

definition dir_find :: "u8 list list \<Rightarrow> u8 list \<Rightarrow> nat \<Rightarrow> nat option" where
  "dir_find names f i = find (\<lambda>j. names ! j = f) [i..<length names]"

definition entry_result :: "u8 list \<Rightarrow> dentry \<Rightarrow> 'a fs_scheme \<Rightarrow> nat \<Rightarrow> dentry" where
  "entry_result f d s i = d\<lparr>file_name := f @ drop (length f) (file_name d),
     file_type := dentry_type i s, inode_num := dentry_inode i s\<rparr>"

lemma strncpy_arr:
  assumes "cstr v f" and "length f \<le> length xs"
  shows "strncpy arr_put xs v (length f) = Some (f @ drop (length f) xs)"
proof -
  obtain d' where "strncpy arr_put xs v (length f) = Some d'" "length d' = length xs"
    "\<And>j. j < length f \<Longrightarrow> d' ! j = f ! j"
    "\<And>j. length f \<le> j \<Longrightarrow> j < length xs \<Longrightarrow> d' ! j = xs ! j"
    using array.strncpy_spec [OF assms] by (metis (full_types))
  moreover from this have "d' = f @ drop (length f) xs"
    using assms(2) by (intro nth_equalityI) (auto simp: nth_append)
  ultimately show ?thesis by simp
qed

lemma dentry_search_finds:
  assumes "cstr fname f" and "directory s names" and "length (file_name d) = 32"
  shows "dentry_search fname (min (length f) 31) d s i =
    (case dir_find names f i of
       None \<Rightarrow> Some (-1, d) | Some j \<Rightarrow> Some (0, entry_result f d s j))"
proof (induction "length names - i" arbitrary: i)
  case 0
  then show ?case
    using assms(2) by (subst dentry_search.simps) (simp add: directory_def dir_find_def)
next
  case (Suc k)
  then have i: "i < length names" by simp
  with assms(2) have n: "cstr (dentry_name i s) (names ! i)" "length (names ! i) \<le> 31"
    and len: "i < unat (n_dentries (boot_blk s))"
    by (simp_all add: directory_def)
  have up: "[i..<length names] = i # [Suc i..<length names]" using i by (simp add: upt_conv_Cons)
  show ?case
  proof (cases "names ! i = f")
    case True
    with n have "min (length f) 31 = length f" by simp
    moreover have "strncmp (dentry_name i s) fname (length f) = 0"
      using strncmp_cstr [OF n(1) assms(1)] True by simp
    ultimately show ?thesis
      using True len n assms(1,3) up strncpy_arr [OF n(1), of "file_name d"]
      by (subst dentry_search.simps) (simp add: dir_find_def entry_result_def)
  next
    case False
    have "\<not> (length f = length (names ! i) \<and> strncmp (dentry_name i s) fname (min (length f) 31) = 0)"
      using strncmp_cstr [OF n(1) assms(1)] False n(2) by (auto simp: min_def)
    moreover have "dir_find names f i = dir_find names f (Suc i)"
      using False up by (simp add: dir_find_def)
    ultimately show ?thesis
      using Suc(1) [of "Suc i"] Suc(2) len n assms(1)
      by (subst dentry_search.simps) auto
  qed
qed

lemma read_dentry_finds:
  assumes "cstr fname f" and "directory s names" and "length (file_name d) = 32"
  shows "read_dentry_by_name fname d s =
    (case dir_find names f 0 of
       None \<Rightarrow> Some (-1, d) | Some j \<Rightarrow> Some (0, entry_result f d s j))"
  using dentry_search_finds [OF assms, of 0] assms(1)
  by (simp add: read_dentry_by_name_def MAX_FILENAME_LENGTH_def min_def not_le split: if_splits)

section \<open>The image\<close>

definition image_size :: "'a fs_scheme \<Rightarrow> nat" where
  "image_size s = 4096 * (1 + unat (n_inodes (boot_blk s)) + unat (n_data_blocks (boot_blk s)))"

definition image_rng :: "'a fs_scheme \<Rightarrow> u32 set" where
  "image_rng s = rng (b_block_addrs s) (image_size s)"

text \<open>The pointers into the image are those that \<^verbatim>\<open>fs_init\<close> computes, and the image fits.\<close>

definition fs_wf :: "'a fs_scheme \<Rightarrow> bool" where
  "fs_wf s \<longleftrightarrow> image_size s \<le> 4294967296 \<and> unat (n_dentries (boot_blk s)) \<le> 63 \<and>
     dentries s = b_block_addrs s + 64 \<and> inodes s = b_block_addrs s + 4096 \<and>
     data_blocks s = b_block_addrs s + n_inodes (boot_blk s) * 4096 + 4096"

text \<open>A file whose blocks are data blocks, and which does not fill its last inode slot.\<close>

definition inode_ok :: "u32 \<Rightarrow> 'a fs_scheme \<Rightarrow> bool" where
  "inode_ok n s \<longleftrightarrow> n < n_inodes (boot_blk s) \<and> unat (inode_size n s) < 4096 * 1023 \<and>
     (\<forall>k \<le> unat (inode_size n s) div 4096. inode_block n k s < n_data_blocks (boot_blk s))"

definition file_byte :: "'a fs_scheme \<Rightarrow> u32 \<Rightarrow> nat \<Rightarrow> u8" where
  "file_byte s n k = mem s (data_blocks s + inode_block n (k div 4096) s * 4096 + of_nat (k mod 4096))"

definition file_slice :: "'a fs_scheme \<Rightarrow> u32 \<Rightarrow> nat \<Rightarrow> nat \<Rightarrow> u8 list" where
  "file_slice s n off k = map (\<lambda>j. file_byte s n (off + j)) [0..<k]"

lemma image_offset:
  "fs_wf s \<Longrightarrow> x < image_size s \<Longrightarrow> b_block_addrs s + of_nat x \<in> image_rng s"
  by (simp add: image_rng_def fs_wf_def)

lemma inode_addr_image:
  assumes "fs_wf s" and "n < n_inodes (boot_blk s)" and "j < 4096"
  shows "inodes s + 4096 * n + of_nat j \<in> image_rng s"
proof -
  have "inodes s + 4096 * n + of_nat j = b_block_addrs s + of_nat (4096 + 4096 * unat n + j)"
    using assms(1) by (simp add: fs_wf_def)
  moreover have "4096 + 4096 * unat n + j < image_size s"
    using assms by (simp add: image_size_def word_less_nat_alt)
  ultimately show ?thesis using image_offset [OF assms(1)] by metis
qed

lemma data_addr_image:
  assumes "fs_wf s" and "blk < n_data_blocks (boot_blk s)" and "j < 4096"
  shows "data_blocks s + blk * 4096 + of_nat j \<in> image_rng s"
proof -
  have "data_blocks s + blk * 4096 + of_nat j =
      b_block_addrs s + of_nat (4096 + 4096 * unat (n_inodes (boot_blk s)) + 4096 * unat blk + j)"
    using assms(1) by (simp add: fs_wf_def)
  moreover have "4096 + 4096 * unat (n_inodes (boot_blk s)) + 4096 * unat blk + j < image_size s"
    using assms by (simp add: image_size_def word_less_nat_alt)
  ultimately show ?thesis using image_offset [OF assms(1)] by metis
qed

text \<open>Changing memory outside the image changes no file.\<close>

definition image_same :: "'a fs_scheme \<Rightarrow> memory \<Rightarrow> bool" where
  "image_same s m \<longleftrightarrow> (\<forall>a \<in> image_rng s. m a = mem s a)"

lemma load32_same:
  assumes "\<And>j. j < 4 \<Longrightarrow> m (a + of_nat j) = m' (a + of_nat j)"
  shows "load32 m a = load32 m' a"
  using assms [of 0] assms [of 1] assms [of 2] assms [of 3] by (simp add: load32_def)

lemma inode_size_same:
  assumes "fs_wf s" "n < n_inodes (boot_blk s)" "image_same s m"
  shows "inode_size n (s\<lparr>mem := m\<rparr>) = inode_size n s"
proof -
  have "load32 m (inodes s + 4096 * n) = load32 (mem s) (inodes s + 4096 * n)"
  proof (rule load32_same)
    fix j :: nat assume "j < 4"
    then show "m (inodes s + 4096 * n + of_nat j) = mem s (inodes s + 4096 * n + of_nat j)"
      using inode_addr_image [OF assms(1,2), of j] assms(3) by (simp add: image_same_def)
  qed
  then show ?thesis by (simp add: inode_size_def)
qed

lemma inode_block_same:
  assumes "fs_wf s" "n < n_inodes (boot_blk s)" "image_same s m" "k < 1023"
  shows "inode_block n k (s\<lparr>mem := m\<rparr>) = inode_block n k s"
proof -
  have "load32 m (inodes s + 4096 * n + 4 + 4 * of_nat k) = load32 (mem s) (inodes s + 4096 * n + 4 + 4 * of_nat k)"
  proof (rule load32_same)
    fix j :: nat assume "j < 4"
    then show "m (inodes s + 4096 * n + 4 + 4 * of_nat k + of_nat j)
        = mem s (inodes s + 4096 * n + 4 + 4 * of_nat k + of_nat j)"
      using inode_addr_image [OF assms(1,2), of "4 + 4 * k + j"] assms(3,4)
      by (simp add: image_same_def algebra_simps)
  qed
  then show ?thesis by (simp add: inode_block_def)
qed

section \<open>Reading a file\<close>

text \<open>The state of \<^verbatim>\<open>read_data\<close> when \<open>j\<close> bytes from offset \<open>off\<close> have been copied.\<close>

definition read_mem :: "'a fs_scheme \<Rightarrow> u32 \<Rightarrow> nat \<Rightarrow> u32 \<Rightarrow> nat \<Rightarrow> memory" where
  "read_mem s n off buf j = store_bytes (mem s) buf (file_slice s n off j)"

definition read_pos :: "'a fs_scheme \<Rightarrow> u32 \<Rightarrow> nat \<Rightarrow> u32" where
  "read_pos s n k = data_blocks s + inode_block n (k div 4096) s * BLOCK_SIZE + of_nat (k mod 4096)"

lemma length_file_slice [simp]: "length (file_slice s n off k) = k"
  by (simp add: file_slice_def)

lemma read_mem_Suc:
  "(read_mem s n off buf j)(buf + of_nat j := file_byte s n (off + j)) = read_mem s n off buf (Suc j)"
  by (simp add: read_mem_def file_slice_def store_bytes_append)

lemma read_mem_image:
  assumes "rng buf r \<inter> image_rng s = {}" and "j \<le> r" and "r \<le> 4294967296"
  shows "image_same s (read_mem s n off buf j)"
  unfolding image_same_def read_mem_def
proof
  fix a assume "a \<in> image_rng s"
  then have "a \<notin> rng buf r" using assms(1) by blast
  then show "store_bytes (mem s) buf (file_slice s n off j) a = mem s a"
    using assms(2,3) by (intro store_bytes_outside) auto
qed

lemma file_byte_same:
  assumes "fs_wf s" "inode_ok n s" "image_same s m" "k \<le> unat (inode_size n s)"
  shows "m (read_pos s n k) = file_byte s n k"
proof -
  have "k div 4096 \<le> unat (inode_size n s) div 4096" using assms(4) by (rule div_le_mono)
  then have "inode_block n (k div 4096) s < n_data_blocks (boot_blk s)"
    using assms(2) by (simp add: inode_ok_def)
  then have "read_pos s n k \<in> image_rng s"
    unfolding read_pos_def BLOCK_SIZE_def using data_addr_image [OF assms(1)] by simp
  then show ?thesis using assms(3) by (simp add: image_same_def file_byte_def read_pos_def BLOCK_SIZE_def)
qed

lemma read_pos_next:
  "(k + 1) mod 4096 \<noteq> 0 \<Longrightarrow> read_pos s n (k + 1) = read_pos s n k + 1"
  by (simp add: read_pos_def mod_Suc div_Suc split: if_splits)

text \<open>
  The loop stops after \<open>len\<close> bytes, or after the byte past the end of the file has been
  copied as well.
\<close>

text \<open>What a round does to the memory.\<close>

lemma read_round_store:
  fixes s :: "'a fs_scheme"
  assumes "fs_wf s" "inode_ok n s" "off + j \<le> unat (inode_size n s)"
    and "rng buf r \<inter> image_rng s = {}" "Suc j \<le> r" "r \<le> 4294967296"
  shows "poke (buf + of_nat j) (read_mem s n off buf j (read_pos s n (off + j))) (s\<lparr>mem := read_mem s n off buf j\<rparr>) =
      s\<lparr>mem := read_mem s n off buf (Suc j)\<rparr>"
    and "inode_size n (s\<lparr>mem := read_mem s n off buf (Suc j)\<rparr>) = inode_size n s"
proof -
  have n: "n < n_inodes (boot_blk s)" using assms(2) by (simp add: inode_ok_def)
  note same = read_mem_image [OF assms(4) _ assms(6), of _ n off]
  have "read_mem s n off buf j (read_pos s n (off + j)) = file_byte s n (off + j)"
    using assms(1-3,5) same by (intro file_byte_same) simp_all
  then show "poke (buf + of_nat j) (read_mem s n off buf j (read_pos s n (off + j))) (s\<lparr>mem := read_mem s n off buf j\<rparr>) =
      s\<lparr>mem := read_mem s n off buf (Suc j)\<rparr>"
    by (simp add: poke_def read_mem_Suc)
  show "inode_size n (s\<lparr>mem := read_mem s n off buf (Suc j)\<rparr>) = inode_size n s"
    using assms(1,5) n same by (intro inode_size_same) simp_all
qed

text \<open>One round of the loop, at the byte \<open>off + j\<close> of the file, which is not its last.\<close>

lemma read_loop_round:
  fixes s :: "'a fs_scheme"
  assumes "fs_wf s" "inode_ok n s" "off + Suc j \<le> unat (inode_size n s)" "j < unat len"
    and "rng buf r \<inter> image_rng s = {}" "Suc j \<le> r" "r \<le> 4294967296"
  shows "read_loop n (of_nat off) buf len (of_nat j) (of_nat j) ((off + j) div 4096) ((off + j) mod 4096)
      (read_pos s n (off + j)) (s\<lparr>mem := read_mem s n off buf j\<rparr>)
    = read_loop n (of_nat off) buf len (of_nat (Suc j)) (of_nat (Suc j)) ((off + Suc j) div 4096) ((off + Suc j) mod 4096)
      (read_pos s n (off + Suc j)) (s\<lparr>mem := read_mem s n off buf (Suc j)\<rparr>)"
proof -
  let ?sz = "unat (inode_size n s)" and ?m' = "read_mem s n off buf (Suc j)"
  have n: "n < n_inodes (boot_blk s)" and sz: "?sz < 4096 * 1023" using assms(2) by (simp_all add: inode_ok_def)
  have jl: "of_nat j < len" using assms(3,4) sz by (simp add: word_less_nat_alt)
  have "off + j \<le> ?sz" using assms(3) by simp
  note step = read_round_store [OF assms(1,2) this assms(5-7)]
  have "of_nat off + (of_nat j + 1) = (of_nat (off + Suc j) :: u32)" by simp
  then have past: "\<not> of_nat off + (of_nat j + 1) > inode_size n s"
    using assms(3) sz by (simp add: word_less_nat_alt not_less del: of_nat_add of_nat_Suc)
  have blk: "(off + Suc j) div 4096 \<le> ?sz div 4096" using assms(3) by (intro div_le_mono)
  then have "(off + Suc j) div 4096 < 1023" using sz by linarith
  then have block: "inode_block n ((off + Suc j) div 4096) (s\<lparr>mem := ?m'\<rparr>) = inode_block n ((off + Suc j) div 4096) s"
    using assms(1,6) n read_mem_image [OF assms(5) _ assms(7), of _ n off] by (intro inode_block_same) simp_all
  have valid: "inode_block n ((off + Suc j) div 4096) s < n_data_blocks (boot_blk s)"
    using assms(2) blk by (simp add: inode_ok_def)
  show ?thesis
  proof (cases "(off + j) mod 4096 = 4095")
    case True
    then have "(off + Suc j) mod 4096 = 0" "(off + Suc j) div 4096 = Suc ((off + j) div 4096)"
      by (simp_all add: mod_Suc div_Suc)
    with True show ?thesis
      using jl step past block valid
      by (subst read_loop.simps) (simp add: Let_def BLOCK_SIZE_def not_le [symmetric] read_pos_def, simp add: add.commute)
  next
    case False
    have "(off + j) mod 4096 < 4096" by simp
    then have "(off + j) mod 4096 + 1 < 4096" using False by linarith
    moreover have "(off + Suc j) mod 4096 = Suc ((off + j) mod 4096)" "(off + Suc j) div 4096 = (off + j) div 4096"
      using False by (simp_all add: mod_Suc div_Suc)
    moreover have "read_pos s n (off + Suc j) = read_pos s n (off + j) + 1"
      using read_pos_next [of "off + j" s n] calculation by simp
    ultimately show ?thesis
      using jl step past by (subst read_loop.simps) (simp add: Let_def BLOCK_SIZE_def, simp add: add.commute)
  qed
qed

text \<open>The round that notices that it is past the end.\<close>

lemma read_loop_last:
  fixes s :: "'a fs_scheme"
  assumes "fs_wf s" "inode_ok n s" "off + j = unat (inode_size n s)" "j < unat len"
    and "rng buf r \<inter> image_rng s = {}" "Suc j \<le> r" "r \<le> 4294967296"
  shows "read_loop n (of_nat off) buf len (of_nat j) (of_nat j) ((off + j) div 4096) ((off + j) mod 4096)
      (read_pos s n (off + j)) (s\<lparr>mem := read_mem s n off buf j\<rparr>)
    = (of_nat (Suc j), s\<lparr>mem := read_mem s n off buf (Suc j)\<rparr>)"
proof -
  let ?sz = "unat (inode_size n s)"
  have sz: "?sz < 4096 * 1023" using assms(2) by (simp add: inode_ok_def)
  have jl: "of_nat j < len" using assms(3,4) sz by (simp add: word_less_nat_alt)
  have "off + j \<le> ?sz" using assms(3) by simp
  note step = read_round_store [OF assms(1,2) this assms(5-7)]
  have "of_nat off + (of_nat j + 1) = (of_nat (off + Suc j) :: u32)" by simp
  then have "of_nat off + (of_nat j + 1) > inode_size n s"
    using assms(3) sz by (simp add: word_less_nat_alt del: of_nat_add of_nat_Suc)
  then show ?thesis using jl step by (subst read_loop.simps) (simp add: Let_def)
qed

lemma read_loop_copies:
  fixes s :: "'a fs_scheme"
  assumes "fs_wf s" "inode_ok n s" "off < unat (inode_size n s)"
    and "r = min (unat len) (unat (inode_size n s) - off + 1)"
    and "rng buf r \<inter> image_rng s = {}"
  shows "j \<le> unat len \<Longrightarrow> j \<le> unat (inode_size n s) - off \<Longrightarrow>
    read_loop n (of_nat off) buf len (of_nat j) (of_nat j) ((off + j) div 4096) ((off + j) mod 4096)
      (read_pos s n (off + j)) (s\<lparr>mem := read_mem s n off buf j\<rparr>)
    = (of_nat r, s\<lparr>mem := read_mem s n off buf r\<rparr>)"
proof (induction "r - j" arbitrary: j)
  case 0
  then have "unat len \<le> j" "j < 4294967296" "r = j" using assms(4) unat_lt32 [of len] by auto
  then have "\<not> of_nat j < len" by (simp add: word_less_nat_alt)
  then show ?case using \<open>r = j\<close> by (subst read_loop.simps) simp
next
  case (Suc d)
  let ?sz = "unat (inode_size n s)"
  have j: "j < r" "off + j \<le> ?sz" "j < unat len" using Suc assms(3,4) by auto
  have r: "r \<le> 4294967296" using assms(4) unat_lt32 [of len] by simp
  show ?case
  proof (cases "off + Suc j \<le> ?sz")
    case True
    then show ?thesis
      using read_loop_round [OF assms(1,2) True j(3) assms(5) _ r] Suc(1) [of "Suc j"] Suc(2) j by simp
  next
    case False
    then have "off + j = ?sz" "r = Suc j" using j assms(3,4) by auto
    then show ?thesis using read_loop_last [OF assms(1,2) _ j(3) assms(5) _ r] by simp
  qed
qed

lemma read_data_reads:
  assumes "fs_wf s" "inode_ok n s" "unat offset < unat (inode_size n s)"
    and "r = min (unat len) (unat (inode_size n s) - unat offset + 1)"
    and "rng buf r \<inter> image_rng s = {}"
  shows "read_data n offset buf len s
    = (of_nat r, s\<lparr>mem := store_bytes (mem s) buf (file_slice s n (unat offset) r)\<rparr>)"
proof -
  have n: "n < n_inodes (boot_blk s)" using assms(2) by (simp add: inode_ok_def)
  have "read_loop n (of_nat (unat offset)) buf len (of_nat 0) (of_nat 0) ((unat offset + 0) div 4096)
      ((unat offset + 0) mod 4096) (read_pos s n (unat offset + 0)) (s\<lparr>mem := read_mem s n (unat offset) buf 0\<rparr>)
    = (of_nat r, s\<lparr>mem := read_mem s n (unat offset) buf r\<rparr>)"
    by (rule read_loop_copies [OF assms]) simp_all
  moreover have "s\<lparr>mem := read_mem s n (unat offset) buf 0\<rparr> = s"
    by (simp add: read_mem_def file_slice_def)
  ultimately show ?thesis
    using n assms(3)
    by (simp add: read_data_def Let_def BLOCK_SIZE_def unat_div unat_mod read_pos_def read_mem_def
        word_less_nat_alt word_le_nat_alt)
qed


lemma read_data_eof:
  "n < n_inodes (boot_blk s) \<Longrightarrow> inode_size n s \<le> offset \<Longrightarrow> read_data n offset buf len s = (0, s)"
  by (simp add: read_data_def)

lemma read_data_bad_inode: "n_inodes (boot_blk s) \<le> n \<Longrightarrow> read_data n offset buf len s = (-1, s)"
  by (simp add: read_data_def)

lemma fs_read_known:
  assumes "cstr (arr (fd_file_name fd)) f" "directory s names" "dir_find names f 0 = Some i"
  shows "fs_read fd buf nbytes s =
    (let (r, s') = read_data (dentry_inode i s) (file_position fd) buf nbytes s
     in Some (r, fd\<lparr>file_position := file_position fd + r\<rparr>, s'))"
  using read_dentry_finds [OF assms(1,2), of local_dentry] assms(3)
  by (simp add: fs_read_def local_dentry_def entry_result_def split: prod.splits)

lemma fs_read_unknown:
  assumes "cstr (arr (fd_file_name fd)) f" "directory s names" "dir_find names f 0 = None"
  shows "fs_read fd buf nbytes s = Some (-1, fd, s)"
  using read_dentry_finds [OF assms(1,2), of local_dentry] assms(3)
  by (simp add: fs_read_def local_dentry_def)

text \<open>The files and the directory do not depend on memory outside the image.\<close>

lemma inode_ok_blocks: "inode_ok n s \<Longrightarrow> unat (inode_size n s) div 4096 < 1023"
  unfolding inode_ok_def by linarith

lemma file_byte_image:
  assumes "fs_wf s" "inode_ok n s" "image_same s m" "k \<le> unat (inode_size n s)"
  shows "file_byte (s\<lparr>mem := m\<rparr>) n k = file_byte s n k"
proof -
  have "k div 4096 \<le> unat (inode_size n s) div 4096" using assms(4) by (rule div_le_mono)
  moreover have "unat (inode_size n s) div 4096 < 1023" using assms(2) by (rule inode_ok_blocks)
  ultimately have "inode_block n (k div 4096) (s\<lparr>mem := m\<rparr>) = inode_block n (k div 4096) s"
    using assms by (intro inode_block_same) (simp_all add: inode_ok_def)
  then show ?thesis
    using file_byte_same [OF assms] by (simp add: file_byte_def read_pos_def BLOCK_SIZE_def)
qed

lemma inode_ok_same:
  assumes "fs_wf s" "inode_ok n s" "image_same s m"
  shows "inode_ok n (s\<lparr>mem := m\<rparr>)"
proof -
  have "inode_size n (s\<lparr>mem := m\<rparr>) = inode_size n s"
    using assms by (intro inode_size_same) (simp_all add: inode_ok_def)
  moreover have "inode_block n k (s\<lparr>mem := m\<rparr>) = inode_block n k s" if "k \<le> unat (inode_size n s) div 4096" for k
  proof -
    have "unat (inode_size n s) div 4096 < 1023" using assms(2) by (rule inode_ok_blocks)
    then show ?thesis using that assms by (intro inode_block_same) (simp_all add: inode_ok_def)
  qed
  ultimately show ?thesis using assms(2) by (simp add: inode_ok_def)
qed

lemma dentry_addr_image:
  assumes "fs_wf s" and "i < unat (n_dentries (boot_blk s))" and "j < 64"
  shows "dentry_addr i s + of_nat j \<in> image_rng s"
proof -
  have "dentry_addr i s + of_nat j = b_block_addrs s + of_nat (64 + 64 * i + j)"
    using assms(1) by (simp add: fs_wf_def dentry_addr_def)
  moreover have "64 + 64 * i + j < image_size s"
    using assms by (simp add: image_size_def fs_wf_def)
  ultimately show ?thesis using image_offset [OF assms(1)] by metis
qed

lemma directory_same:
  assumes "fs_wf s" "directory s names" "image_same s m"
  shows "directory (s\<lparr>mem := m\<rparr>) names"
proof -
  have "view m (dentry_addr i s) j = dentry_name i s j" if "i < length names" "j < 64" for i j
    using that assms dentry_addr_image [of s i j]
    by (simp add: directory_def image_same_def dentry_name_def view_def)
  then show ?thesis
    using assms(2) unfolding directory_def
    by (auto simp: cstr_def dentry_name_def dentry_addr_def)
qed

lemma dentry_inode_same:
  assumes "fs_wf s" "i < unat (n_dentries (boot_blk s))" "image_same s m"
  shows "dentry_inode i (s\<lparr>mem := m\<rparr>) = dentry_inode i s"
proof -
  have "load32 m (dentry_addr i s + 36) = load32 (mem s) (dentry_addr i s + 36)"
  proof (rule load32_same)
    fix j :: nat assume "j < 4"
    then show "m (dentry_addr i s + 36 + of_nat j) = mem s (dentry_addr i s + 36 + of_nat j)"
      using dentry_addr_image [OF assms(1,2), of "36 + j"] assms(3) by (simp add: image_same_def algebra_simps)
  qed
  then show ?thesis by (simp add: dentry_inode_def dentry_addr_def)
qed

section \<open>Directories and completion\<close>

lemma strcpy_mem:
  assumes "cstr src f" and "length f < 4294967296"
  shows "strcpy (mem_put p) m src = Some (store_bytes m p (f @ [0]))"
proof -
  obtain m' where m': "strcpy (mem_put p) m src = Some m'"
    "\<And>j. j < length f \<Longrightarrow> view m' p j = f ! j" "view m' p (length f) = 0"
    "\<And>j. length f < j \<Longrightarrow> j < 4294967296 \<Longrightarrow> view m' p j = view m p j"
    using ram.strcpy_fits [where d = m and p = p, OF assms(1)] assms(2) by (metis (no_types))
  have "m' x = store_bytes m p (f @ [0]) x" for x
  proof -
    have x: "view m' p (unat (x - p)) = m' x" "view m p (unat (x - p)) = m x" by (simp_all add: view_def)
    consider "unat (x - p) < length f" | "unat (x - p) = length f" | "length f < unat (x - p)" by linarith
    then show ?thesis
      using m'(2) [of "unat (x - p)"] m'(3) m'(4) [of "unat (x - p)"] unat_lt32 [of "x - p"] assms(2) x
      by cases (simp_all add: store_bytes_apply nth_append)
  qed
  then show ?thesis using m'(1) by (simp add: fun_eq_iff)
qed

lemma dir_read_entry:
  assumes "directory s names" and "unat (file_position fd) < length names"
  shows "dir_read fd buf len s = Some (of_nat (length (names ! unat (file_position fd))),
     fd\<lparr>file_position := file_position fd + 1\<rparr>,
     s\<lparr>mem := store_bytes (mem s) buf (names ! unat (file_position fd) @ [0])\<rparr>)"
proof -
  let ?f = "names ! unat (file_position fd)"
  have f: "cstr (dentry_name (unat (file_position fd)) s) ?f" "length ?f \<le> 31"
    and lt: "file_position fd < n_dentries (boot_blk s)"
    using assms by (simp_all add: directory_def word_less_nat_alt)
  have "0 \<notin> set ?f" using f(1) by (auto simp: cstr_def in_set_conv_nth)
  then have "strlen (view (store_bytes (mem s) buf (?f @ [0])) buf) = Some (length ?f)"
    using f(2) by (intro strlen_cstr cstr_store_bytes) simp_all
  then show ?thesis
    using f lt strcpy_mem [OF f(1), of buf "mem s"] by (simp add: dir_read_def not_le [symmetric])
qed

lemma dir_read_end:
  "directory s names \<Longrightarrow> length names \<le> unat (file_position fd) \<Longrightarrow>
     dir_read fd buf len s = Some (0, fd\<lparr>file_position := 0\<rparr>, s)"
  by (simp add: dir_read_def directory_def word_le_nat_alt)

lemma autocomplete_search_finds:
  assumes "cstr t xs" and "directory s names"
  shows "autocomplete_search t (length xs) s i =
    (case find (\<lambda>j. take (length xs) (names ! j) = xs) [i..<length names] of
       None \<Rightarrow> -1 | Some j \<Rightarrow> dentry_addr j s)"
proof (induction "length names - i" arbitrary: i)
  case 0
  then show ?case
    using assms(2) by (subst autocomplete_search.simps) (simp add: directory_def)
next
  case (Suc k)
  then have i: "i < length names" by simp
  with assms(2) have n: "cstr (dentry_name i s) (names ! i)" and len: "i < unat (n_dentries (boot_blk s))"
    by (simp_all add: directory_def)
  have "strncmp (dentry_name i s) t (length xs) = 0 \<longleftrightarrow> take (length xs) (names ! i) = xs"
    using strncmp_cstr [OF n assms(1), of "length xs"] by simp
  moreover have "[i..<length names] = i # [Suc i..<length names]" using i by (simp add: upt_conv_Cons)
  ultimately show ?case
    using Suc len by (subst autocomplete_search.simps) simp
qed

section \<open>Whole files, consecutive reads and directory listings\<close>

lemma read_data_exact:
  assumes "fs_wf s" "inode_ok n s" "unat offset + unat len \<le> unat (inode_size n s)"
    and "rng buf (unat len) \<inter> image_rng s = {}"
  shows "read_data n offset buf len s
    = (len, s\<lparr>mem := store_bytes (mem s) buf (file_slice s n (unat offset) (unat len))\<rparr>)"
proof (cases "unat offset < unat (inode_size n s)")
  case True
  have "unat len = min (unat len) (unat (inode_size n s) - unat offset + 1)" using assms(3) by linarith
  from read_data_reads [OF assms(1,2) True this assms(4)] show ?thesis by simp
next
  case False
  then have "len = 0" and "inode_size n s \<le> offset"
    using assms(3) by (simp_all add: unat_eq_zero [symmetric] word_le_nat_alt)
  then show ?thesis
    using assms(2) by (simp add: read_data_eof inode_ok_def file_slice_def)
qed

lemma copy_file_copies:
  assumes "fs_wf s" "cstr fname f" "directory s names" "dir_find names f 0 = Some i"
    and "inode_ok (dentry_inode i s) s"
    and "rng addr (unat (inode_size (dentry_inode i s) s)) \<inter> image_rng s = {}"
  shows "copy_file_to_addr fname addr s = Some (0, s\<lparr>mem := store_bytes (mem s) addr
      (file_slice s (dentry_inode i s) 0 (unat (inode_size (dentry_inode i s) s)))\<rparr>)"
proof -
  let ?n = "dentry_inode i s"
  have "inode_size ?n s \<noteq> -1"
  proof
    assume "inode_size ?n s = -1"
    moreover have "unat (-1 :: u32) = 4294967295" by (simp add: unsigned_minus_1_eq_mask mask_eq_exp_minus_1)
    ultimately show False using assms(5) by (simp add: inode_ok_def)
  qed
  then show ?thesis
    using read_dentry_finds [OF assms(2,3), of local_dentry] assms(4)
      read_data_exact [OF assms(1,5) _ assms(6), of 0]
    by (simp add: copy_file_to_addr_def local_dentry_def entry_result_def)
qed

lemma nth_file_slice: "j < k \<Longrightarrow> file_slice s n off k ! j = file_byte s n (off + j)"
  by (simp add: file_slice_def)

lemma file_slice_add: "file_slice s n off (i + j) = file_slice s n off i @ file_slice s n (off + i) j"
  by (rule nth_equalityI) (auto simp: file_slice_def nth_append)

text \<open>Two consecutive reads give what one read of the total gives.\<close>

lemma fs_read_twice:
  assumes wf: "fs_wf s" and named: "cstr (arr (fd_file_name fd)) f" "directory s names" "dir_find names f 0 = Some i"
    and n: "n = dentry_inode i s" "inode_ok n s"
    and len: "unat (file_position fd) + unat n1 + unat n2 \<le> unat (inode_size n s)"
    and buf: "rng buf (unat n1 + unat n2) \<inter> image_rng s = {}"
  shows "\<exists>fd1 s1. fs_read fd buf n1 s = Some (n1, fd1, s1) \<and>
    fs_read fd1 (buf + n1) n2 s1 = Some (n2, fd\<lparr>file_position := file_position fd + n1 + n2\<rparr>,
      s\<lparr>mem := store_bytes (mem s) buf (file_slice s n (unat (file_position fd)) (unat n1 + unat n2))\<rparr>)"
proof -
  let ?p = "file_position fd"
  let ?m1 = "store_bytes (mem s) buf (file_slice s n (unat ?p) (unat n1))"
  let ?s1 = "s\<lparr>mem := ?m1\<rparr>" and ?fd1 = "fd\<lparr>file_position := ?p + n1\<rparr>"
  have sz: "unat (inode_size n s) < 4096 * 1023" using n(2) by (simp add: inode_ok_def)
  have "rng buf (unat n1) \<subseteq> rng buf (unat n1 + unat n2)" by (rule rng_mono) simp
  then have buf1: "rng buf (unat n1) \<inter> image_rng s = {}" using buf by blast
  have r1: "fs_read fd buf n1 s = Some (n1, ?fd1, ?s1)"
    using fs_read_known [OF named] read_data_exact [OF wf n(2) _ buf1, of ?p] len n(1) by simp
  have same: "image_same s ?m1"
    using read_mem_image [OF buf1 order_refl] unat_lt32 [of n1] by (simp add: read_mem_def)
  have i: "i < unat (n_dentries (boot_blk s))"
    using named(2,3) by (auto simp: dir_find_def directory_def find_Some_iff)
  have pos: "unat (?p + n1) = unat ?p + unat n1"
    using len sz by (simp add: unat_word_ariths)
  have "rng (buf + n1) (unat n2) \<subseteq> rng buf (unat n1 + unat n2)"
  proof
    fix x assume "x \<in> rng (buf + n1) (unat n2)"
    then obtain j where "j < unat n2" "x = buf + n1 + of_nat j" by (blast dest: rng_nth)
    then have "x = buf + of_nat (unat n1 + j)" "unat n1 + j < unat n1 + unat n2" by simp_all
    then show "x \<in> rng buf (unat n1 + unat n2)" using len sz by (auto intro!: nth_in_rng simp del: of_nat_add in_rng)
  qed
  then have buf2: "rng (buf + n1) (unat n2) \<inter> image_rng ?s1 = {}"
    using buf by (auto simp: image_rng_def image_size_def)
  have slice: "file_slice ?s1 n (unat ?p + unat n1) (unat n2) = file_slice s n (unat ?p + unat n1) (unat n2)"
  proof (rule nth_equalityI)
    fix j assume "j < length (file_slice ?s1 n (unat ?p + unat n1) (unat n2))"
    then show "file_slice ?s1 n (unat ?p + unat n1) (unat n2) ! j = file_slice s n (unat ?p + unat n1) (unat n2) ! j"
      using len by (simp add: nth_file_slice file_byte_image [OF wf n(2) same])
  qed simp
  have "fs_wf ?s1" using wf by (simp add: fs_wf_def image_size_def)
  moreover have "inode_size n ?s1 = inode_size n s"
    using inode_size_same [OF wf _ same, of n] n(2) by (simp add: inode_ok_def)
  ultimately have "read_data n (?p + n1) (buf + n1) n2 ?s1 =
      (n2, ?s1\<lparr>mem := store_bytes ?m1 (buf + n1) (file_slice s n (unat ?p + unat n1) (unat n2))\<rparr>)"
    using read_data_exact [of ?s1 n "?p + n1" n2 "buf + n1"] inode_ok_same [OF wf n(2) same] buf2 len pos slice
    by simp
  moreover have "store_bytes ?m1 (buf + n1) (file_slice s n (unat ?p + unat n1) (unat n2)) =
      store_bytes (mem s) buf (file_slice s n (unat ?p) (unat n1 + unat n2))"
    by (simp add: file_slice_add store_bytes_append)
  moreover have "fs_read ?fd1 (buf + n1) n2 ?s1 = (let (r, s') = read_data n (?p + n1) (buf + n1) n2 ?s1
     in Some (r, ?fd1\<lparr>file_position := ?p + n1 + r\<rparr>, s'))"
    using fs_read_known [of ?fd1 f ?s1 names i] named directory_same [OF wf named(2) same]
      dentry_inode_same [OF wf i same] n(1) by simp
  ultimately show ?thesis using r1 by simp
qed

text \<open>Listing a directory: what a caller finds in its buffer after each of \<open>k\<close> calls.\<close>

fun dir_list :: "nat \<Rightarrow> u32 \<Rightarrow> file_array \<Rightarrow> 'a fs_scheme \<Rightarrow> (u8 list list \<times> file_array \<times> 'a fs_scheme) option" where
  "dir_list 0 buf fd s = Some ([], fd, s)"
| "dir_list (Suc k) buf fd s =
     Option.bind (dir_read fd buf 32 s) (\<lambda>(n, fd, s).
       map_option (\<lambda>(names, fd', s'). (load_bytes (mem s) buf (unat n) # names, fd', s')) (dir_list k buf fd s))"

lemma dir_list_names:
  assumes "fs_wf s" and "directory s names" and "rng buf 32 \<inter> image_rng s = {}"
    and "unat (file_position fd) + k \<le> length names"
  shows "\<exists>m. dir_list k buf fd s = Some (take k (drop (unat (file_position fd)) names),
       fd\<lparr>file_position := file_position fd + of_nat k\<rparr>, s\<lparr>mem := m\<rparr>) \<and> image_same s m"
  using assms
proof (induction k arbitrary: fd s)
  case 0
  then show ?case by (auto intro!: exI [of _ "mem s"] simp: image_same_def)
next
  case (Suc k)
  let ?i = "unat (file_position fd)"
  have i: "?i < length names" using Suc.prems(4) by simp
  let ?f = "names ! ?i" and ?fd = "fd\<lparr>file_position := file_position fd + 1\<rparr>"
  let ?m = "store_bytes (mem s) buf (?f @ [0])"
  have f: "length ?f \<le> 31" using Suc.prems(2) i by (simp add: directory_def)
  have "rng buf (length (?f @ [0])) \<subseteq> rng buf 32" using f by (intro rng_mono) simp
  then have disj: "rng buf (length (?f @ [0])) \<inter> image_rng s = {}" using Suc.prems(3) by blast
  have same: "image_same s ?m"
    unfolding image_same_def
  proof
    fix a assume "a \<in> image_rng s"
    then have "a \<notin> rng buf (length (?f @ [0]))" using disj by blast
    then show "?m a = mem s a" using f by (intro store_bytes_outside) simp_all
  qed
  have "length names \<le> 63" using Suc.prems(1,2) by (simp add: fs_wf_def directory_def)
  then have pos: "unat (file_position fd + 1) = Suc ?i" using i by (simp add: unat_word_ariths)
  have img: "image_rng (s\<lparr>mem := m\<rparr>) = image_rng s" for m by (simp add: image_rng_def image_size_def)
  obtain m where m: "dir_list k buf ?fd (s\<lparr>mem := ?m\<rparr>) = Some (take k (drop (Suc ?i) names),
      ?fd\<lparr>file_position := file_position fd + 1 + of_nat k\<rparr>, s\<lparr>mem := m\<rparr>)" "image_same (s\<lparr>mem := ?m\<rparr>) m"
    using Suc.IH [of "s\<lparr>mem := ?m\<rparr>" ?fd] Suc.prems directory_same [OF Suc.prems(1,2) same] pos
    by (auto simp: fs_wf_def image_size_def image_rng_def)
  have "load_bytes ?m buf (length ?f) = ?f"
    using f by (intro nth_equalityI) (simp_all add: store_bytes_nth nth_append)
  moreover have "names ! ?i # take k (drop (Suc ?i) names) = take (Suc k) (drop ?i names)"
    using i by (metis Cons_nth_drop_Suc take_Suc_Cons)
  moreover have "image_same s m" using m(2) same by (simp add: image_same_def img)
  ultimately show ?case
    using m(1) f dir_read_entry [OF Suc.prems(2) i, of buf 32]
    by (intro exI [of _ m]) (simp add: add.assoc)
qed

section \<open>A small image\<close>

text \<open>A directory with one entry, the five-byte file \<^verbatim>\<open>hi\<close>, for the examples below.\<close>

definition demo_mem :: memory where
  "demo_mem = (\<lambda>_. 0)(0x1000 := 1, 0x1004 := 1, 0x1008 := 1, 0x1040 := chr CHR ''h'', 0x1041 := chr CHR ''i'',
     0x1060 := 2, 0x2000 := 5, 0x3000 := 72, 0x3001 := 69, 0x3002 := 76, 0x3003 := 76, 0x3004 := 79)"

definition demo_fs :: fs where
  "demo_fs = fs_init 0x1000 \<lparr>mem = demo_mem, port_in = \<lambda>_ _. 0, in_count = 0, port_out = [], int_flag = True,
     screen_x = \<lambda>_. 0, screen_y = \<lambda>_. 0, lib_active_terminal = 0, text_color = 7, lfsr = 1, lfsr_bit = 0,
     active_terminal = 0, boot_blk = \<lparr>n_dentries = 0, n_inodes = 0, n_data_blocks = 0\<rparr>, b_block_addrs = 0,
     dentries = 0, inodes = 0, data_blocks = 0\<rparr>"

lemma demo_fields [simp]:
  "mem demo_fs = demo_mem" "boot_blk demo_fs = \<lparr>n_dentries = 1, n_inodes = 1, n_data_blocks = 1\<rparr>"
  "b_block_addrs demo_fs = 0x1000" "dentries demo_fs = 0x1040" "inodes demo_fs = 0x2000" "data_blocks demo_fs = 0x3000"
  by (simp_all add: demo_fs_def fs_init_def Let_def load_boot_block_def load32_def demo_mem_def
      BOOT_BLOCK_SIZE_def BLOCK_SIZE_def)

lemma demo_inode [simp]:
  "inode_size 0 demo_fs = 5" "inode_block 0 0 demo_fs = 0" "dentry_inode 0 demo_fs = 0"
  by (simp_all add: inode_size_def inode_block_def dentry_inode_def dentry_addr_def load32_def demo_mem_def)

lemma demo_wf: "fs_wf demo_fs"
  by (simp add: fs_wf_def image_size_def)

lemma demo_inode_ok: "inode_ok 0 demo_fs"
  by (simp add: inode_ok_def)

lemma demo_directory: "directory demo_fs [str ''hi'']"
proof -
  have "cstr (dentry_name 0 demo_fs) (str ''hi'')"
  proof -
    have "chr CHR ''h'' \<noteq> 0" "chr CHR ''i'' \<noteq> 0" by code_simp+
    then show ?thesis
      by (simp add: cstr_def dentry_name_def view_def dentry_addr_def str_def demo_mem_def less_Suc_eq)
  qed
  then show ?thesis by (simp add: directory_def)
qed

lemma demo_buffer: "n \<le> 4096 \<Longrightarrow> rng 0x8000 n \<inter> image_rng demo_fs = {}"
  unfolding image_rng_def image_size_def by (subst Int_commute, rule rng_disjoint) simp_all

lemma cstr_lit: "0 \<notin> set (str cs) \<Longrightarrow> cstr (lit cs) (str cs)"
  unfolding lit_def using cstr_arr [of "str cs" "[]"] by simp

lemma cstr_hi: "cstr (lit ''hi'') (str ''hi'')"
  by (rule cstr_lit) code_simp

definition demo_fd :: "u32 \<Rightarrow> file_array" where
  "demo_fd pos = \<lparr>operations_pointer = Some Files_ops, fd_inode = 0, file_position = pos, fd_flags = 1,
     fd_file_name = str ''hi'' @ replicate 30 0\<rparr>"

lemma demo_fd_name: "cstr (arr (fd_file_name (demo_fd p))) (str ''hi'')"
proof -
  have "(0 :: u8) \<notin> set (str ''hi'')" by code_simp
  from cstr_arr [OF this, of "replicate 29 0"] show ?thesis
    by (simp add: demo_fd_def replicate_Suc [symmetric] del: replicate_Suc)
qed

section \<open>Properties\<close>

text \<open>After \<^verbatim>\<open>fs_init\<close> on an image whose header describes at most 63 entries and fits the
  address space, every pointer of the file system points where the image layout says.\<close>

theorem fs_init_sets_up_image:
  assumes "s' = fs_init addrs s"
    and "unat (load32 (mem s) addrs) \<le> 63"
    and "4096 * (1 + unat (load32 (mem s) (addrs + 4)) + unat (load32 (mem s) (addrs + 8))) \<le> 4294967296"
  shows "fs_wf s' \<and> n_dentries (boot_blk s') = load32 (mem s) addrs \<and> mem s' = mem s"
  using assms
  by (simp add: fs_init_def Let_def fs_wf_def image_size_def load_boot_block_def BOOT_BLOCK_SIZE_def BLOCK_SIZE_def)

theorem fs_init_sets_up_image_witness: "fs_wf (fs_init 0x1000 demo_fs)"
  using fs_init_sets_up_image [OF refl, of demo_fs "0x1000"] by (simp add: load32_def demo_mem_def)

text \<open>C29: \<^verbatim>\<open>read_dentry_by_name\<close> finds the first entry with exactly the given name, copies its
  type and inode number, and returns -1 with the dentry untouched when there is none.\<close>

theorem read_dentry_by_name_first_match:
  assumes "cstr fname f" and "directory s names" and "length (file_name d) = 32"
  shows "read_dentry_by_name fname d s =
    (case dir_find names f 0 of
       None \<Rightarrow> Some (-1, d) | Some j \<Rightarrow> Some (0, entry_result f d s j))"
  by (rule read_dentry_finds [OF assms])

theorem read_dentry_by_name_first_match_witness:
  "read_dentry_by_name (lit ''hi'') local_dentry demo_fs
     = Some (0, entry_result (str ''hi'') local_dentry demo_fs 0)"
  using read_dentry_by_name_first_match [OF cstr_hi demo_directory, of local_dentry]
  by (simp add: dir_find_def local_dentry_def)

text \<open>C16: \<^verbatim>\<open>read_data\<close> of a range inside the file copies exactly these bytes, through the
  inode's block list, into the buffer, changes nothing else, and returns the length.\<close>

theorem read_data_copies_range:
  assumes "fs_wf s" "inode_ok n s" "unat offset + unat len \<le> unat (inode_size n s)"
    and "rng buf (unat len) \<inter> image_rng s = {}"
  shows "read_data n offset buf len s
    = (len, s\<lparr>mem := store_bytes (mem s) buf (file_slice s n (unat offset) (unat len))\<rparr>)"
  by (rule read_data_exact [OF assms])

theorem read_data_copies_range_witness:
  "read_data 0 1 0x8000 3 demo_fs
     = (3, demo_fs\<lparr>mem := store_bytes (mem demo_fs) 0x8000 (file_slice demo_fs 0 1 3)\<rparr>)"
  using read_data_copies_range [OF demo_wf demo_inode_ok, of 1 3 "0x8000"] demo_buffer [of 3]
  by simp

text \<open>A read that asks for more than the rest of the file copies one byte too many: the byte
  after the end of the file is stored in the buffer and counted in the result.\<close>

theorem read_data_past_end:
  assumes "fs_wf s" "inode_ok n s" "unat offset < unat (inode_size n s)"
    and "unat (inode_size n s) < unat offset + unat len"
    and "rng buf (unat (inode_size n s) - unat offset + 1) \<inter> image_rng s = {}"
  shows "read_data n offset buf len s
    = (inode_size n s - offset + 1,
       s\<lparr>mem := store_bytes (mem s) buf (file_slice s n (unat offset) (unat (inode_size n s) - unat offset + 1))\<rparr>)"
proof -
  let ?r = "unat (inode_size n s) - unat offset + 1"
  have "?r = min (unat len) ?r" using assms(3,4) unfolding min_def by arith
  from read_data_reads [OF assms(1-3) this assms(5)]
  have "read_data n offset buf len s =
      (of_nat ?r, s\<lparr>mem := store_bytes (mem s) buf (file_slice s n (unat offset) ?r)\<rparr>)" .
  moreover have "(of_nat ?r :: u32) = inode_size n s - offset + 1"
    using assms(3) by (simp add: of_nat_diff)
  ultimately show ?thesis by (simp only:)
qed

theorem read_data_past_end_witness:
  "read_data 0 0 0x8000 100 demo_fs
     = (6, demo_fs\<lparr>mem := store_bytes (mem demo_fs) 0x8000 (file_slice demo_fs 0 0 6)\<rparr>)"
  using read_data_past_end [OF demo_wf demo_inode_ok, of 0 100 "0x8000"] demo_buffer [of 6]
  by simp

text \<open>C27: two consecutive \<^verbatim>\<open>fs_read\<close>s of an open file deliver the bytes that one read of the
  total length delivers, and leave the file position behind both.\<close>

theorem fs_read_consecutive:
  assumes "fs_wf s" and "cstr (arr (fd_file_name fd)) f" "directory s names" "dir_find names f 0 = Some i"
    and "n = dentry_inode i s" "inode_ok n s"
    and "unat (file_position fd) + unat n1 + unat n2 \<le> unat (inode_size n s)"
    and "rng buf (unat n1 + unat n2) \<inter> image_rng s = {}"
  shows "\<exists>fd1 s1. fs_read fd buf n1 s = Some (n1, fd1, s1) \<and>
    fs_read fd1 (buf + n1) n2 s1 = Some (n2, fd\<lparr>file_position := file_position fd + n1 + n2\<rparr>,
      s\<lparr>mem := store_bytes (mem s) buf (file_slice s n (unat (file_position fd)) (unat n1 + unat n2))\<rparr>)"
  by (rule fs_read_twice [OF assms])

theorem fs_read_consecutive_witness:
  "\<exists>fd1 s1. fs_read (demo_fd 0) 0x8000 2 demo_fs = Some (2, fd1, s1) \<and>
    fs_read fd1 0x8002 3 s1 = Some (3, demo_fd 5,
      demo_fs\<lparr>mem := store_bytes (mem demo_fs) 0x8000 (file_slice demo_fs 0 0 5)\<rparr>)"
  using fs_read_consecutive [OF demo_wf demo_fd_name demo_directory, of 0 0 0 2 3 "0x8000"] demo_inode_ok
    demo_buffer [of 5]
  by (simp add: dir_find_def demo_fd_def)

text \<open>C30: reading a directory entry by entry gives the names of all entries in order; the next
  read returns 0 and rewinds, so that the listing starts again.\<close>

theorem dir_read_lists_directory:
  assumes "fs_wf s" and "directory s names" and "rng buf 32 \<inter> image_rng s = {}" and "file_position fd = 0"
  shows "\<exists>m. dir_list (length names) buf fd s = Some (names, fd\<lparr>file_position := of_nat (length names)\<rparr>, s\<lparr>mem := m\<rparr>)
    \<and> dir_read (fd\<lparr>file_position := of_nat (length names)\<rparr>) buf 32 (s\<lparr>mem := m\<rparr>) = Some (0, fd, s\<lparr>mem := m\<rparr>)"
proof -
  obtain m where m: "dir_list (length names) buf fd s = Some (names, fd\<lparr>file_position := of_nat (length names)\<rparr>, s\<lparr>mem := m\<rparr>)"
    "image_same s m"
    using dir_list_names [OF assms(1-3), of fd "length names"] assms(4) by auto
  have "length names \<le> 63" using assms(1,2) by (simp add: fs_wf_def directory_def)
  then have "dir_read (fd\<lparr>file_position := of_nat (length names)\<rparr>) buf 32 (s\<lparr>mem := m\<rparr>)
      = Some (0, fd\<lparr>file_position := 0\<rparr>, s\<lparr>mem := m\<rparr>)"
    using dir_read_end [OF directory_same [OF assms(1,2) m(2)]] by simp
  moreover have "fd\<lparr>file_position := 0\<rparr> = fd" using assms(4) by (cases fd) simp
  ultimately show ?thesis using m(1) by auto
qed

theorem dir_read_lists_directory_witness:
  "\<exists>m. dir_list 1 0x8000 (demo_fd 0) demo_fs = Some ([str ''hi''], demo_fd 1, demo_fs\<lparr>mem := m\<rparr>)"
  using dir_read_lists_directory [OF demo_wf demo_directory, of "0x8000" "demo_fd 0"] demo_buffer [of 32]
  by (auto simp: demo_fd_def)

text \<open>\<^verbatim>\<open>copy_file_to_addr\<close> places the whole file at the address.\<close>

theorem copy_file_to_addr_copies_file:
  assumes "fs_wf s" "cstr fname f" "directory s names" "dir_find names f 0 = Some i"
    and "inode_ok (dentry_inode i s) s"
    and "rng addr (unat (inode_size (dentry_inode i s) s)) \<inter> image_rng s = {}"
  shows "copy_file_to_addr fname addr s = Some (0, s\<lparr>mem := store_bytes (mem s) addr
      (file_slice s (dentry_inode i s) 0 (unat (inode_size (dentry_inode i s) s)))\<rparr>)"
  by (rule copy_file_copies [OF assms])

theorem copy_file_to_addr_copies_file_witness:
  "copy_file_to_addr (lit ''hi'') 0x8000 demo_fs
     = Some (0, demo_fs\<lparr>mem := store_bytes (mem demo_fs) 0x8000 (file_slice demo_fs 0 0 5)\<rparr>)"
  using copy_file_to_addr_copies_file [OF demo_wf cstr_hi demo_directory, of 0 "0x8000"] demo_inode_ok demo_buffer [of 5]
  by (simp add: dir_find_def)

text \<open>Tab completion looks up the first entry that starts with the typed text.\<close>

theorem autocomplete_first_prefix:
  assumes "cstr t xs" and "directory s names"
  shows "autocomplete_command t s = Some
    (case find (\<lambda>j. take (length xs) (names ! j) = xs) [0..<length names] of
       None \<Rightarrow> -1 | Some j \<Rightarrow> dentry_addr j s)"
  using autocomplete_search_finds [OF assms] assms(1) by (simp add: autocomplete_command_def)

theorem autocomplete_first_prefix_witness:
  "autocomplete_command (lit ''h'') demo_fs = Some 0x1040"
proof -
  have "(0 :: u8) \<notin> set (str ''h'')" by code_simp
  from autocomplete_first_prefix [OF cstr_lit [OF this] demo_directory] show ?thesis
    by (simp add: str_def dentry_addr_def)
qed

section \<open>Where the code goes wrong\<close>

text \<open>The byte offset that \<^verbatim>\<open>get_inode\<close> adds is scaled by the size of an inode twice.\<close>

lemma get_inode_double_scaled: "get_inode 1 s - inodes s = 0x1000000" "inodes s + 4096 * 1 - inodes s = 0x1000"
  by (simp_all add: get_inode_def BLOCK_SIZE_def)

text \<open>A failed read moves the file position backwards.\<close>

lemma fs_read_failure_rewinds:
  assumes "cstr (arr (fd_file_name fd)) f" "directory s names" "dir_find names f 0 = Some i"
    and "n_inodes (boot_blk s) \<le> dentry_inode i s"
  shows "fs_read fd buf nbytes s = Some (-1, fd\<lparr>file_position := file_position fd - 1\<rparr>, s)"
  using fs_read_known [OF assms(1-3)] read_data_bad_inode [OF assms(4)] by simp

end
