(* ===== verification/Printf.thy ===== *)
theory Printf
  imports Console Itoa
begin

text \<open>
  \<^verbatim>\<open>printf\<close> of \<^verbatim>\<open>src/lib/lib.c\<close>. The variable arguments are a list: a number, or a pointer
  to a string that the routine reads (an argument of the other kind, or a missing one, is
  undefined behaviour of C and gives \<^const>\<open>None\<close>). The local buffer \<^verbatim>\<open>conv_buf\<close> is a block
  of memory of its own at address 0; \<open>junk\<close> is what it holds before it is written.
\<close>

section \<open>The routine\<close>

datatype printf_arg = Num u32 | Ptr cview

definition conv_puts :: "memory \<Rightarrow> u32 \<Rightarrow> 'a console_scheme \<Rightarrow> 'a console_scheme option" where
  "conv_puts conv_buf p s = map_option snd (puts (view conv_buf p) s)"

definition conv_hex :: "memory \<Rightarrow> u32 \<Rightarrow> 'a console_scheme \<Rightarrow> 'a console_scheme option" where
  "conv_hex junk v s = Option.bind (itoa junk v 0 16) (\<lambda>conv_buf. conv_puts conv_buf 0 s)"

definition conv_hex_alternate :: "memory \<Rightarrow> u32 \<Rightarrow> 'a console_scheme \<Rightarrow> 'a console_scheme option" where
  "conv_hex_alternate junk v s =
     Option.bind (itoa junk v 8 16) (\<lambda>conv_buf.
     Option.bind (strlen (view conv_buf 8)) (\<lambda>starting_index.
       let conv_buf = fold (\<lambda>i m. m(of_nat i := chr CHR ''0'')) [starting_index..<8] conv_buf
       in conv_puts conv_buf (of_nat starting_index) s))"

definition conv_unsigned :: "memory \<Rightarrow> u32 \<Rightarrow> 'a console_scheme \<Rightarrow> 'a console_scheme option" where
  "conv_unsigned junk v s = Option.bind (itoa junk v 0 10) (\<lambda>conv_buf. conv_puts conv_buf 0 s)"

definition conv_signed :: "memory \<Rightarrow> i32 \<Rightarrow> 'a console_scheme \<Rightarrow> 'a console_scheme option" where
  "conv_signed junk v s =
     Option.bind (if v <s 0 then itoa (junk(0 := chr CHR ''-'')) (- v) 1 10 else itoa junk v 0 10)
       (\<lambda>conv_buf. conv_puts conv_buf 0 s)"

text \<open>The inner \<^verbatim>\<open>switch\<close> at \<^verbatim>\<open>format_char_switch\<close>; its \<^verbatim>\<open>goto\<close> is the recursive call.\<close>

partial_function (option) printf_conv ::
  "memory \<Rightarrow> cview \<Rightarrow> nat \<Rightarrow> bool \<Rightarrow> printf_arg list \<Rightarrow> 'a console_scheme
     \<Rightarrow> (nat \<times> printf_arg list \<times> 'a console_scheme) option" where
  "printf_conv junk fmt i alternate args s =
     (let c = fmt i in
      if c = chr CHR ''%'' then Some (i, args, putc c s)
      else if c = chr CHR ''#'' then printf_conv junk fmt (i + 1) True args s
      else if c = chr CHR ''x'' then
        (case args of
           Num v # rest \<Rightarrow> map_option (\<lambda>s. (i, rest, s))
             (if alternate then conv_hex_alternate junk v s else conv_hex junk v s)
         | _ \<Rightarrow> None)
      else if c = chr CHR ''u'' then
        (case args of
           Num v # rest \<Rightarrow> map_option (\<lambda>s. (i, rest, s)) (conv_unsigned junk v s)
         | _ \<Rightarrow> None)
      else if c = chr CHR ''d'' then
        (case args of
           Num v # rest \<Rightarrow> map_option (\<lambda>s. (i, rest, s)) (conv_signed junk v s)
         | _ \<Rightarrow> None)
      else if c = chr CHR ''c'' then
        (case args of
           Num v # rest \<Rightarrow> Some (i, rest, putc (ucast v) s)
         | _ \<Rightarrow> None)
      else if c = chr CHR ''s'' then
        (case args of
           Ptr p # rest \<Rightarrow> map_option (\<lambda>(_, s). (i, rest, s)) (puts p s)
         | _ \<Rightarrow> None)
      else Some (i, args, s))"

partial_function (option) printf_from ::
  "memory \<Rightarrow> cview \<Rightarrow> nat \<Rightarrow> printf_arg list \<Rightarrow> 'a console_scheme
     \<Rightarrow> (nat \<times> 'a console_scheme) option" where
  "printf_from junk fmt i args s =
     (if fmt i = 0 then Some (i, s)
      else if fmt i = chr CHR ''%'' then
        (case printf_conv junk fmt (i + 1) False args s of
           None \<Rightarrow> None
         | Some (i, args, s) \<Rightarrow> printf_from junk fmt (i + 1) args s)
      else printf_from junk fmt (i + 1) args (putc (fmt i) s))"

definition printf ::
  "memory \<Rightarrow> cview \<Rightarrow> printf_arg list \<Rightarrow> 'a console_scheme \<Rightarrow> (nat \<times> 'a console_scheme) option" where
  "printf junk format args s = printf_from junk format 0 args s"

section \<open>The text a format stands for\<close>

datatype text_arg = TNum u32 | TStr "u8 list"

fun denotes :: "printf_arg \<Rightarrow> text_arg \<Rightarrow> bool" where
  "denotes (Num v) (TNum w) = (v = w)"
| "denotes (Ptr p) (TStr xs) = cstr p xs"
| "denotes _ _ = False"

definition hex_text :: "bool \<Rightarrow> u32 \<Rightarrow> u8 list" where
  "hex_text alternate v =
     (let ds = number_text 16 (unat v)
      in if alternate then replicate (8 - length ds) (chr CHR ''0'') @ ds else ds)"

definition signed_text :: "i32 \<Rightarrow> u8 list" where
  "signed_text v =
     (if sint v < 0 then chr CHR ''-'' # number_text 10 (nat (- sint v)) else number_text 10 (nat (sint v)))"

definition conv_text :: "bool \<Rightarrow> u8 \<Rightarrow> text_arg list \<Rightarrow> (u8 list \<times> text_arg list) option" where
  "conv_text alternate c args =
     (if c = chr CHR ''%'' then Some ([c], args)
      else if c \<in> {chr CHR ''x'', chr CHR ''u'', chr CHR ''d'', chr CHR ''c''} then
        (case args of
           TNum v # rest \<Rightarrow>
             Some (if c = chr CHR ''x'' then hex_text alternate v
                   else if c = chr CHR ''u'' then number_text 10 (unat v)
                   else if c = chr CHR ''d'' then signed_text v
                   else [ucast v], rest)
         | _ \<Rightarrow> None)
      else if c = chr CHR ''s'' then
        (case args of TStr xs # rest \<Rightarrow> Some (xs, rest) | _ \<Rightarrow> None)
      else Some ([], args))"

text \<open>\<open>Some alternate\<close> is the state after a \<^verbatim>\<open>%\<close>; a format may not end there.\<close>

fun format_text :: "bool option \<Rightarrow> u8 list \<Rightarrow> text_arg list \<Rightarrow> u8 list option" where
  "format_text None [] args = Some []"
| "format_text (Some alternate) [] args = None"
| "format_text None (c # cs) args =
     (if c = chr CHR ''%'' then format_text (Some False) cs args
      else map_option ((#) c) (format_text None cs args))"
| "format_text (Some alternate) (c # cs) args =
     (if c = chr CHR ''#'' then format_text (Some True) cs args
      else case conv_text alternate c args of
             None \<Rightarrow> None
           | Some (out, rest) \<Rightarrow> map_option ((@) out) (format_text None cs rest))"

section \<open>The conversions\<close>

lemma number_text_nonzero:
  assumes "r \<le> 36" and "1 \<le> r"
  shows "0 \<notin> set (number_text r v)"
proof
  assume "0 \<in> set (number_text r v)"
  then obtain d where "d < r" "digit_char d = 0"
    using assms(2) by (auto simp: number_text_def split: if_splits dest!: digits_lsb_less)
  with assms(1) show False using digit_char_nonzero [of d] by simp
qed

lemma number_text_length:
  assumes "2 \<le> r" and "v < 2 ^ k" and "0 < k"
  shows "length (number_text r v) \<le> k"
  using digits_lsb_length [OF assms(1,2)] assms(3) by (simp add: number_text_def)

lemma number_text_view:
  assumes "2 \<le> r" "r \<le> 36" and "v < 4294967296"
  shows "cstr (view (store_bytes m p (number_text r v @ [0])) p) (number_text r v)"
proof -
  have "length (number_text r v) \<le> 32" using assms by (intro number_text_length) simp_all
  then show ?thesis using assms by (intro cstr_store_bytes number_text_nonzero) simp_all
qed

lemma conv_puts_cstr:
  "cstr (view m p) xs \<Longrightarrow> conv_puts m p s = Some (fold putc xs s)"
  by (simp add: conv_puts_def puts_cstr)

lemma conv_hex_prints: "conv_hex junk v s = Some (fold putc (hex_text False v) s)"
  using number_text_view [of 16 "unat v" junk 0] unat_lt32 [of v]
  by (simp add: conv_hex_def itoa_writes hex_text_def conv_puts_cstr)

lemma conv_unsigned_prints: "conv_unsigned junk v s = Some (fold putc (number_text 10 (unat v)) s)"
  using number_text_view [of 10 "unat v" junk 0] unat_lt32 [of v]
  by (simp add: conv_unsigned_def itoa_writes conv_puts_cstr)

lemma nat_minus_sint:
  assumes "sint (v :: i32) < 0"
  shows "nat (- sint v) = unat (- v)"
proof -
  have r: "- 2147483648 \<le> sint v" using sint_greater_eq [of v] by simp
  have "uint (- v) = (- sint v) mod 4294967296"
    using uint_word_of_int [of "- sint v", where 'a = 32] by simp
  also have "\<dots> = - sint v" using assms r by simp
  finally show ?thesis by (simp add: unat_eq_nat_uint)
qed

lemma nat_sint:
  assumes "0 \<le> sint (v :: i32)"
  shows "nat (sint v) = unat v"
proof -
  have r: "sint v < 2147483648" using sint_less [of v] by simp
  have "uint v = sint v mod 4294967296" 
    using uint_word_of_int [of "sint v", where 'a = 32] by simp
  also have "\<dots> = sint v" using assms r by simp
  finally show ?thesis by (simp add: unat_eq_nat_uint)
qed

lemma cstr_Cons: "v 0 = x \<Longrightarrow> x \<noteq> 0 \<Longrightarrow> cstr (\<lambda>i. v (Suc i)) xs \<Longrightarrow> cstr v (x # xs)"
  by (auto simp: cstr_def nth_Cons split: nat.split)

lemma cstr_ConsD:
  "cstr v (x # xs) \<Longrightarrow> v 0 = x \<and> x \<noteq> 0 \<and> cstr (\<lambda>i. v (Suc i)) xs"
  by (simp add: cstr_def All_less_Suc2)

lemma conv_signed_prints: "conv_signed junk v s = Some (fold putc (signed_text v) s)"
proof (cases "sint v < 0")
  case True
  let ?ds = "number_text 10 (unat (- v))" and ?m = "junk(0 := chr CHR ''-'')"
  let ?m' = "store_bytes ?m 1 (?ds @ [0])"
  have d: "cstr (view ?m' 1) ?ds"
    using unat_lt32 by (intro number_text_view) simp_all
  have "length ?ds \<le> 32" using unat_lt32 by (intro number_text_length) simp_all
  then have "?m' 0 = chr CHR ''-''"
    by (subst store_bytes_outside) (simp_all add: unsigned_minus_1_eq_mask mask_eq_exp_minus_1)
  moreover have "chr CHR ''-'' \<noteq> 0" by code_simp
  ultimately have "cstr (view ?m' 0) (chr CHR ''-'' # ?ds)"
    using d by (intro cstr_Cons) (simp_all add: view_def [abs_def])
  with True show ?thesis
    by (simp add: conv_signed_def word_sless_alt itoa_writes conv_puts_cstr signed_text_def nat_minus_sint)
next
  case False
  then show ?thesis
    using number_text_view [of 10 "unat v" junk 0] unat_lt32 [of v]
    by (simp add: conv_signed_def word_sless_alt itoa_writes conv_puts_cstr signed_text_def nat_sint)
qed

lemma hex_text_length: "length (number_text 16 (unat (v :: u32))) \<le> 8"
  using digits_lsb_length_base [of 16 "unat v" 8] unat_lt32 [of v] by (simp add: number_text_def)

lemma store_bytes_commute:
  assumes "rng a (length xs) \<inter> rng b (length ys) = {}" and "length xs \<le> 4294967296" "length ys \<le> 4294967296"
  shows "store_bytes (store_bytes m a xs) b ys = store_bytes (store_bytes m b ys) a xs"
proof (rule ext)
  fix x
  have "x \<notin> rng a (length xs) \<or> x \<notin> rng b (length ys)" using assms(1) by blast
  then show "store_bytes (store_bytes m a xs) b ys x = store_bytes (store_bytes m b ys) a xs x"
    using assms(2,3) by (auto simp: store_bytes_apply)
qed

lemma fill_store_bytes:
  "fold (\<lambda>i m. m(of_nat i := c)) [n..<n + k] m = store_bytes m (of_nat n) (replicate k c)"
proof (induction k)
  case (Suc k)
  have "fold (\<lambda>i m. m(of_nat i := c)) [n..<n + Suc k] m
      = (fold (\<lambda>i m. m(of_nat i := c)) [n..<n + k] m)(of_nat (n + k) := c)"
    by (simp only: add_Suc_right upt_Suc le_add1 if_True fold_append o_apply fold.simps id_apply)
  also have "\<dots> = store_bytes m (of_nat n) (replicate k c @ [c])"
    by (simp only: Suc.IH store_bytes_append store_bytes.simps length_replicate of_nat_add)
  finally show ?case by (simp only: replicate_append_same replicate_Suc)
qed simp

lemma conv_hex_alternate_prints: "conv_hex_alternate junk v s = Some (fold putc (hex_text True v) s)"
proof -
  define ds where "ds = number_text 16 (unat v)"
  define k where "k = 8 - length ds"
  let ?zs = "replicate k (chr CHR ''0'')" and ?p = "of_nat (length ds) :: u32"
  have len: "length ds \<le> 8" using hex_text_length by (simp add: ds_def)
  then have k8: "length ds + k = 8" by (simp add: k_def)
  have itoa: "itoa junk v 8 16 = Some (store_bytes junk 8 (ds @ [0]))"
    by (simp add: itoa_writes ds_def)
  have start: "strlen (view (store_bytes junk 8 (ds @ [0])) 8) = Some (length ds)"
    unfolding ds_def using unat_lt32 by (intro strlen_cstr number_text_view) simp_all
  have p8: "?p + of_nat k = 8" using k8 by (metis of_nat_add of_nat_numeral)
  have "rng 8 (length (ds @ [0])) \<inter> rng ?p k = {}"
    using k8 rng_disjoint [of ?p k 8 "length ds + 1"] by auto
  then have "store_bytes (store_bytes junk 8 (ds @ [0])) ?p ?zs = store_bytes junk ?p ((?zs @ ds) @ [0])"
    using len p8 k_def by (subst store_bytes_commute) (simp_all add: store_bytes_append)
  moreover have "cstr (view (store_bytes junk ?p ((?zs @ ds) @ [0])) ?p) (?zs @ ds)"
  proof (rule cstr_store_bytes)
    have "chr CHR ''0'' \<noteq> 0" by code_simp
    then show "0 \<notin> set (?zs @ ds)" using number_text_nonzero [of 16] by (auto simp: ds_def)
  qed (use k8 in simp)
  ultimately show ?thesis
    using itoa start fill_store_bytes [of "chr CHR ''0''" "length ds" k] k8
    by (simp add: conv_hex_alternate_def conv_puts_cstr hex_text_def Let_def k_def ds_def)
qed


section \<open>The routine prints that text\<close>

lemmas conv_prints = conv_hex_prints conv_hex_alternate_prints conv_unsigned_prints conv_signed_prints

lemma conv_chars_distinct:
  "distinct [chr CHR ''%'', chr CHR ''#'', chr CHR ''x'', chr CHR ''u'', chr CHR ''d'', chr CHR ''c'', chr CHR ''s'', 0]"
  by code_simp

lemma printf_conv_alternate:
  "fmt i = chr CHR ''#'' \<Longrightarrow>
     printf_conv junk fmt i alternate args s = printf_conv junk fmt (i + 1) True args s"
  using conv_chars_distinct by (subst printf_conv.simps) (auto simp: Let_def)

lemma printf_conv_prints:
  assumes "fmt i \<noteq> chr CHR ''#''" and "conv_text alternate (fmt i) targs = Some (out, rest)"
    and "list_all2 denotes args targs"
  shows "\<exists>args'. printf_conv junk fmt i alternate args s = Some (i, args', fold putc out s) \<and> list_all2 denotes args' rest"
proof -
  have num: "\<exists>args'. args = Num v # args' \<and> list_all2 denotes args' targs'" if "targs = TNum v # targs'" for v targs'
    using assms(3) that by (auto simp: list_all2_Cons2 elim: denotes.elims)
  have strp: "\<exists>p args'. args = Ptr p # args' \<and> cstr p xs \<and> list_all2 denotes args' targs'"
    if "targs = TStr xs # targs'" for xs targs'
    using assms(3) that by (auto simp: list_all2_Cons2 elim: denotes.elims)
  show ?thesis
    using assms(1,2) conv_chars_distinct assms(3)
    by (subst printf_conv.simps)
       (auto simp: conv_text_def Let_def conv_prints puts_cstr split: if_splits list.splits text_arg.splits
         dest!: num strp)
qed

lemma printf_from_prints:
  assumes "format_text mode cs targs = Some out" and "list_all2 denotes args targs"
    and "cstr (\<lambda>k. fmt (i + k)) cs"
  shows "case mode of
      None \<Rightarrow> printf_from junk fmt i args s = Some (i + length cs, fold putc out s)
    | Some alternate \<Rightarrow>
       (case printf_conv junk fmt i alternate args s of None \<Rightarrow> None
        | Some (i, args, s) \<Rightarrow> printf_from junk fmt (i + 1) args s) = Some (i + length cs, fold putc out s)"
  using assms
proof (induction mode cs targs arbitrary: out args i s rule: format_text.induct)
  case (1 args)
  then show ?case by (subst printf_from.simps) (simp add: cstr_def)
next
  case (2 alternate args)
  then show ?case by simp
next
  case (3 c cs targs)
  have c: "fmt i = c" "c \<noteq> 0" and tl: "cstr (\<lambda>k. fmt (Suc i + k)) cs"
    using cstr_ConsD [OF 3(5)] by simp_all
  show ?case
  proof (cases "c = chr CHR ''%''")
    case True
    then show ?thesis
      using "3.IH"(1) [OF True _ 3(4) tl] 3(3) c by (subst printf_from.simps) simp
  next
    case False
    then obtain out' where out: "format_text None cs targs = Some out'" "out = c # out'"
      using 3(3) by auto
    show ?thesis
      using "3.IH"(2) [OF False out(1) 3(4) tl] c False out by (subst printf_from.simps) simp
  qed
next
  case (4 alternate c cs targs)
  have c: "fmt i = c" and tl: "cstr (\<lambda>k. fmt (Suc i + k)) cs"
    using cstr_ConsD [OF 4(5)] by simp_all
  show ?case
  proof (cases "c = chr CHR ''#''")
    case True
    then show ?thesis
      using "4.IH"(1) [OF True _ 4(4) tl] 4(3) c by (simp add: printf_conv_alternate)
  next
    case False
    then obtain o1 rest o2 where o: "conv_text alternate c targs = Some (o1, rest)"
      "format_text None cs rest = Some o2" "out = o1 @ o2"
      using 4(3) by (auto split: option.splits)
    then obtain args' where a: "printf_conv junk fmt i alternate args s = Some (i, args', fold putc o1 s)"
      "list_all2 denotes args' rest"
      using printf_conv_prints [of fmt i alternate targs o1 rest args junk s] c False 4(4) by auto
    show ?thesis
      using "4.IH"(2) [OF False o(1) refl o(2) a(2) tl] a(1) o(3) by simp
  qed
qed

lemma printf_prints:
  assumes "cstr fmt cs" and "format_text None cs targs = Some out" and "list_all2 denotes args targs"
  shows "printf junk fmt args s = Some (length cs, fold putc out s)"
  using printf_from_prints [OF assms(2,3), of fmt 0] assms(1) by (simp add: printf_def)

lemma printf_returns:
  assumes "cstr fmt cs" and "format_text None cs targs = Some out" and "list_all2 denotes args targs"
  shows "\<exists>s'. printf junk fmt args s = Some (length cs, s') \<and> console_frame s s'"
  using printf_prints [OF assms, of junk s] putc_run_frame by blast

section \<open>Properties\<close>

text \<open>C24: \<^verbatim>\<open>printf\<close> prints the text that its format stands for: literal characters, the numbers in
  decimal (signed and unsigned) and hexadecimal, eight digits wide with \<^verbatim>\<open>%#x\<close>, characters and
  strings, consuming its arguments in order; it does not depend on what its stack buffer held.\<close>

theorem printf_prints_format:
  assumes "cursor_ok s" and "cstr fmt cs" and "format_text None cs targs = Some out" and "list_all2 denotes args targs"
  shows "\<exists>s'. printf junk fmt args s = Some (length cs, s') \<and> abs_screen s' = fold spec_putc out (abs_screen s)
    \<and> cursor_ok s' \<and> console_step s s'"
  using printf_prints [OF assms(2-4), of junk s] putc_run_refines [OF assms(1), of out] putc_run [OF assms(1), of out]
  by blast

theorem printf_prints_format_witness:
  "\<forall>junk. \<exists>s'. printf junk (arr [37, 35, 120, 33, 0]) [Num 48879] demo_console = Some (4, s') \<and>
     abs_screen s' = fold spec_putc (str ''0000BEEF!'') (abs_screen demo_console)"
proof -
  have c: "chr CHR ''%'' = 37" "chr CHR ''#'' = 35" "chr CHR ''x'' = 120" "chr CHR ''0'' = 48" by code_simp+
  have "map digit_char [11, 14, 14, 15] = str ''BEEF''" by code_simp
  moreover have r4: "replicate 4 (48 :: u8) = [48, 48, 48, 48]" by code_simp
  moreover have "digits_lsb 16 48879 = [15, 14, 14, 11]" by (simp add: digits_lsb.simps)
  ultimately have "hex_text True 48879 = [48, 48, 48, 48] @ str ''BEEF''"
    using r4 by (simp add: hex_text_def number_text_def c)
  moreover have "[48, 48, 48, 48] @ str ''BEEF'' @ [33] = str ''0000BEEF!''" by code_simp
  ultimately have t: "format_text None [37, 35, 120, 33] [TNum 48879] = Some (str ''0000BEEF!'')"
    by (simp add: c conv_text_def)
  have "cstr (arr [37, 35, 120, 33, 0]) [37, 35, 120, 33]"
    using cstr_arr [of "[37, 35, 120, 33]" "[]"] by simp
  from printf_prints_format [OF demo_console_ok this t, of "[Num 48879]"] show ?thesis
    by (auto simp: eval_nat_numeral)
qed

end
