(* ===== verification/I8259.thy ===== *)
theory I8259
  imports Machine
begin

text \<open>
  The driver of the two cascaded 8259 interrupt controllers, \<^verbatim>\<open>src/drivers/i8259.c\<close>. The
  controllers are behind their ports: the mask that \<^verbatim>\<open>inb\<close> reads is what the device
  answers, what the driver does is in the trace of bytes written.
\<close>

definition MASTER_8259_PORT :: u16 where "MASTER_8259_PORT = 0x20"

definition SLAVE_8259_PORT :: u16 where "SLAVE_8259_PORT = 0xA0"

definition MASTER_8259_PORT_2 :: u16 where "MASTER_8259_PORT_2 = 0x21"

definition SLAVE_8259_PORT_2 :: u16 where "SLAVE_8259_PORT_2 = 0xA1"

definition EOI :: u32 where "EOI = 0x60"

lemmas pic_port_defs = MASTER_8259_PORT_def SLAVE_8259_PORT_def MASTER_8259_PORT_2_def SLAVE_8259_PORT_2_def EOI_def

definition i8259_init :: "'a machine_scheme \<Rightarrow> 'a machine_scheme" where
  "i8259_init s =
     (let s = outb 0x11 MASTER_8259_PORT s;
          s = outb 0x11 SLAVE_8259_PORT s;
          s = outb 0x20 MASTER_8259_PORT_2 s;
          s = outb 0x28 SLAVE_8259_PORT_2 s;
          s = outb 0x04 MASTER_8259_PORT_2 s;
          s = outb 0x02 SLAVE_8259_PORT_2 s;
          s = outb 0x05 MASTER_8259_PORT_2 s;
          s = outb 0x01 SLAVE_8259_PORT_2 s;
          s = outb 0xFF MASTER_8259_PORT_2 s
      in outb 0xFF SLAVE_8259_PORT_2 s)"

text \<open>\<^verbatim>\<open>1 << n\<close>: the i386 shift takes its count modulo 32.\<close>

definition shl1 :: "u32 \<Rightarrow> u32" where
  "shl1 n = push_bit (unat n mod 32) 1"

definition enable_irq :: "u32 \<Rightarrow> 'a machine_scheme \<Rightarrow> 'a machine_scheme" where
  "enable_irq irq_num s =
     (let (flags, s) = cli_and_save s;
          s = (if irq_num AND 8 \<noteq> 0 then
                 let irq_num = irq_num - 8;
                     mask = NOT (shl1 irq_num);
                     (v, s) = inb SLAVE_8259_PORT_2 s
                 in outb (ucast (ucast v AND mask)) SLAVE_8259_PORT_2 s
               else
                 let mask = NOT (shl1 irq_num);
                     (v, s) = inb MASTER_8259_PORT_2 s
                 in outb (ucast (ucast v AND mask)) MASTER_8259_PORT_2 s)
      in restore_flags flags s)"

definition disable_irq :: "u32 \<Rightarrow> 'a machine_scheme \<Rightarrow> 'a machine_scheme" where
  "disable_irq irq_num s =
     (let (flags, s) = cli_and_save s;
          s = (if irq_num AND 8 \<noteq> 0 then
                 let irq_num = irq_num - 8;
                     mask = shl1 irq_num;
                     (v, s) = inb SLAVE_8259_PORT_2 s
                 in outb (ucast (ucast v OR mask)) SLAVE_8259_PORT_2 s
               else
                 let mask = shl1 irq_num;
                     (v, s) = inb MASTER_8259_PORT_2 s
                 in outb (ucast (ucast v OR mask)) MASTER_8259_PORT_2 s)
      in restore_flags flags s)"

definition send_eoi :: "u32 \<Rightarrow> 'a machine_scheme \<Rightarrow> 'a machine_scheme" where
  "send_eoi irq_num s =
     (if irq_num AND 8 \<noteq> 0 then
        let s = outb (ucast (EOI OR (irq_num - 8))) SLAVE_8259_PORT s
        in outb (ucast (EOI + 2)) MASTER_8259_PORT s
      else outb (ucast (EOI OR irq_num)) MASTER_8259_PORT s)"

section \<open>Which line an access is about\<close>

text \<open>The data port and the bit of an interrupt line, by the wiring of the two controllers.\<close>

definition line_port :: "nat \<Rightarrow> u16" where
  "line_port irq = (if irq < 8 then MASTER_8259_PORT_2 else SLAVE_8259_PORT_2)"

lemma shl1_bit: "n < 8 \<Longrightarrow> bit (shl1 (of_nat n)) k \<longleftrightarrow> k = n"
  by (auto simp: shl1_def bit_simps bit_1_iff)

lemma irq_split:
  assumes "irq < 16"
  shows "(of_nat irq :: u32) AND 8 \<noteq> 0 \<longleftrightarrow> 8 \<le> irq"
    and "8 \<le> irq \<Longrightarrow> (of_nat irq :: u32) - 8 = of_nat (irq mod 8)"
proof -
  have "irq \<in> set [0..<16]" using assms by simp
  moreover have "\<forall>i\<in>set [0..<16]. ((of_nat i :: u32) AND 8 \<noteq> 0) = (8 \<le> i)"
    by code_simp
  ultimately show "(of_nat irq :: u32) AND 8 \<noteq> 0 \<longleftrightarrow> 8 \<le> irq" by blast
  assume "8 \<le> irq"
  then have "irq = irq mod 8 + 8" using assms by presburger
  then show "(of_nat irq :: u32) - 8 = of_nat (irq mod 8)" by (metis add_diff_cancel_right' of_nat_add of_nat_numeral)
qed

lemma restore_saved:
  "restore_flags (int_flag s) (outb v p (snd (inb q (snd (cli_and_save s)))))
     = s\<lparr>in_count := Suc (in_count s), port_out := port_out s @ [(p, v)]\<rparr>"
  by (simp add: restore_flags_def outb_def inb_def cli_and_save_def)

lemma enable_irq_effect:
  fixes s :: "'a machine_scheme"
  assumes "irq < 16"
  defines "old \<equiv> port_in s (in_count s) (line_port irq)"
  shows "\<exists>v. enable_irq (of_nat irq) s = s\<lparr>in_count := Suc (in_count s), port_out := port_out s @ [(line_port irq, v)]\<rparr>
    \<and> (\<forall>n<8. bit v n \<longleftrightarrow> bit old n \<and> n \<noteq> irq mod 8)"
proof -
  let ?v = "ucast (ucast old AND NOT (shl1 (of_nat (irq mod 8)))) :: u8"
  have "(if 8 \<le> irq then irq - 8 else irq) = irq mod 8" using assms(1) by (auto simp: mod_if)
  then have "enable_irq (of_nat irq) s = s\<lparr>in_count := Suc (in_count s), port_out := port_out s @ [(line_port irq, ?v)]\<rparr>"
    using irq_split [OF assms(1)] by (auto simp: enable_irq_def Let_def cli_and_save_def inb_def
      outb_def restore_flags_def old_def line_port_def split: if_splits)
  moreover have "\<forall>n<8. bit ?v n \<longleftrightarrow> bit old n \<and> n \<noteq> irq mod 8"
    by (auto simp: bit_simps shl1_bit)
  ultimately show ?thesis by blast
qed

lemma disable_irq_effect:
  fixes s :: "'a machine_scheme"
  assumes "irq < 16"
  defines "old \<equiv> port_in s (in_count s) (line_port irq)"
  shows "\<exists>v. disable_irq (of_nat irq) s = s\<lparr>in_count := Suc (in_count s), port_out := port_out s @ [(line_port irq, v)]\<rparr>
    \<and> (\<forall>n<8. bit v n \<longleftrightarrow> bit old n \<or> n = irq mod 8)"
proof -
  let ?v = "ucast (ucast old OR shl1 (of_nat (irq mod 8))) :: u8"
  have "(if 8 \<le> irq then irq - 8 else irq) = irq mod 8" using assms(1) by (auto simp: mod_if)
  then have "disable_irq (of_nat irq) s = s\<lparr>in_count := Suc (in_count s), port_out := port_out s @ [(line_port irq, ?v)]\<rparr>"
    using irq_split [OF assms(1)] by (auto simp: disable_irq_def Let_def cli_and_save_def inb_def
      outb_def restore_flags_def old_def line_port_def split: if_splits)
  moreover have "\<forall>n<8. bit ?v n \<longleftrightarrow> bit old n \<or> n = irq mod 8"
    by (auto simp: bit_simps shl1_bit)
  ultimately show ?thesis by blast
qed

text \<open>
  The end of interrupt of a slave line is two bytes: the specific EOI of the line to the
  slave and the specific EOI of the cascade line 2 to the master.
\<close>

lemma send_eoi_effect:
  assumes "irq < 16"
  shows "send_eoi (of_nat irq) s = s\<lparr>port_out := port_out s @
    (if irq < 8 then [(0x20, 0x60 + of_nat irq)] else [(0xA0, 0x60 + of_nat (irq - 8)), (0x20, 0x62)])\<rparr>"
proof -
  have "irq \<in> set [0..<16]" using assms by simp
  moreover have "\<forall>i\<in>set [0..<16]. (if 8 \<le> i then ucast ((0x60 :: u32) OR (of_nat i - 8)) = (0x60 + of_nat (i - 8) :: u8)
      else ucast ((0x60 :: u32) OR of_nat i) = (0x60 + of_nat i :: u8))"
    by code_simp
  ultimately have "if 8 \<le> irq then ucast ((0x60 :: u32) OR (of_nat irq - 8)) = (0x60 + of_nat (irq - 8) :: u8)
      else ucast ((0x60 :: u32) OR of_nat irq) = (0x60 + of_nat irq :: u8)" by blast
  then show ?thesis
    using irq_split(1) [OF assms] by (auto simp: send_eoi_def pic_port_defs outb_def)
qed

section \<open>Properties\<close>

text \<open>Unmasking a line writes back the mask that was read, to the controller that has the
  line, with exactly that line's bit cleared, and masking it with exactly that bit set; the
  interrupt flag is as before and nothing else changes.\<close>

theorem irq_mask_updates_one_line:
  fixes s :: "'a machine_scheme"
  assumes "irq < 16" and "old = port_in s (in_count s) (line_port irq)"
  shows "(\<exists>v. enable_irq (of_nat irq) s = s\<lparr>in_count := Suc (in_count s), port_out := port_out s @ [(line_port irq, v)]\<rparr>
        \<and> (\<forall>n<8. bit v n \<longleftrightarrow> bit old n \<and> n \<noteq> irq mod 8))
    \<and> (\<exists>v. disable_irq (of_nat irq) s = s\<lparr>in_count := Suc (in_count s), port_out := port_out s @ [(line_port irq, v)]\<rparr>
        \<and> (\<forall>n<8. bit v n \<longleftrightarrow> bit old n \<or> n = irq mod 8))"
  using enable_irq_effect [OF assms(1), of s] disable_irq_effect [OF assms(1), of s] assms(2) by simp

definition demo_machine :: machine where
  "demo_machine = \<lparr>mem = \<lambda>_. 0, port_in = \<lambda>_ _. 0xFF, in_count = 0, port_out = [], int_flag = True\<rparr>"

theorem irq_mask_updates_one_line_witness:
  "\<exists>v. enable_irq 12 demo_machine = demo_machine\<lparr>in_count := 1, port_out := [(0xA1, v)]\<rparr> \<and> \<not> bit v 4 \<and> bit v 5"
proof -
  have "bit (0xFF :: u8) 5" by simp
  then show ?thesis
    using irq_mask_updates_one_line [of 12 "0xFF" demo_machine]
    by (auto simp: demo_machine_def line_port_def SLAVE_8259_PORT_2_def)
qed

text \<open>The end of interrupt goes to the controller that has the line, as the specific EOI of
  the line; a line of the slave is also acknowledged at the master, as cascade line 2.\<close>

theorem send_eoi_acknowledges_line:
  assumes "irq < 16"
  shows "send_eoi (of_nat irq) s = s\<lparr>port_out := port_out s @
    (if irq < 8 then [(0x20, 0x60 + of_nat irq)] else [(0xA0, 0x60 + of_nat (irq - 8)), (0x20, 0x62)])\<rparr>"
  by (rule send_eoi_effect [OF assms])

theorem send_eoi_acknowledges_line_witness:
  "send_eoi 8 demo_machine = demo_machine\<lparr>port_out := [(0xA0, 0x60), (0x20, 0x62)]\<rparr>"
  using send_eoi_acknowledges_line [of 8 demo_machine] by (simp add: demo_machine_def)

end
