(* ===== verification/Fmath.thy ===== *)
theory Fmath
  imports Complex_Main Prelude
begin

text \<open>
  The floating point helpers of \<^verbatim>\<open>src/lib/math.c\<close>. A \<^verbatim>\<open>float\<close> is its bit pattern where the
  source looks at the bits and its rational value otherwise. The rounding of the FPU is not
  code of the repository: it is the parameter \<open>rnd\<close> of the definitions, a function that is
  applied to every arithmetic result, and \<open>float_rounding\<close> states what IEEE 754 single
  precision (or anything more precise) guarantees of it. The decimal constants of the
  source are the fractions that single precision rounds them to.
\<close>

definition float_rounding :: "(rat \<Rightarrow> rat) \<Rightarrow> bool" where
  "float_rounding rnd \<longleftrightarrow> (\<forall>x. \<bar>rnd x - x\<bar> \<le> \<bar>x\<bar> / 16777216) \<and>
     (\<forall>n m. \<bar>n\<bar> \<le> 16777216 \<and> m \<le> 126 \<longrightarrow>
        rnd (of_int n / 2 ^ m) = of_int n / 2 ^ m \<and> rnd (of_int n * 2 ^ m) = of_int n * 2 ^ m)"

text \<open>The value of a bit pattern (infinities and NaNs are not used).\<close>

definition float_value :: "u32 \<Rightarrow> rat" where
  "float_value w =
     (let e = unat (drop_bit 23 w AND 0xFF); f = unat (w AND 0x007FFFFF);
          v = (if e = 0 then of_nat f / 2 ^ 149 else of_nat (8388608 + f) * 2 ^ e / 2 ^ 150)
      in if bit w 31 then - v else v)"

fun ilog2 :: "nat \<Rightarrow> nat" where
  "ilog2 n = (if n < 2 then 0 else Suc (ilog2 (n div 2)))"

declare ilog2.simps [simp del]

text \<open>The conversion of an \<^verbatim>\<open>int\<close> of at most 24 significant bits, which is exact.\<close>

definition float_of_int32 :: "int \<Rightarrow> u32" where
  "float_of_int32 n =
     (if n = 0 then 0
      else let a = nat \<bar>n\<bar>; e = ilog2 a
           in (if n < 0 then 0x80000000 else 0) + of_nat (127 + e) * 0x800000
              + of_nat ((a - 2 ^ e) * 2 ^ 23 div 2 ^ e))"

definition trunc :: "rat \<Rightarrow> int" where
  "trunc x = (if x \<ge> 0 then \<lfloor>x\<rfloor> else \<lceil>x\<rceil>)"

definition logBase2 :: "(rat \<Rightarrow> rat) \<Rightarrow> u32 \<Rightarrow> rat" where
  "logBase2 rnd vx =
     (let mx = (vx AND 0x007FFFFF) OR 0x3f000000;
          y = rnd (of_nat (unat vx));
          y = rnd (y * (1 / 8388608))
      in rnd (rnd (rnd (y - 16282487 / 131072) - rnd (12566389 / 8388608 * float_value mx))
              - rnd (14477731 / 8388608 / rnd (11814137 / 33554432 + float_value mx))))"

definition log_f :: "(rat \<Rightarrow> rat) \<Rightarrow> u32 \<Rightarrow> rat" where
  "log_f rnd x = rnd (1453635 / 2097152 * logBase2 rnd x)"

definition ceil_f :: "rat \<Rightarrow> int" where
  "ceil_f x = (if x < 0 then trunc x else trunc x + 1)"

definition floor_f :: "rat \<Rightarrow> int" where
  "floor_f x = (if x \<ge> 0 then trunc x else trunc x - 1)"

section \<open>Correctness\<close>

lemma float_rounding_id: "float_rounding (\<lambda>x. x)"
  by (simp add: float_rounding_def)

text \<open>
  On a non-integral value both roundings are right when it is positive; an integer is
  rounded up to the next one, and a negative value is truncated.
\<close>

lemma trunc_between: "of_int n \<le> x \<Longrightarrow> x < of_int n + 1 \<Longrightarrow> 0 \<le> n \<Longrightarrow> trunc x = n"
  by (simp add: trunc_def floor_unique of_int_nonneg order_trans [of 0 "of_int n"])

lemma floor_f_nonneg: "0 \<le> x \<Longrightarrow> floor_f x = \<lfloor>x\<rfloor>"
  by (simp add: floor_f_def trunc_def)

lemma ceil_f_fraction: "0 \<le> x \<Longrightarrow> x \<notin> \<int> \<Longrightarrow> ceil_f x = \<lceil>x\<rceil>"
  by (simp add: ceil_f_def trunc_def ceiling_altdef) (metis Ints_of_int)

lemma ceil_f_integer: "0 \<le> n \<Longrightarrow> ceil_f (of_int n) = n + 1"
  by (simp add: ceil_f_def trunc_def)

text \<open>The bits of a power of two: its exponent, and a mantissa of 0.\<close>

lemma ilog2_power: "ilog2 (2 ^ k) = k"
proof (induction k)
  case 0
  then show ?case by (subst ilog2.simps) simp
next
  case (Suc k)
  have "\<not> 2 ^ Suc k < (2 :: nat)" "2 ^ Suc k div 2 = (2 ^ k :: nat)" by simp_all
  with Suc show ?case by (subst ilog2.simps) simp
qed

lemma float_of_power: "float_of_int32 (2 ^ k) = of_nat ((127 + k) * 8388608)"
  by (simp add: float_of_int32_def Let_def nat_power_eq ilog2_power)

lemma float_of_power_mantissa:
  "(float_of_int32 (2 ^ k) AND 0x007FFFFF) OR 0x3f000000 = (0x3f000000 :: u32)"
proof -
  have "float_of_int32 (2 ^ k) = push_bit 23 (of_nat (127 + k))"
    by (simp add: float_of_power push_bit_eq_mult)
  moreover have "(0x007FFFFF :: u32) = mask 23" by (simp add: mask_eq_exp_minus_1)
  moreover have "push_bit 23 w AND mask 23 = 0" for w :: u32
    by (rule bit_word_eqI) (auto simp: bit_push_bit_iff bit_and_iff bit_mask_iff)
  ultimately show ?thesis by simp
qed

lemma float_value_half: "float_value 0x3f000000 = 1 / 2"
  by (simp add: float_value_def Let_def)


text \<open>The rounded operations of \<^verbatim>\<open>logBase2\<close> on a power of two; those before the last four are exact.\<close>

lemma logBase2_formula:
  assumes "float_rounding rnd" and "1 \<le> k" "k \<le> 10"
  shows "logBase2 rnd (float_of_int32 (2 ^ k)) =
    rnd (rnd (of_nat k + 33981707 / 16777216) - rnd (14477731 / 8388608 / rnd (28591353 / 33554432)))"
proof -
  have exact: "rnd (of_int n / 2 ^ m) = of_int n / 2 ^ m" "rnd (of_int n * 2 ^ m) = of_int n * 2 ^ m" if "\<bar>n\<bar> \<le> 16777216" "m \<le> 126" for n m
    using assms(1) that unfolding float_rounding_def by blast+
  define K where "K = (of_nat k :: rat)"
  have bits: "unat (of_nat ((127 + k) * 8388608) :: u32) = (127 + k) * 8388608"
    using assms(3) by (intro unat_of_nat32) simp
  have y1: "rnd (of_nat ((127 + k) * 8388608)) = of_nat ((127 + k) * 8388608)"
    using exact(2) [of "int (127 + k)" 23] assms(3) by simp
  have scale: "of_nat ((127 + k) * 8388608) * (1 / 8388608) = K + 127" by (simp add: K_def)
  have y2: "rnd (of_nat ((127 + k) * 8388608) * (1 / 8388608)) = K + 127"
    unfolding scale using exact(1) [of "int (127 + k)" 0] assms(3) by (simp add: K_def add.commute)
  have y3: "rnd (K + 127 - 16282487 / 131072) = K + 127 - 16282487 / 131072"
    using exact(1) [of "(int k + 127) * 131072 - 16282487" 17] assms(2,3) by (simp add: K_def field_simps)
  have t1: "rnd (12566389 / 8388608 * (1 / 2)) = 12566389 / 16777216"
    using exact(1) [of 12566389 24] by simp
  have c: "K + 127 - 16282487 / 131072 - 12566389 / 16777216 = K + 33981707 / 16777216"
    "(11814137 / 33554432 + 1 / 2 :: rat) = 28591353 / 33554432" by simp_all
  show ?thesis
    unfolding logBase2_def Let_def float_of_power_mantissa
    unfolding float_value_half float_of_power bits y1 y2 y3 t1 c by (simp add: K_def)
qed

lemma logBase2_power:
  assumes "float_rounding rnd" and "1 \<le> k" "k \<le> 10"
  defines "v \<equiv> logBase2 rnd (float_of_int32 (2 ^ k))"
  shows "of_nat k - 1 / 100 < v" and "v < of_nat k" and "of_nat (10 * k) - 1 < rnd (v * 10)" and "rnd (v * 10) < of_nat (10 * k)"
proof -
  have err: "\<bar>rnd x - x\<bar> \<le> \<bar>x\<bar> / 16777216" for x
    using assms(1) by (simp add: float_rounding_def)
  define K where "K = (of_nat k :: rat)"
  have K: "1 \<le> K" "K \<le> 10" using assms(2,3) by (simp_all add: K_def)
  define X where "X = K + 33981707 / 16777216"
  define u where "u = rnd X"
  define d where "d = rnd (28591353 / 33554432)"
  define r where "r = 14477731 / 8388608 / d"
  define q where "q = rnd r"
  define y where "y = u - q"
  have v: "v = rnd y"
    unfolding v_def logBase2_formula [OF assms(1-3)] by (simp add: u_def X_def K_def q_def r_def d_def y_def)
  have "\<bar>d - 28591353 / 33554432\<bar> \<le> 28591353 / 33554432 / 16777216"
    using err [of "28591353 / 33554432"] by (simp add: d_def)
  note d = abs_le_D1 [OF this] abs_le_D2 [OF this]
  then have "0 < d" by linarith
  then have r: "20254697 / 10000000 \<le> r" "r \<le> 202547 / 100000"
    unfolding r_def using d by (subst pos_le_divide_eq pos_divide_le_eq; linarith)+
  have "\<bar>q - r\<bar> \<le> r / 16777216" using err [of r] r by (simp add: q_def)
  note q = abs_le_D1 [OF this] abs_le_D2 [OF this]
  have "\<bar>u - X\<bar> \<le> X / 16777216" using err [of X] K by (simp add: u_def X_def)
  note u = abs_le_D1 [OF this] abs_le_D2 [OF this]
  have ylo: "K - 1 / 1000 < y" unfolding y_def using u q r K X_def by linarith
  have yhi: "y < K - 188 / 100000000 + K * (6 / 100000000)" unfolding y_def using u q r K X_def by linarith
  have "\<bar>v - y\<bar> \<le> y / 16777216" using err [of y] ylo K by (simp add: v)
  note vv = abs_le_D1 [OF this] abs_le_D2 [OF this]
  have lo: "K - 1 / 100 < v" using vv ylo yhi K by linarith
  have hi: "v < K - 188 / 100000000 + K * (12 / 100000000)" using vv ylo yhi K by linarith
  have "\<bar>rnd (v * 10) - v * 10\<bar> \<le> v * 10 / 16777216" using err [of "v * 10"] lo K by simp
  note w = abs_le_D1 [OF this] abs_le_D2 [OF this]
  have K10: "of_nat (10 * k) = 10 * K" by (simp add: K_def)
  show "of_nat k - 1 / 100 < v" and "v < of_nat k" using lo hi K by (simp_all add: K_def)
  show "of_nat (10 * k) - 1 < rnd (v * 10)" and "rnd (v * 10) < of_nat (10 * k)"
    unfolding K10 using w lo hi K by linarith+
qed

end
