(* ===== verification/Rtc.thy ===== *)
theory Rtc
  imports Files Printf I8259 Fmath
begin

text \<open>
  The real time clock driver, \<^verbatim>\<open>src/drivers/rtc.c\<close>. \<open>rnd\<close> is the rounding of the FPU
  (theory Fmath). \<^verbatim>\<open>int32_t\<close> parameters are 32-bit words read as signed.
\<close>

section \<open>State\<close>

record rtc = fs +
  init_mode :: i32
  intr_occ :: i32

definition RTC_REG_NUM_PORT :: u16 where "RTC_REG_NUM_PORT = 0x70"

definition RTC_RW_CMOS_PORT :: u16 where "RTC_RW_CMOS_PORT = 0x71"

definition RTC_DEFAULT_HZ :: i32 where "RTC_DEFAULT_HZ = 2"

lemmas rtc_defs = RTC_REG_NUM_PORT_def RTC_RW_CMOS_PORT_def RTC_DEFAULT_HZ_def

section \<open>Operations\<close>

text \<open>The rounding of the logarithm to a rate, before the register is touched.\<close>

definition rtc_rate :: "(rat \<Rightarrow> rat) \<Rightarrow> i32 \<Rightarrow> u32" where
  "rtc_rate rnd frequency =
     (let rateVal = logBase2 rnd (float_of_int32 (sint frequency));
          rate = (if trunc (rnd (rateVal * 10)) smod 10 > 5 then ceil_f rateVal else floor_f rateVal)
      in of_int (16 - rate) AND 0x0F)"

definition rtc_set_frequency :: "(rat \<Rightarrow> rat) \<Rightarrow> i32 \<Rightarrow> 'a rtc_scheme \<Rightarrow> i32 \<times> 'a rtc_scheme" where
  "rtc_set_frequency rnd frequency s =
     (if sint frequency < 2 \<or> sint frequency > 1024 then (-1, s)
      else if \<not> (frequency \<noteq> 0 \<and> frequency AND (frequency - 1) = 0) then (-1, s)
      else
        let rate = rtc_rate rnd frequency;
            (flags, s) = cli_and_save s;
            s = outb 0x8A RTC_REG_NUM_PORT s;
            (previous, s) = inb RTC_RW_CMOS_PORT s;
            s = outb 0x8A RTC_REG_NUM_PORT s;
            s = outb ((previous AND 0xF0) OR ucast rate) RTC_RW_CMOS_PORT s
        in (0, restore_flags flags s))"

definition rtc_init :: "(rat \<Rightarrow> rat) \<Rightarrow> i32 \<Rightarrow> 'a rtc_scheme \<Rightarrow> 'a rtc_scheme" where
  "rtc_init rnd mode s =
     (let (flags, s) = cli_and_save s;
          s = s\<lparr>init_mode := mode\<rparr>;
          s = outb 0x8B RTC_REG_NUM_PORT s;
          (previous, s) = inb RTC_RW_CMOS_PORT s;
          s = outb 0x8B RTC_REG_NUM_PORT s;
          s = outb (previous OR 0x40) RTC_RW_CMOS_PORT s;
          s = restore_flags flags s
      in snd (rtc_set_frequency rnd RTC_DEFAULT_HZ s))"

definition rtc_special_eoi :: "'a rtc_scheme \<Rightarrow> 'a rtc_scheme" where
  "rtc_special_eoi s = snd (inb RTC_RW_CMOS_PORT (outb 0x0C RTC_REG_NUM_PORT s))"

text \<open>The message has no conversion, so the contents of \<^verbatim>\<open>printf\<close>'s buffer do not matter.\<close>

definition rtc_handle_interrupt :: "'a rtc_scheme \<Rightarrow> 'a rtc_scheme option" where
  "rtc_handle_interrupt s =
     (let (flags, s) = cli_and_save s;
          s = s\<lparr>intr_occ := 1\<rparr>
      in map_option (\<lambda>s. restore_flags flags (rtc_special_eoi (send_eoi 8 s)))
           (if init_mode s = 0 then Some s
            else if init_mode s = 1 then
              map_option snd (printf (\<lambda>_. 0) (arr (str ''RTC Interrupt!'' @ [10, 0])) [] s)
            else Some (test_interrupts s)))"

definition rtc_open :: "(rat \<Rightarrow> rat) \<Rightarrow> 'a rtc_scheme \<Rightarrow> i32 \<times> 'a rtc_scheme" where
  "rtc_open rnd s = (0, snd (rtc_set_frequency rnd RTC_DEFAULT_HZ s))"

definition rtc_close :: "(rat \<Rightarrow> rat) \<Rightarrow> 'a rtc_scheme \<Rightarrow> i32 \<times> 'a rtc_scheme" where
  "rtc_close rnd s = (0, snd (rtc_set_frequency rnd RTC_DEFAULT_HZ s))"

text \<open>
  \<^verbatim>\<open>rtc_read\<close> spins until an interrupt sets \<^verbatim>\<open>intr_occ\<close>. What interrupts do between two
  looks at the flag is the parameter \<open>irqs\<close>, one step per round; without an RTC
  interrupt the loop does not end (\<^const>\<open>None\<close>).
\<close>

partial_function (option) rtc_wait ::
  "(nat \<Rightarrow> 'a rtc_scheme \<Rightarrow> 'a rtc_scheme option) \<Rightarrow> nat \<Rightarrow> 'a rtc_scheme \<Rightarrow> 'a rtc_scheme option" where
  "rtc_wait irqs n s =
     (if intr_occ s \<noteq> 0 then Some s
      else Option.bind (irqs n s) (\<lambda>s. rtc_wait irqs (Suc n) s))"

definition rtc_read ::
  "(nat \<Rightarrow> 'a rtc_scheme \<Rightarrow> 'a rtc_scheme option) \<Rightarrow> 'a rtc_scheme \<Rightarrow> (i32 \<times> 'a rtc_scheme) option" where
  "rtc_read irqs s = map_option (\<lambda>s. (0, s\<lparr>intr_occ := 0\<rparr>)) (rtc_wait irqs 0 s)"

definition rtc_write :: "(rat \<Rightarrow> rat) \<Rightarrow> u32 \<Rightarrow> i32 \<Rightarrow> 'a rtc_scheme \<Rightarrow> i32 \<times> 'a rtc_scheme" where
  "rtc_write rnd buf nbytes s =
     (if nbytes \<noteq> 4 then (-1, s)
      else if buf = 0 then (-1, s)
      else let frequency = load32 (mem s) buf in rtc_set_frequency rnd frequency s)"

section \<open>Correctness\<close>

lemma sint_power:
  assumes "k \<le> 10"
  shows "sint ((2 :: i32) ^ k) = 2 ^ k"
proof -
  have "k = 0 \<or> k = 1 \<or> k = 2 \<or> k = 3 \<or> k = 4 \<or> k = 5 \<or> k = 6 \<or> k = 7 \<or> k = 8 \<or> k = 9 \<or> k = 10"
    using assms by presburger
  then show ?thesis by (elim disjE) simp_all
qed

lemma low_nibble:
  assumes "k < 16"
  shows "(of_nat k :: u32) AND 0x0F = of_nat k"
proof -
  have "\<forall>k\<in>set [0..<16]. (of_nat k :: u32) AND 0x0F = of_nat k" by code_simp
  then show ?thesis using assms by simp
qed

lemma rtc_rate_power:
  assumes "float_rounding rnd" and "1 \<le> k" "k \<le> 10"
  shows "rtc_rate rnd (2 ^ k) = of_nat (16 - k)"
proof -
  let ?v = "logBase2 rnd (float_of_int32 (2 ^ k))"
  note b = logBase2_power [OF assms]
  have v: "trunc ?v = int k - 1"
    using b(1,2) assms(2) by (intro trunc_between) simp_all
  have w: "trunc (rnd (?v * 10)) = int (10 * k) - 1"
    using b(3,4) assms(2) by (intro trunc_between) simp_all
  have "(int (10 * k) - 1) smod 10 = 9"
  proof -
    have "(int (10 * k) - 1) smod 10 = (int (10 * k) - 1) mod 10"
      using assms(2) by (simp add: smod_int_alt_def sgn_if)
    also have "\<dots> = 9" by presburger
    finally show ?thesis .
  qed
  moreover have "0 \<le> ?v" using b(1) assms(2) by (simp add: order_trans)
  ultimately have "rtc_rate rnd (2 ^ k) = of_int (16 - int k) AND 0x0F"
    using v w assms(3) by (simp add: rtc_rate_def sint_power Let_def ceil_f_def)
  moreover have "of_int (16 - int k) = (of_nat (16 - k) :: u32)" using assms(3) by (simp add: of_nat_diff)
  moreover have "(of_nat (16 - k) :: u32) AND 0x0F = of_nat (16 - k)"
    using assms(2) by (intro low_nibble) simp
  ultimately show ?thesis by simp
qed


text \<open>The check that a frequency is a power of two, on the range that is left by then.\<close>

lemma power_check_table:
  "\<forall>i\<in>set [2..1024]. (of_int i :: i32) AND (of_int i - 1) = 0 \<longleftrightarrow>
      i \<in> {2, 4, 8, 16, 32, 64, 128, 256, 512, 1024}"
  by code_simp

lemma power_check:
  assumes "2 \<le> sint (f :: i32)" "sint f \<le> 1024"
  shows "f \<noteq> 0 \<and> f AND (f - 1) = 0 \<longleftrightarrow> (\<exists>k\<in>{1..10}. f = 2 ^ k)"
proof -
  have f: "f = of_int (sint f)" by simp
  have "f \<noteq> 0" using assms(1) by auto
  have "f AND (f - 1) = 0 \<longleftrightarrow> sint f \<in> {2, 4, 8, 16, 32, 64, 128, 256, 512, 1024}"
    using power_check_table assms by (metis (no_types, lifting) atLeastAtMost_iff f set_upto)
  also have "\<dots> \<longleftrightarrow> sint f \<in> (\<lambda>k. 2 ^ k) ` set [1..<11]"
    by (simp add: upt_rec) 
  also have "\<dots> \<longleftrightarrow> (\<exists>k\<in>{1..10}. sint f = 2 ^ k)" by auto
  also have "\<dots> \<longleftrightarrow> (\<exists>k\<in>{1..10}. f = 2 ^ k)"
  proof (intro bex_cong refl)
    fix k :: nat assume "k \<in> {1..10}"
    then have "sint ((2 :: i32) ^ k) = 2 ^ k" by (intro sint_power) simp
    then show "sint f = 2 ^ k \<longleftrightarrow> f = 2 ^ k" by (metis signed_word_eqI)
  qed
  finally show ?thesis using \<open>f \<noteq> 0\<close> by blast
qed

lemma rtc_set_frequency_rejects:
  "sint f < 2 \<or> 1024 < sint f \<or> (\<forall>k\<in>{1..10}. f \<noteq> 2 ^ k) \<Longrightarrow> rtc_set_frequency rnd f s = (-1, s)"
  using power_check [of f] by (auto simp: rtc_set_frequency_def)

lemma rtc_set_frequency_programs:
  assumes "float_rounding rnd" and "1 \<le> k" "k \<le> 10"
  shows "rtc_set_frequency rnd (2 ^ k) s = (0, s\<lparr>in_count := Suc (in_count s), port_out := port_out s @
     [(0x70, 0x8A), (0x70, 0x8A), (0x71, (port_in s (in_count s) 0x71 AND 0xF0) OR of_nat (16 - k))]\<rparr>)"
proof -
  have r: "2 \<le> sint ((2 :: i32) ^ k)" "sint ((2 :: i32) ^ k) \<le> 1024"
    using sint_power [OF assms(3)] assms(2,3) power_increasing [of k 10 "2 :: int"] power_increasing [of 1 k "2 :: int"]
    by simp_all
  have "(2 :: i32) ^ k \<noteq> 0 \<and> 2 ^ k AND (2 ^ k - 1) = (0 :: i32)"
    using power_check [OF r] assms(2,3) by auto
  moreover have "(ucast (of_nat (16 - k) :: u32) :: u8) = of_nat (16 - k)"
    using assms(2) by (simp add: unsigned_of_nat take_bit_nat_eq_self)
  ultimately show ?thesis
    using r rtc_rate_power [OF assms]
    by (simp add: rtc_set_frequency_def Let_def cli_and_save_def outb_def inb_def restore_flags_def rtc_defs)
qed

lemma rtc_wait_stop: "intr_occ s \<noteq> 0 \<Longrightarrow> rtc_wait irqs n s = Some s"
  by (subst rtc_wait.simps) simp

lemma rtc_wait_more: "intr_occ s = 0 \<Longrightarrow> rtc_wait irqs n s = Option.bind (irqs n s) (\<lambda>s. rtc_wait irqs (Suc n) s)"
  by (subst rtc_wait.simps) simp

text \<open>
  The interrupts of the first \<open>n\<close> rounds leave the flag clear and reach the state \<open>s'\<close>; the
  next one is the clock's.
\<close>

fun quiet_rounds ::
  "(nat \<Rightarrow> 'a rtc_scheme \<Rightarrow> 'a rtc_scheme option) \<Rightarrow> nat \<Rightarrow> nat \<Rightarrow> 'a rtc_scheme \<Rightarrow> 'a rtc_scheme \<Rightarrow> bool" where
  "quiet_rounds irqs i 0 s s' \<longleftrightarrow> s' = s \<and> intr_occ s = 0"
| "quiet_rounds irqs i (Suc n) s s' \<longleftrightarrow> intr_occ s = 0 \<and>
     (case irqs i s of None \<Rightarrow> False | Some s1 \<Rightarrow> quiet_rounds irqs (Suc i) n s1 s')"

lemma rtc_wait_quiet:
  "quiet_rounds irqs i n s s' \<Longrightarrow> irqs (i + n) s' = Some s'' \<Longrightarrow> intr_occ s'' \<noteq> 0 \<Longrightarrow> rtc_wait irqs i s = Some s''"
  by (induction n arbitrary: i s) (auto simp: rtc_wait_more rtc_wait_stop split: option.splits)


lemma console_frame_intr: "console_frame s s' \<Longrightarrow> intr_occ s' = intr_occ s"
  by (elim console_frameE) simp

lemma rtc_message: "cstr (arr (str ''RTC Interrupt!'' @ [10, 0])) (str ''RTC Interrupt!'' @ [10])"
proof -
  have "(0 :: u8) \<notin> set (str ''RTC Interrupt!'' @ [10])" by code_simp
  from cstr_arr [OF this, of "[]"] show ?thesis by simp
qed

lemma rtc_message_text:
  "format_text None (str ''RTC Interrupt!'' @ [10]) [] = Some (str ''RTC Interrupt!'' @ [10])"
  by code_simp

lemma test_interrupts_frame: "console_frame s (test_interrupts s)"
proof -
  have "console_frame s (fold (\<lambda>i s. poke (cell_addr (int i)) (mem s (cell_addr (int i)) + 1) s) is s)" for "is"
  proof (induction "is" arbitrary: s)
    case (Cons i "is")
    have "console_frame s (poke (cell_addr (int i)) (mem s (cell_addr (int i)) + 1) s)"
      by (simp add: console_frame_def poke_def)
    then show ?case using Cons by (auto intro: console_frame_trans)
  qed simp
  then show ?thesis by (simp add: test_interrupts_def)
qed

lemma rtc_handle_interrupt_sets: "\<exists>s'. rtc_handle_interrupt s = Some s' \<and> intr_occ s' = 1 \<and> int_flag s' = int_flag s"
proof -
  let ?s = "(snd (cli_and_save s))\<lparr>intr_occ := 1\<rparr>"
  have "\<exists>s1. (if init_mode ?s = 0 then Some ?s
            else if init_mode ?s = 1 then
              map_option snd (printf (\<lambda>_. 0) (arr (str ''RTC Interrupt!'' @ [10, 0])) [] ?s)
            else Some (test_interrupts ?s)) = Some s1 \<and> console_frame ?s s1"
    using printf_returns [OF rtc_message rtc_message_text, of "[]" "\<lambda>_. 0" ?s] test_interrupts_frame by auto
  then obtain s1 where s1: "(if init_mode ?s = 0 then Some ?s
            else if init_mode ?s = 1 then
              map_option snd (printf (\<lambda>_. 0) (arr (str ''RTC Interrupt!'' @ [10, 0])) [] ?s)
            else Some (test_interrupts ?s)) = Some s1" "intr_occ s1 = intr_occ ?s"
    using console_frame_intr by metis
  then show ?thesis
    by (simp add: rtc_handle_interrupt_def Let_def split_beta rtc_special_eoi_def send_eoi_def restore_flags_def
        outb_def inb_def)
qed

section \<open>Properties\<close>

text \<open>A power of two from 2 to 1024 is programmed as the divider \<open>r\<close> for which the clock,
  32768 Hz divided by \<open>2 ^ (r - 1)\<close>, has that frequency, keeping the upper half of register A
  and the interrupt flag; every other frequency is refused and nothing is touched.\<close>

theorem rtc_set_frequency_sets_divider:
  assumes "float_rounding rnd"
  shows "(\<forall>k\<in>{1..10}. \<exists>r<16. 32768 div 2 ^ (r - 1) = (2 :: nat) ^ k \<and>
      rtc_set_frequency rnd (2 ^ k) s = (0, s\<lparr>in_count := Suc (in_count s), port_out := port_out s @
        [(0x70, 0x8A), (0x70, 0x8A), (0x71, (port_in s (in_count s) 0x71 AND 0xF0) OR of_nat r)]\<rparr>))
    \<and> (\<forall>f. (\<forall>k\<in>{1..10}. f \<noteq> 2 ^ k) \<longrightarrow> rtc_set_frequency rnd f s = (-1, s))"
proof (intro conjI ballI allI impI)
  fix k :: nat assume k: "k \<in> {1..10}"
  then have "k = 1 \<or> k = 2 \<or> k = 3 \<or> k = 4 \<or> k = 5 \<or> k = 6 \<or> k = 7 \<or> k = 8 \<or> k = 9 \<or> k = 10"
    by (simp, presburger)
  then have "32768 div 2 ^ (16 - k - 1) = (2 :: nat) ^ k" by (elim disjE) simp_all
  then show "\<exists>r<16. 32768 div 2 ^ (r - 1) = (2 :: nat) ^ k \<and>
      rtc_set_frequency rnd (2 ^ k) s = (0, s\<lparr>in_count := Suc (in_count s), port_out := port_out s @
        [(0x70, 0x8A), (0x70, 0x8A), (0x71, (port_in s (in_count s) 0x71 AND 0xF0) OR of_nat r)]\<rparr>)"
    using k rtc_set_frequency_programs [OF assms, of k s] by (intro exI [of _ "16 - k"]) simp
qed (rule rtc_set_frequency_rejects, blast)

definition demo_rtc :: rtc where
  "demo_rtc = fs.extend demo_fs \<lparr>init_mode = 0, intr_occ = 0\<rparr>"

theorem rtc_set_frequency_sets_divider_witness:
  "fst (rtc_set_frequency (\<lambda>x. x) 1024 demo_rtc) = 0 \<and> fst (rtc_set_frequency (\<lambda>x. x) 1000 demo_rtc) = -1"
proof -
  note t = rtc_set_frequency_sets_divider [OF float_rounding_id, of demo_rtc]
  have "\<forall>k\<in>set [1..<11]. (1000 :: i32) \<noteq> 2 ^ k" by code_simp
  then have "\<forall>k\<in>{1..10}. (1000 :: i32) \<noteq> 2 ^ k" by auto
  moreover have "(2 :: i32) ^ 10 = 1024" "(10 :: nat) \<in> {1..10}" by simp_all
  ultimately show ?thesis using t by (metis fst_conv)
qed

text \<open>C35: \<^verbatim>\<open>rtc_read\<close> returns 0 after the first clock interrupt, however many other interrupts
  come before it, with the flag reset for the next call.\<close>

theorem rtc_read_returns_on_interrupt:
  assumes "quiet_rounds irqs 0 n s s'" and "irqs n s' = rtc_handle_interrupt s'"
  shows "\<exists>s''. rtc_handle_interrupt s' = Some s'' \<and> rtc_read irqs s = Some (0, s''\<lparr>intr_occ := 0\<rparr>)"
proof -
  obtain s'' where s'': "rtc_handle_interrupt s' = Some s''" "intr_occ s'' = 1"
    using rtc_handle_interrupt_sets by blast
  then have "rtc_wait irqs 0 s = Some s''"
    using rtc_wait_quiet [OF assms(1)] assms(2) by simp
  with s'' show ?thesis by (simp add: rtc_read_def)
qed

theorem rtc_read_returns_on_interrupt_witness:
  "\<exists>s''. rtc_read (\<lambda>n s. if n < 3 then Some s else rtc_handle_interrupt s) demo_rtc = Some (0, s''\<lparr>intr_occ := 0\<rparr>)"
proof -
  have "intr_occ demo_rtc = 0" by (simp add: demo_rtc_def fs.defs)
  then have "quiet_rounds (\<lambda>n s. if n < 3 then Some s else rtc_handle_interrupt s) 0 3 demo_rtc demo_rtc"
    by (simp add: numeral_3_eq_3)
  from rtc_read_returns_on_interrupt [OF this] show ?thesis by auto
qed

end
