(* ===== verification/Mouse.thy ===== *)
theory Mouse
  imports Rtc
begin

text \<open>
  The PS/2 mouse driver, \<^verbatim>\<open>src/drivers/mouse.c\<close>: a block character on the text page that
  follows the packets read from port 0x60, remembering the character it covers.
\<close>

section \<open>State and operations\<close>

text \<open>\<open>mouse_flags\<close> is the global \<^verbatim>\<open>flags\<close> of the file.\<close>

record mouse = rtc +
  mouse_x :: int
  mouse_y :: int
  prev_char :: u8
  mouse_flags :: u32
  mouse_byte_1 :: u8

definition MOUSE_COMM_PORT :: u16 where "MOUSE_COMM_PORT = 0x64"

definition MOUSE_DATA_PORT :: u16 where "MOUSE_DATA_PORT = 0x60"

definition mouse_ack :: "'a mouse_scheme \<Rightarrow> u8 \<times> 'a mouse_scheme" where
  "mouse_ack s =
     (let (v, s) = inb MOUSE_DATA_PORT s
      in if v AND 1 = 0 then
           let s = s\<lparr>mouse_flags := 1\<rparr> in inb MOUSE_DATA_PORT s
         else (0, s\<lparr>mouse_flags := 0\<rparr>))"

definition mouse_init :: "'a mouse_scheme \<Rightarrow> 'a mouse_scheme" where
  "mouse_init s =
     (let s = s\<lparr>mouse_x := 40, mouse_y := 12\<rparr>;
          (currStatus, s) = inb MOUSE_DATA_PORT s;
          currStatus = currStatus OR 2;
          s = outb 0xA8 MOUSE_COMM_PORT s;
          s = outb 0x20 MOUSE_COMM_PORT s;
          s = outb (ucast MOUSE_DATA_PORT) MOUSE_COMM_PORT s;
          s = outb currStatus MOUSE_DATA_PORT s;
          s = outb (ucast MOUSE_DATA_PORT) MOUSE_COMM_PORT s;
          s = outb 0x47 MOUSE_DATA_PORT s;
          s = outb 0xD4 MOUSE_COMM_PORT s
      in outb 0xF4 MOUSE_DATA_PORT s)"

text \<open>A movement byte, sign-extended to \<^verbatim>\<open>int32_t\<close> when the first byte says it is negative.\<close>

definition mouse_delta :: "u8 \<Rightarrow> bool \<Rightarrow> int" where
  "mouse_delta v negative = sint (if negative then ucast v OR 0xFFFFFF00 else ucast v :: i32)"

definition clamp :: "int \<Rightarrow> int \<Rightarrow> int" where
  "clamp hi v = (if v < 0 then 0 else if v > hi then hi else v)"

definition mouse_move :: "'a mouse_scheme \<Rightarrow> 'a mouse_scheme" where
  "mouse_move s =
     (let (v2, s) = inb MOUSE_DATA_PORT s;
          (v3, s) = inb MOUSE_DATA_PORT s;
          mouse_byte_2 = mouse_delta v2 (mouse_byte_1 s AND 0x10 \<noteq> 0);
          mouse_byte_3 = mouse_delta v3 (mouse_byte_1 s AND 0x20 \<noteq> 0);
          s = draw_full_block (mouse_x s) (mouse_y s) (prev_char s) s;
          s = s\<lparr>mouse_x := clamp 79 (mouse_x s + mouse_byte_2 sdiv 6)\<rparr>;
          s = s\<lparr>mouse_y := clamp 24 (mouse_y s - mouse_byte_3 sdiv 6)\<rparr>;
          s = s\<lparr>prev_char := get_full_block (mouse_x s) (mouse_y s) s\<rparr>
      in draw_full_block (mouse_x s) (mouse_y s) 219 s)"

definition mouse_handle_interrupt :: "'a mouse_scheme \<Rightarrow> 'a mouse_scheme" where
  "mouse_handle_interrupt s =
     (let (v, s) = mouse_ack s;
          s = s\<lparr>mouse_byte_1 := v\<rparr>;
          s = (if mouse_byte_1 s AND 0x08 \<noteq> 0 then
                 if mouse_byte_1 s AND 0x80 = 0 \<and> mouse_byte_1 s AND 0x40 = 0 then mouse_move s else s
               else s)
      in send_eoi 12 s)"

section \<open>Correctness\<close>

text \<open>
  The pointer is on the page; the text below it is the page with the covered character put
  back.
\<close>

definition mouse_ok :: "'a mouse_scheme \<Rightarrow> bool" where
  "mouse_ok s \<longleftrightarrow> 0 \<le> mouse_x s \<and> mouse_x s \<le> 79 \<and> 0 \<le> mouse_y s \<and> mouse_y s \<le> 24"

definition text_below :: "'a mouse_scheme \<Rightarrow> u8 list" where
  "text_below s = (screen_cells (mem s))[nat (mouse_y s * 80 + mouse_x s) := prev_char s]"

lemma clamp_bounds: "0 \<le> hi \<Longrightarrow> 0 \<le> clamp hi v \<and> clamp hi v \<le> hi"
  by (simp add: clamp_def)

lemma mouse_delta_signed: "mouse_delta v negative = uint v - (if negative then 256 else 0)"
proof -
  have "\<forall>i\<in>set [0..255]. sint ((of_int i :: i32) OR 0xFFFFFF00) = i - 256 \<and> sint (of_int i :: i32) = i"
    by code_simp
  moreover have "uint v \<in> set [0..255]" using unsigned_less [of v, where 'a = int] by simp
  ultimately have "sint ((of_int (uint v) :: i32) OR 0xFFFFFF00) = uint v - 256" "sint (of_int (uint v) :: i32) = uint v"
    by blast+
  then show ?thesis by (simp add: mouse_delta_def)
qed

lemma draw_full_block_mem:
  "draw_full_block x y c s = s\<lparr>mem := cell_put (ucast (text_color s)) (y * 80 + x) c (mem s)\<rparr>"
  by (simp add: draw_full_block_def put_cell_mem NUM_COLS_def Let_def)

lemma mouse_move_all:
  assumes "mouse_ok s"
  shows "mouse_ok (mouse_move s) \<and> text_below (mouse_move s) = text_below s \<and> off_screen_same (mem s) (mem (mouse_move s))"
proof -
  define d2 where "d2 = mouse_delta (port_in s (in_count s) MOUSE_DATA_PORT) (mouse_byte_1 s AND 0x10 \<noteq> 0)"
  define d3 where "d3 = mouse_delta (port_in s (Suc (in_count s)) MOUSE_DATA_PORT) (mouse_byte_1 s AND 0x20 \<noteq> 0)"
  define x where "x = clamp 79 (mouse_x s + d2 sdiv 6)"
  define y where "y = clamp 24 (mouse_y s - d3 sdiv 6)"
  define k where "k = nat (mouse_y s * 80 + mouse_x s)"
  define k' where "k' = nat (y * 80 + x)"
  have xy: "0 \<le> x" "x \<le> 79" "0 \<le> y" "y \<le> 24"
    using clamp_bounds by (simp_all add: x_def y_def)
  have k: "mouse_y s * 80 + mouse_x s = int k" "k < 2000"
    using assms unfolding k_def mouse_ok_def by linarith+
  have k': "y * 80 + x = int k'" "k' < 2000"
    using xy unfolding k'_def by linarith+
  let ?a = "ucast (text_color s) :: u8"
  let ?m = "cell_put ?a (int k) (prev_char s) (mem s)"
  have move: "mouse_move s = s\<lparr>in_count := Suc (Suc (in_count s)), mouse_x := x, mouse_y := y,
      prev_char := ?m (cell_addr (int k')), mem := cell_put ?a (int k') 219 ?m\<rparr>"
    by (simp add: mouse_move_def Let_def inb_def draw_full_block_mem get_full_block_def NUM_COLS_def
        d2_def [symmetric] d3_def [symmetric] x_def [symmetric] y_def [symmetric] k k')
  have "?m (cell_addr (int k')) = screen_cells ?m ! k'"
    using k'(2) by (simp add: screen_cells_def char_at_def)
  then have "text_below (mouse_move s) = text_below s"
    using k k' by (simp add: text_below_def move)
  moreover have "off_screen_same (mem s) (mem (mouse_move s))"
    using k(2) k'(2) by (simp add: move off_screen_cell_put)
  ultimately show ?thesis using xy by (simp add: mouse_ok_def move)
qed

lemma mouse_handle_all:
  assumes "mouse_ok s"
  shows "mouse_ok (mouse_handle_interrupt s) \<and> text_below (mouse_handle_interrupt s) = text_below s
    \<and> off_screen_same (mem s) (mem (mouse_handle_interrupt s))"
proof -
  have "mouse_ok (send_eoi 12 s') = mouse_ok s'" "text_below (send_eoi 12 s') = text_below s'"
    "mem (send_eoi 12 s') = mem s'" for s' :: "'a mouse_scheme"
    by (simp_all add: send_eoi_def outb_def mouse_ok_def text_below_def)
  moreover obtain v s1 where a: "mouse_ack s = (v, s1)" by (cases "mouse_ack s")
  moreover have "mouse_ok (s1\<lparr>mouse_byte_1 := v\<rparr>)" "text_below (s1\<lparr>mouse_byte_1 := v\<rparr>) = text_below s" "mem s1 = mem s"
    using a assms by (auto simp: mouse_ack_def inb_def Let_def mouse_ok_def text_below_def split: if_splits)
  ultimately show ?thesis
    using mouse_move_all [of "s1\<lparr>mouse_byte_1 := v\<rparr>"] by (simp add: mouse_handle_interrupt_def Let_def)
qed

interpretation mouse_packets: event_machine
    "\<lambda>s _. mouse_handle_interrupt s"
    "\<lambda>s. mouse_ok s \<and> text_below s = text_below s0 \<and> off_screen_same (mem s0) (mem s)" "\<lambda>_ :: unit. True"
  for s0 :: "'a mouse_scheme"
  by unfold_locales (use mouse_handle_all off_screen_same_trans in fastforce)

section \<open>Properties\<close>

text \<open>C36: whatever packets arrive, the pointer stays on the page, the text below it is never
  lost, and no byte outside the displayed page changes.\<close>

theorem mouse_keeps_text_and_bounds:
  assumes "mouse_ok s" and "s' = run_events (\<lambda>s _. mouse_handle_interrupt s) s (replicate n ())"
  shows "mouse_ok s' \<and> text_below s' = text_below s \<and> off_screen_same (mem s) (mem s')"
  using mouse_packets.run_inv [of s s "replicate n ()"] assms by (simp add: list_all_iff)

definition demo_mouse :: mouse where
  "demo_mouse = rtc.extend demo_rtc \<lparr>mouse_x = 40, mouse_y = 12, prev_char = 32, mouse_flags = 0, mouse_byte_1 = 0\<rparr>"

theorem mouse_keeps_text_and_bounds_witness:
  "text_below (run_events (\<lambda>s _. mouse_handle_interrupt s) demo_mouse (replicate 5 ())) = text_below demo_mouse"
  using mouse_keeps_text_and_bounds [of demo_mouse _ 5, OF _ refl]
  by (simp add: mouse_ok_def demo_mouse_def rtc.defs)

end
