(* ===== verification/Paging.thy ===== *)
theory Paging
  imports Mouse
begin

text \<open>
  Paging, \<^verbatim>\<open>src/mm/paging.c\<close>: one page directory, one page table for the first 4 MB, and
  the 4 MB page of user space at 128 MB that is remapped to the running process.

  The address space of the model is the one the kernel sees: \<open>mem\<close> holds what is at each
  virtual address. Loading \<^verbatim>\<open>cr3\<close> makes the processor use the directory, so the user
  window of \<open>mem\<close> then shows another physical frame: \<open>frames\<close> keeps the contents of the
  4 MB frames that are not in the window, and \<open>window\<close> is the one that is.
\<close>

section \<open>State\<close>

record pde =
  pd_present :: bool
  pd_read_write :: bool
  pd_user_super :: bool
  pd_write_through :: bool
  pd_cache_disabled :: bool
  pd_accessed :: bool
  pd_reserved :: bool
  pd_page_size :: bool
  pd_global :: bool
  pd_avail :: "3 word"
  page_table_base :: "20 word"

record pte =
  pt_present :: bool
  pt_read_write :: bool
  pt_user_super :: bool
  pt_write_through :: bool
  pt_cache_disabled :: bool
  pt_accessed :: bool
  pt_dirty :: bool
  pt_attribute :: bool
  pt_global :: bool
  pt_avail :: "3 word"
  page_base :: "20 word"

text \<open>
  The addresses of the two tables are chosen by the linker: \<open>directory_addr\<close> and
  \<open>table_addr\<close>.
\<close>

record paging = mouse +
  pageDirectory :: "nat \<Rightarrow> pde"
  pageTable1 :: "nat \<Rightarrow> pte"
  directory_addr :: u32
  table_addr :: u32
  cr0 :: u32
  cr3 :: u32
  cr4 :: u32
  frames :: "20 word \<Rightarrow> memory"
  window :: "20 word option"

definition KB4 :: u32 where "KB4 = 0x1000"

definition PAGE_SIZE_LARGE :: u32 where "PAGE_SIZE_LARGE = 0x400000"

definition KERNEL_PHYS_ADDR :: u32 where "KERNEL_PHYS_ADDR = 0x400000"

definition KERNEL_END_ADDR :: u32 where "KERNEL_END_ADDR = 0x800000"

definition PROCESS_START_ADDR :: u32 where "PROCESS_START_ADDR = 0x08048000"

lemmas paging_defs = KB4_def PAGE_SIZE_LARGE_def KERNEL_PHYS_ADDR_def KERNEL_END_ADDR_def PROCESS_START_ADDR_def

section \<open>Loading cr3\<close>

definition user_base :: u32 where "user_base = 0x08000000"

definition in_window :: "u32 \<Rightarrow> bool" where
  "in_window a \<longleftrightarrow> unat (a - user_base) < 4194304"

text \<open>The frame that the user window shows, by the directory entry 32.\<close>

definition mapped_frame :: "'a paging_scheme \<Rightarrow> 20 word option" where
  "mapped_frame s =
     (let e = pageDirectory s 32 in if pd_present e \<and> pd_page_size e then Some (page_table_base e) else None)"

definition load_cr3 :: "'a paging_scheme \<Rightarrow> 'a paging_scheme" where
  "load_cr3 s =
     (let fr = (case window s of None \<Rightarrow> frames s
                | Some f \<Rightarrow> (frames s)(f := \<lambda>ofs. mem s (user_base + ofs)));
          m = (case mapped_frame s of None \<Rightarrow> mem s
               | Some f \<Rightarrow> (\<lambda>a. if in_window a then fr f (a - user_base) else mem s a))
      in s\<lparr>cr3 := directory_addr s, frames := fr, mem := m, window := mapped_frame s\<rparr>)"

section \<open>Operations\<close>

definition set_pde :: "nat \<Rightarrow> (pde \<Rightarrow> pde) \<Rightarrow> 'a paging_scheme \<Rightarrow> 'a paging_scheme" where
  "set_pde i f s = s\<lparr>pageDirectory := (pageDirectory s)(i := f (pageDirectory s i))\<rparr>"

definition set_pte :: "nat \<Rightarrow> (pte \<Rightarrow> pte) \<Rightarrow> 'a paging_scheme \<Rightarrow> 'a paging_scheme" where
  "set_pte i f s = s\<lparr>pageTable1 := (pageTable1 s)(i := f (pageTable1 s i))\<rparr>"

definition init_paging :: "'a paging_scheme \<Rightarrow> 'a paging_scheme" where
  "init_paging s =
     (let s = fold (\<lambda>i. set_pte i (\<lambda>e. e\<lparr>page_base := of_nat i, pt_present := False, pt_read_write := False,
                pt_user_super := False, pt_write_through := False, pt_cache_disabled := False,
                pt_accessed := False, pt_dirty := False, pt_attribute := False, pt_global := False,
                pt_avail := 0\<rparr>)) [0..<1024] s;
          enable = (\<lambda>e. e\<lparr>pt_present := True, pt_read_write := True, pt_user_super := True\<rparr>);
          s = set_pte (unat (VIDEO div KB4)) enable s;
          s = set_pte (unat (0xBC000 div KB4)) enable s;
          s = set_pte (unat (0xDC000 div KB4)) enable s;
          s = set_pte (unat (0xEC000 div KB4)) enable s;
          s = fold (\<lambda>i. set_pde i (\<lambda>e. e\<lparr>page_table_base := 0, pd_present := False, pd_read_write := True,
                pd_user_super := True, pd_write_through := False, pd_cache_disabled := False,
                pd_accessed := False, pd_reserved := False, pd_page_size := False, pd_global := False,
                pd_avail := 0\<rparr>)) [0..<1024] s;
          s = set_pde 0 (\<lambda>e. e\<lparr>page_table_base := ucast (table_addr s div KB4), pd_present := True,
                pd_read_write := True\<rparr>) s;
          s = set_pde 1 (\<lambda>e. e\<lparr>pd_user_super := True\<rparr>) s;
          s = set_pde 0 (\<lambda>e. e\<lparr>pd_page_size := False\<rparr>) s;
          s = set_pde 1 (\<lambda>e. e\<lparr>page_table_base := ucast (KERNEL_PHYS_ADDR div KB4), pd_page_size := True,
                pd_present := True, pd_read_write := True, pd_user_super := False\<rparr>) s;
          s = load_cr3 s;
          s = s\<lparr>cr4 := cr4 s OR 0x00000010\<rparr>
      in s\<lparr>cr0 := cr0 s OR 0x80000000\<rparr>)"

text \<open>The five stores that \<^verbatim>\<open>init_new_process\<close> and \<^verbatim>\<open>switch_pd\<close> make to the user entry.\<close>

definition user_entry :: "20 word \<Rightarrow> pde \<Rightarrow> pde" where
  "user_entry frame e = e\<lparr>page_table_base := frame, pd_page_size := True, pd_present := True,
     pd_read_write := True, pd_user_super := True\<rparr>"

definition init_new_process :: "u32 \<Rightarrow> 'a paging_scheme \<Rightarrow> u32 \<times> 'a paging_scheme" where
  "init_new_process process_num s =
     (let address = KERNEL_END_ADDR + process_num * PAGE_SIZE_LARGE;
          idx = unat (PROCESS_START_ADDR div PAGE_SIZE_LARGE);
          s = set_pde idx (user_entry (ucast (address div KB4))) s;
          s = load_cr3 s
      in (ucast (page_table_base (pageDirectory s idx)), s))"

definition switch_pd :: "u8 \<Rightarrow> u32 \<Rightarrow> 'a paging_scheme \<Rightarrow> i32 \<times> 'a paging_scheme" where
  "switch_pd process_num prev_base s =
     (let idx = unat (PROCESS_START_ADDR div PAGE_SIZE_LARGE);
          s = set_pde idx (user_entry (ucast prev_base)) s
      in (0, load_cr3 s))"

section \<open>The walk of the processor\<close>

text \<open>
  Address translation as the i386 does it with 4 MB pages enabled: the physical address
  and whether user mode may use it, \<^const>\<open>None\<close> for a page fault.
\<close>

definition translate :: "'a paging_scheme \<Rightarrow> u32 \<Rightarrow> (u32 \<times> bool) option" where
  "translate s a =
     (let d = pageDirectory s (unat (drop_bit 22 a))
      in if \<not> pd_present d then None
         else if pd_page_size d then
           Some (push_bit 12 (ucast (page_table_base d)) + (a AND 0x003FFFFF), pd_user_super d)
         else if ucast (page_table_base d) = table_addr s div KB4 then
           let e = pageTable1 s (unat (drop_bit 12 a AND 0x3FF))
           in if pt_present e
              then Some (push_bit 12 (ucast (page_base e)) + (a AND 0xFFF), pd_user_super d \<and> pt_user_super e)
              else None
         else None)"

section \<open>Correctness\<close>

lemma user_idx [simp]: "unat (PROCESS_START_ADDR div PAGE_SIZE_LARGE) = 32"
  by (simp add: paging_defs unat_div)

lemma fold_set_pte:
  "fold (\<lambda>i. set_pte i (g i)) [0..<n] s = s\<lparr>pageTable1 := (\<lambda>i. if i < n then g i (pageTable1 s i) else pageTable1 s i)\<rparr>"
  by (induction n) (auto simp: set_pte_def fun_eq_iff)

lemma fold_set_pde:
  "fold (\<lambda>i. set_pde i (g i)) [0..<n] s = s\<lparr>pageDirectory := (\<lambda>i. if i < n then g i (pageDirectory s i) else pageDirectory s i)\<rparr>"
  by (induction n) (auto simp: set_pde_def fun_eq_iff)


text \<open>The tables after \<^verbatim>\<open>init_paging\<close>.\<close>

lemma init_paging_pte:
  assumes "i < 1024"
  shows "pt_present (pageTable1 (init_paging s) i) \<longleftrightarrow> i \<in> {0xB8, 0xBC, 0xDC, 0xEC}"
    and "pt_user_super (pageTable1 (init_paging s) i) \<longleftrightarrow> i \<in> {0xB8, 0xBC, 0xDC, 0xEC}"
    and "page_base (pageTable1 (init_paging s) i) = of_nat i"
  using assms unfolding init_paging_def Let_def fold_set_pte fold_set_pde
  by (auto simp: set_pte_def set_pde_def load_cr3_def Let_def VIDEO_def KB4_def unat_div)

lemma init_paging_pde:
  assumes "i < 1024"
  shows "pd_present (pageDirectory (init_paging s) i) \<longleftrightarrow> i < 2"
    and "pd_page_size (pageDirectory (init_paging s) i) \<longleftrightarrow> i = 1"
    and "pd_user_super (pageDirectory (init_paging s) i) \<longleftrightarrow> i \<noteq> 1"
    and "page_table_base (pageDirectory (init_paging s) 0) = ucast (table_addr s div KB4)"
    and "page_table_base (pageDirectory (init_paging s) 1) = 0x400"
    and "table_addr (init_paging s) = table_addr s"
  using assms unfolding init_paging_def Let_def fold_set_pte fold_set_pde
  by (auto simp: set_pte_def set_pde_def load_cr3_def Let_def KERNEL_PHYS_ADDR_def KB4_def)

lemma page_number_fits: "(ucast (ucast (a div KB4 :: u32) :: 20 word) :: u32) = a div KB4"
proof -
  have "a div KB4 = drop_bit 12 a" by (simp add: KB4_def drop_bit_eq_div)
  moreover have "(ucast (ucast (drop_bit 12 a) :: 20 word) :: u32) = drop_bit 12 a"
    by (rule bit_word_eqI) (auto simp: bit_simps, drule bit_imp_le_length, simp)
  ultimately show ?thesis by (simp only:)
qed

lemma and_mask22: "a AND 0x003FFFFF = take_bit 22 (a :: u32)"
  by (simp add: take_bit_eq_mask mask_eq_exp_minus_1)

lemma and_mask12: "a AND 0xFFF = take_bit 12 (a :: u32)"
  by (simp add: take_bit_eq_mask mask_eq_exp_minus_1)

lemma and_mask10: "a AND 0x3FF = take_bit 10 (a :: u32)"
  by (simp add: take_bit_eq_mask mask_eq_exp_minus_1)

lemma addr_split: "push_bit n (drop_bit n a) + take_bit n a = (a :: u32)"
  by (simp add: bits_ident)

lemma dir_index: "unat (drop_bit 22 (a :: u32)) < 1024"
proof -
  have "unat (drop_bit 22 a) = unat a div 4194304" by (simp add: drop_bit_eq_div unat_div)
  then show ?thesis using unat_lt32 [of a] by simp
qed


lemma drop_12_small: "drop_bit 22 a = (0 :: u32) \<Longrightarrow> unat (drop_bit 12 a) < 1024 \<and> take_bit 10 (drop_bit 12 a) = drop_bit 12 a"
proof -
  assume "drop_bit 22 a = 0"
  then have "unat a div 4194304 = 0" by (simp add: drop_bit_eq_div unat_eq_zero [symmetric] unat_div)
  then have a: "unat a < 4194304" by (simp add: div_eq_0_iff)
  have u: "unat (drop_bit 12 a) = unat a div 4096" by (simp add: drop_bit_eq_div unat_div)
  have "unat a div 4096 < 1024" using a by linarith
  moreover have "unat (take_bit 10 (drop_bit 12 a)) = unat a div 4096 mod 1024"
    by (simp only: unsigned_take_bit_eq u) (simp add: take_bit_eq_mod)
  ultimately show ?thesis using u by (metis mod_less unsigned_word_eqI)
qed

definition kernel_video_page :: "u32 \<Rightarrow> bool" where
  "kernel_video_page a \<longleftrightarrow> unat a div 4096 \<in> {0xB8, 0xBC, 0xDC, 0xEC}"

lemma init_paging_translate:
  "translate (init_paging s) a =
     (if unat a div 4194304 = 1 then Some (a, False) else if kernel_video_page a then Some (a, True) else None)"
proof -
  let ?s = "init_paging s" and ?i = "unat (drop_bit 22 a)"
  have i: "?i = unat a div 4194304" by (simp add: drop_bit_eq_div unat_div)
  note pd = init_paging_pde [OF dir_index [of a], of s]
  consider "?i = 0" | "?i = 1" | "2 \<le> ?i" by linarith
  then show ?thesis
  proof cases
    case 1
    then have "drop_bit 22 a = 0" by (simp add: unat_eq_zero)
    then have sm: "unat (drop_bit 12 a) < 1024" "take_bit 10 (drop_bit 12 a) = drop_bit 12 a"
      using drop_12_small by blast+
    note pt = init_paging_pte [OF sm(1), of s]
    have p: "unat (drop_bit 12 a) = unat a div 4096" by (simp add: drop_bit_eq_div unat_div)
    have "(ucast (of_nat (unat (drop_bit 12 a)) :: 20 word) :: u32) = drop_bit 12 a"
      using page_number_fits [of a] by (simp add: KB4_def drop_bit_eq_div)
    then have addr: "push_bit 12 (ucast (page_base (pageTable1 ?s (unat (drop_bit 12 a))))) + take_bit 12 a = a"
      unfolding pt(3) by (simp add: addr_split)
    show ?thesis
      using 1 i pd pt addr by (simp add: translate_def Let_def page_number_fits and_mask10 and_mask12 sm kernel_video_page_def p)
  next
    case 2
    then have "drop_bit 22 a = 1" by (metis unat_1 unsigned_word_eqI)
    then have "push_bit 12 (ucast (0x400 :: 20 word)) + take_bit 22 a = a"
      using addr_split [of 22 a] by simp
    with 2 i pd show ?thesis by (simp add: translate_def Let_def and_mask22)
  next
    case 3
    then have "\<not> kernel_video_page a" using i by (auto simp: kernel_video_page_def)
    with 3 i pd show ?thesis by (simp add: translate_def Let_def)
  qed
qed


section \<open>Processes\<close>

text \<open>The frame of process \<open>n\<close>; the window shows what the directory says.\<close>

definition process_frame :: "u32 \<Rightarrow> 20 word" where
  "process_frame n = ucast ((KERNEL_END_ADDR + n * PAGE_SIZE_LARGE) div KB4)"

definition paging_ok :: "'a paging_scheme \<Rightarrow> bool" where
  "paging_ok s \<longleftrightarrow> window s = mapped_frame s"

lemma load_cr3_ok [simp]: "paging_ok (load_cr3 s)"
  by (simp add: paging_ok_def load_cr3_def mapped_frame_def Let_def)

lemma user_entry_frame [simp]: "mapped_frame (set_pde 32 (user_entry f) s) = Some f"
  by (simp add: mapped_frame_def set_pde_def user_entry_def Let_def)

lemma set_pde_simps [simp]:
  "mem (set_pde i g s) = mem s" "window (set_pde i g s) = window s" "frames (set_pde i g s) = frames s"
  "pageDirectory (set_pde i g s) = (pageDirectory s)(i := g (pageDirectory s i))" "table_addr (set_pde i g s) = table_addr s"
  "pageTable1 (set_pde i g s) = pageTable1 s"
  by (simp_all add: set_pde_def)

lemma load_cr3_simps [simp]:
  "pageDirectory (load_cr3 s) = pageDirectory s" "table_addr (load_cr3 s) = table_addr s"
  "pageTable1 (load_cr3 s) = pageTable1 s" "window (load_cr3 s) = mapped_frame s"
  by (simp_all add: load_cr3_def Let_def)

text \<open>Both routines install a frame and reload; the memory seen through the window follows.\<close>

definition install_frame :: "20 word \<Rightarrow> 'a paging_scheme \<Rightarrow> 'a paging_scheme" where
  "install_frame f s = load_cr3 (set_pde 32 (user_entry f) s)"

lemma init_new_process_eq:
  "init_new_process n s = (ucast (process_frame n), install_frame (process_frame n) s)"
  by (simp add: init_new_process_def Let_def install_frame_def process_frame_def user_entry_def)

lemma switch_pd_eq: "switch_pd n base s = (0, install_frame (ucast base) s)"
  by (simp add: switch_pd_def Let_def install_frame_def)

definition saved_frames :: "'a paging_scheme \<Rightarrow> 20 word \<Rightarrow> memory" where
  "saved_frames s = (case window s of None \<Rightarrow> frames s
     | Some f \<Rightarrow> (frames s)(f := \<lambda>ofs. mem s (user_base + ofs)))"

lemma install_frame_simps [simp]:
  "window (install_frame f s) = Some f" "mapped_frame (install_frame f s) = Some f"
  "frames (install_frame f s) = saved_frames s"
  "mem (install_frame f s) = (\<lambda>a. if in_window a then saved_frames s f (a - user_base) else mem s a)"
  by (simp_all add: install_frame_def load_cr3_def Let_def saved_frames_def mapped_frame_def user_entry_def
      cong: if_cong split: option.splits)

lemma process_frame_inj:
  assumes "n < 8" "k < 8" "process_frame n = process_frame k"
  shows "n = k"
proof -
  have "\<forall>i\<in>set [0..<8]. \<forall>j\<in>set [0..<8]. process_frame (of_nat i) = process_frame (of_nat j) \<longrightarrow> i = j"
    by code_simp
  moreover have "unat n \<in> set [0..<8]" "unat k \<in> set [0..<8]" using assms by (simp_all add: word_less_nat_alt)
  moreover have "process_frame (of_nat (unat n)) = process_frame (of_nat (unat k))" using assms(3) by simp
  ultimately show ?thesis by (metis unsigned_word_eqI)
qed

lemma process_frame_addr:
  assumes "n < 8"
  shows "push_bit 12 (ucast (process_frame n)) = KERNEL_END_ADDR + n * PAGE_SIZE_LARGE"
proof -
  have "\<forall>i\<in>set [0..<8]. push_bit 12 (ucast (process_frame (of_nat i))) = KERNEL_END_ADDR + of_nat i * PAGE_SIZE_LARGE"
    by code_simp
  moreover have "unat n \<in> set [0..<8]" using assms by (simp add: word_less_nat_alt)
  ultimately have "push_bit 12 (ucast (process_frame (of_nat (unat n)))) = KERNEL_END_ADDR + of_nat (unat n) * PAGE_SIZE_LARGE"
    by blast
  then show ?thesis by simp
qed

lemma in_window_dir: "in_window a \<longleftrightarrow> unat (drop_bit 22 a) = 32"
proof -
  have "in_window a \<longleftrightarrow> a \<in> rng user_base 4194304" by (simp add: in_window_def)
  also have "\<dots> \<longleftrightarrow> 134217728 \<le> unat a \<and> unat a < 138412032"
    by (subst in_rng_interval) (simp_all add: user_base_def)
  also have "\<dots> \<longleftrightarrow> unat a div 4194304 = 32" by auto
  finally show ?thesis by (simp add: drop_bit_eq_div unat_div)
qed

lemma window_offset: "in_window a \<Longrightarrow> a AND 0x003FFFFF = a - user_base"
proof -
  assume "in_window a"
  then have "unat (drop_bit 22 a) = unat (32 :: u32)" by (simp add: in_window_dir)
  then have "drop_bit 22 a = 32" by (rule unsigned_word_eqI)
  then have "a = push_bit 22 32 + take_bit 22 a" by (metis addr_split)
  moreover have "push_bit 22 (32 :: u32) = user_base" by (simp add: user_base_def)
  ultimately show ?thesis by (simp add: and_mask22) (metis add_diff_cancel_left')
qed

lemma install_frame_translate:
  "translate (install_frame f s) a =
     (if in_window a then Some (push_bit 12 (ucast f) + (a - user_base), True) else translate s a)"
proof (cases "in_window a")
  case True
  then show ?thesis
    using window_offset [OF True] by (simp add: translate_def install_frame_def in_window_dir user_entry_def Let_def)
next
  case False
  then show ?thesis by (simp add: translate_def install_frame_def in_window_dir user_entry_def Let_def)
qed


section \<open>Properties\<close>

text \<open>C28: after \<^verbatim>\<open>init_paging\<close> the processor maps the 4 MB of the kernel to themselves, for the
  kernel only, and the four text pages to themselves; every other address faults.\<close>

theorem init_paging_maps_kernel_and_video:
  shows "translate (init_paging s) a =
     (if unat a div 4194304 = 1 then Some (a, False) else if kernel_video_page a then Some (a, True) else None)"
  by (rule init_paging_translate)

text \<open>\<^verbatim>\<open>init_new_process n\<close> maps the 4 MB of user space at 128 MB to the \<open>n\<close>-th 4 MB frame
  after the kernel, leaves every other translation as it was, and returns the frame number;
  different processes get different frames.\<close>

theorem init_new_process_maps_frame:
  assumes "n < 8"
  shows "translate (snd (init_new_process n s)) a =
      (if in_window a then Some (0x800000 + n * 0x400000 + (a - user_base), True) else translate s a)
    \<and> fst (init_new_process n s) = ucast (process_frame n)
    \<and> (\<forall>k<8. process_frame k = process_frame n \<longrightarrow> k = n)"
  using assms process_frame_inj
  by (auto simp: init_new_process_eq install_frame_translate process_frame_addr KERNEL_END_ADDR_def PAGE_SIZE_LARGE_def)

definition demo_paging :: paging where
  "demo_paging = mouse.extend demo_mouse
     \<lparr>pageDirectory = \<lambda>_. \<lparr>pd_present = False, pd_read_write = False, pd_user_super = False, pd_write_through = False,
        pd_cache_disabled = False, pd_accessed = False, pd_reserved = False, pd_page_size = False, pd_global = False,
        pd_avail = 0, page_table_base = 0\<rparr>,
      pageTable1 = \<lambda>_. \<lparr>pt_present = False, pt_read_write = False, pt_user_super = False, pt_write_through = False,
        pt_cache_disabled = False, pt_accessed = False, pt_dirty = False, pt_attribute = False, pt_global = False,
        pt_avail = 0, page_base = 0\<rparr>,
      directory_addr = 0x401000, table_addr = 0x402000, cr0 = 0, cr3 = 0, cr4 = 0, frames = \<lambda>_ _. 0, window = None\<rparr>"

theorem init_new_process_maps_frame_witness:
  "translate (snd (init_new_process 2 demo_paging)) 0x08048000 = Some (0x1048000, True)"
  using init_new_process_maps_frame [of 2 demo_paging "0x08048000"] by (simp add: in_window_def user_base_def)

text \<open>C13: a process's memory survives another process: start a process in another frame, let it do
  anything to the memory, and switch back to the frame returned at the start; the user window
  then shows what it showed before, the rest of memory is as the other process left it, and
  the other process's image is kept in its frame.\<close>

theorem process_memory_isolated:
  assumes "n < 8" "k < 8" "n \<noteq> k" and "s1 = snd (init_new_process n s)"
    and "s2 = snd (init_new_process k s1)" and "s3 = snd (switch_pd pid (fst (init_new_process n s)) (s2\<lparr>mem := m\<rparr>))"
  shows "mem s3 a = (if in_window a then mem s1 a else m a) \<and> frames s3 (process_frame k) ofs = m (user_base + ofs)"
proof -
  have "process_frame n \<noteq> process_frame k" using process_frame_inj assms(1-3) by blast
  moreover have "(ucast (ucast (process_frame n) :: u32) :: 20 word) = process_frame n"
    by (rule bit_word_eqI) (simp add: bit_simps)
  ultimately show ?thesis
    by (simp add: assms(4-6) init_new_process_eq switch_pd_eq saved_frames_def)
qed

theorem process_memory_isolated_witness:
  "let s1 = snd (init_new_process 0 demo_paging);
       s3 = snd (switch_pd 0 (fst (init_new_process 0 demo_paging)) ((snd (init_new_process 1 s1))\<lparr>mem := \<lambda>_. 7\<rparr>))
   in mem s3 0x08048000 = mem s1 0x08048000 \<and> mem s3 0x500000 = 7"
  using process_memory_isolated [where n = 0 and k = 1 and s = demo_paging and pid = 0 and m = "\<lambda>_. 7" and ofs = 0
      and a = "0x08048000", OF _ _ _ refl refl refl]
    process_memory_isolated [where n = 0 and k = 1 and s = demo_paging and pid = 0 and m = "\<lambda>_. 7" and ofs = 0
      and a = "0x500000", OF _ _ _ refl refl refl]
  by (simp add: in_window_def user_base_def Let_def)

end
