(* ===== verification/Keyboard.thy ===== *)
theory Keyboard
  imports Paging
begin

text \<open>
  The keyboard and terminal driver, \<^verbatim>\<open>src/drivers/keyboard.c\<close>: scan codes are decoded with
  the state of the modifier keys into a line buffer per terminal, which \<^verbatim>\<open>terminal_read\<close>
  hands to the running process after Enter. \<^verbatim>\<open>halt\<close> and \<^verbatim>\<open>context_switch\<close>, which the handler
  calls, belong to components above this one and are parameters of \<open>handle_keypress\<close>.
\<close>

section \<open>State\<close>

text \<open>
  \<open>keyboard_buf\<close> is the two-dimensional array row after row, so that an index past the end of
  a row is a cell of the next one, as in memory. \<open>curr_active_term\<close> of \<^verbatim>\<open>syscall.c\<close> is here
  because the driver asks for it.
\<close>

record kbd = paging +
  prev_terminal :: u8
  second_term_start :: u8
  third_term_start :: u8
  keyboard_buf :: "nat \<Rightarrow> u32"
  num_chars_in_buf :: "nat \<Rightarrow> u32"
  read_buf_ready :: "nat \<Rightarrow> i32"
  special_key_enabled :: bool
  cntrl_l_on :: bool
  cntrl_r_on :: bool
  caps_on :: bool
  shift_l_on :: bool
  shift_r_on :: bool
  alt_l_on :: bool
  alt_r_on :: bool
  curr_active_term :: u8

definition MAX_CHARS_IN_BUF :: nat where "MAX_CHARS_IN_BUF = 1023"

definition KEYBOARD_D_PORT :: u16 where "KEYBOARD_D_PORT = 0x60"

definition ASCII_PLACEHOLDER :: u8 where "ASCII_PLACEHOLDER = 0xFE"

text \<open>The scan codes and commands that the handler looks at.\<close>

definition KEYBOARD_D_ACK :: u8 where [simp]: "KEYBOARD_D_ACK = 0xFA"

definition KEYBOARD_LED_V :: u8 where [simp]: "KEYBOARD_LED_V = 0xED"

definition MAX_MAKE_SCANCODE :: u8 where [simp]: "MAX_MAKE_SCANCODE = 0x59"

definition KEY_MAKE_BKSP :: u8 where [simp]: "KEY_MAKE_BKSP = 0x0E"

definition KEY_MAKE_TAB :: u8 where [simp]: "KEY_MAKE_TAB = 0x0F"

definition KEY_MAKE_ENTER :: u8 where [simp]: "KEY_MAKE_ENTER = 0x1C"

definition KEY_MAKE_L_CTRL :: u8 where [simp]: "KEY_MAKE_L_CTRL = 0x1D"

definition KEY_MAKE_L :: u8 where [simp]: "KEY_MAKE_L = 0x26"

definition KEY_MAKE_L_SHIFT :: u8 where [simp]: "KEY_MAKE_L_SHIFT = 0x2A"

definition KEY_MAKE_C :: u8 where [simp]: "KEY_MAKE_C = 0x2E"

definition KEY_MAKE_R_SHIFT :: u8 where [simp]: "KEY_MAKE_R_SHIFT = 0x36"

definition KEY_MAKE_ALT :: u8 where [simp]: "KEY_MAKE_ALT = 0x38"

definition KEY_MAKE_CAPS :: u8 where [simp]: "KEY_MAKE_CAPS = 0x3A"

definition KEY_MAKE_F1 :: u8 where [simp]: "KEY_MAKE_F1 = 0x3B"

definition KEY_MAKE_F2 :: u8 where [simp]: "KEY_MAKE_F2 = 0x3C"

definition KEY_MAKE_F3 :: u8 where [simp]: "KEY_MAKE_F3 = 0x3D"

definition KEY_BREAK_L_CTRL :: u8 where [simp]: "KEY_BREAK_L_CTRL = 0x9D"

definition KEY_BREAK_L_SHIFT :: u8 where [simp]: "KEY_BREAK_L_SHIFT = 0xAA"

definition KEY_BREAK_R_SHIFT :: u8 where [simp]: "KEY_BREAK_R_SHIFT = 0xB6"

definition SPECIAL_KEY :: u8 where [simp]: "SPECIAL_KEY = 0xE0"

definition KEY_MAKE_R_CTRL :: u8 where [simp]: "KEY_MAKE_R_CTRL = 0x1D"

definition KEY_BREAK_R_CTRL :: u8 where [simp]: "KEY_BREAK_R_CTRL = 0x9D"

definition KEY_MAKE_R_ALT :: u8 where [simp]: "KEY_MAKE_R_ALT = 0x38"

definition KEY_BREAK_ALT :: u8 where [simp]: "KEY_BREAK_ALT = 0xB8"

definition code_to_ascii :: "u8 list" where
  "code_to_ascii =
    [0, 254, 49, 50, 51, 52, 53, 54, 55, 56, 57, 48, 45, 61, 254, 254, 113, 119,
     101, 114, 116, 121, 117, 105, 111, 112, 91, 93, 254, 254, 97, 115, 100, 102, 103, 104,
     106, 107, 108, 59, 39, 96, 254, 92, 122, 120, 99, 118, 98, 110, 109, 44, 46, 47,
     254, 42, 254, 32, 254, 254, 254, 254, 254, 254, 254, 254, 254, 254, 254, 254, 254, 55,
     56, 57, 45, 52, 53, 54, 43, 49, 50, 51, 48, 46, 0, 0, 0, 254, 254]"

definition shift_ascii :: "u8 list" where
  "shift_ascii =
    [0, 254, 33, 64, 35, 36, 37, 94, 38, 42, 40, 41, 95, 43, 254, 254, 81, 87,
     69, 82, 84, 89, 85, 73, 79, 80, 123, 125, 254, 254, 65, 83, 68, 70, 71, 72,
     74, 75, 76, 58, 34, 126, 254, 124, 90, 88, 67, 86, 66, 78, 77, 60, 62, 63,
     254, 42, 254, 32, 254, 254, 254, 254, 254, 254, 254, 254, 254, 254, 254, 254, 254, 55,
     56, 57, 45, 52, 53, 54, 43, 49, 50, 51, 48, 46, 0, 0, 0, 254, 254]"

definition caps_ascii :: "u8 list" where
  "caps_ascii =
    [0, 254, 49, 50, 51, 52, 53, 54, 55, 56, 57, 48, 45, 61, 254, 254, 81, 87,
     69, 82, 84, 89, 85, 73, 79, 80, 123, 125, 254, 254, 65, 83, 68, 70, 71, 72,
     74, 75, 76, 58, 34, 126, 254, 124, 90, 88, 67, 86, 66, 78, 77, 44, 46, 47,
     254, 42, 254, 32, 254, 254, 254, 254, 254, 254, 254, 254, 254, 254, 254, 254, 254, 55,
     56, 57, 45, 52, 53, 54, 43, 49, 50, 51, 48, 46, 0, 0, 0, 254, 254]"

text \<open>How a routine that may leave its caller's stack ends: it returns a value, jumps to a user
  program, or continues on another kernel stack.\<close>

datatype ('v, 's) flow = Ret 'v 's | Enter_user u32 's | Resume_stack 's

section \<open>The line buffers\<close>

definition buf_index :: "nat \<Rightarrow> nat \<Rightarrow> nat" where
  "buf_index t i = t * MAX_CHARS_IN_BUF + i"

definition active :: "'a kbd_scheme \<Rightarrow> nat" where
  "active s = unat (active_terminal s)"

definition set_buf :: "nat \<Rightarrow> nat \<Rightarrow> u32 \<Rightarrow> 'a kbd_scheme \<Rightarrow> 'a kbd_scheme" where
  "set_buf t i v s = s\<lparr>keyboard_buf := (keyboard_buf s)(buf_index t i := v)\<rparr>"

definition set_num :: "nat \<Rightarrow> u32 \<Rightarrow> 'a kbd_scheme \<Rightarrow> 'a kbd_scheme" where
  "set_num t n s = s\<lparr>num_chars_in_buf := (num_chars_in_buf s)(t := n)\<rparr>"

definition set_ready :: "nat \<Rightarrow> i32 \<Rightarrow> 'a kbd_scheme \<Rightarrow> 'a kbd_scheme" where
  "set_ready t v s = s\<lparr>read_buf_ready := (read_buf_ready s)(t := v)\<rparr>"

definition get_curr_running_term_proc :: "'a kbd_scheme \<Rightarrow> u8" where
  "get_curr_running_term_proc s = curr_active_term s"

definition terminal_open :: "'a kbd_scheme \<Rightarrow> i32 \<times> 'a kbd_scheme" where
  "terminal_open s =
     (let s = clear_screen s;
          s = fold (\<lambda>i s. set_buf (active s) i 0 s) [0..<MAX_CHARS_IN_BUF] s;
          s = set_num (active s) 0 s
      in (0, set_ready (active s) 0 s))"

definition terminal_close :: "i32 \<Rightarrow> i32" where
  "terminal_close fd = 0"

text \<open>
  \<^verbatim>\<open>while(!read_buf_ready[...]);\<close> What interrupts do in a round of the loop is the parameter
  \<open>irqs\<close>, as for \<^const>\<open>rtc_wait\<close>.
\<close>

partial_function (option) terminal_wait ::
  "(nat \<Rightarrow> 'a kbd_scheme \<Rightarrow> 'a kbd_scheme option) \<Rightarrow> nat \<Rightarrow> 'a kbd_scheme \<Rightarrow> 'a kbd_scheme option" where
  "terminal_wait irqs n s =
     (if read_buf_ready s (unat (get_curr_running_term_proc s)) \<noteq> 0 then Some s
      else Option.bind (irqs n s) (\<lambda>s. terminal_wait irqs (Suc n) s))"

definition terminal_copy :: "u32 \<Rightarrow> i32 \<Rightarrow> 'a kbd_scheme \<Rightarrow> 'a kbd_scheme" where
  "terminal_copy buf nbytes s =
     fold (\<lambda>i s. let t = unat (get_curr_running_term_proc s);
                     s = poke (buf + of_nat i) (ucast (keyboard_buf s (buf_index t i))) s
                 in set_buf t i 0 s)
       [0..<nat (sint nbytes + 1)] s"

definition terminal_read ::
  "(nat \<Rightarrow> 'a kbd_scheme \<Rightarrow> 'a kbd_scheme option) \<Rightarrow> u32 \<Rightarrow> i32 \<Rightarrow> 'a kbd_scheme \<Rightarrow> (i32 \<times> 'a kbd_scheme) option" where
  "terminal_read irqs buf nbytes s =
     map_option (\<lambda>s.
       let s = terminal_copy buf nbytes s;
           bytes_read = of_nat (nat (sint nbytes + 1));
           s = new_line s;
           s = set_num (unat (get_curr_running_term_proc s)) 0 s
       in (bytes_read, set_ready (unat (get_curr_running_term_proc s)) 0 s))
     (terminal_wait irqs 0 s)"

definition add_char_to_buffer :: "u8 \<Rightarrow> u8 \<Rightarrow> 'a kbd_scheme \<Rightarrow> u32 \<times> 'a kbd_scheme" where
  "add_char_to_buffer new_char trm s =
     (let t = unat trm in
      if unat (num_chars_in_buf s t) < MAX_CHARS_IN_BUF then
        if new_char = 10 then (1, new_line s)
        else if new_char = 0 then (1, s)
        else
          let s = set_buf t (unat (num_chars_in_buf s t)) (ucast new_char) s;
              s = set_num t (num_chars_in_buf s t + 1) s
          in (1, putc new_char s)
      else (0, s))"

text \<open>The body of the loop of \<^verbatim>\<open>terminal_write\<close>.\<close>

definition write_char :: "u32 \<Rightarrow> nat \<Rightarrow> i32 \<times> 'a kbd_scheme \<Rightarrow> i32 \<times> 'a kbd_scheme" where
  "write_char buf = (\<lambda>i (n, s).
     let (r, s) = add_char_to_buffer (mem s (buf + of_nat i)) (get_curr_running_term_proc s) s
     in (if r \<noteq> 0 then n + 1 else n, s))"

definition terminal_write :: "u32 \<Rightarrow> i32 \<Rightarrow> 'a kbd_scheme \<Rightarrow> i32 \<times> 'a kbd_scheme" where
  "terminal_write buf nbytes s =
     (let (num_printed, s) = fold (write_char buf) [0..<nat (sint nbytes)] (0, s);
          s = set_num (active s) 0 s
      in (num_printed, set_ready (active s) 0 s))"

definition reset_term :: "'a kbd_scheme \<Rightarrow> 'a kbd_scheme" where
  "reset_term s =
     (let s = fold (\<lambda>i s. set_buf (active s) i 0 s) [0..<MAX_CHARS_IN_BUF] s;
          s = set_num (active s) 0 s
      in clear_screen s)"

text \<open>The loop bound is inclusive: the last store is one cell past the terminal's row.\<close>

definition handle_enter :: "'a kbd_scheme \<Rightarrow> 'a kbd_scheme" where
  "handle_enter s =
     (let s = fold (\<lambda>i s. set_buf (active s) i 0 s)
                [unat (num_chars_in_buf s (active s))..<MAX_CHARS_IN_BUF + 1] s
      in set_ready (active s) 1 s)"

text \<open>The three statements that erase the last character typed.\<close>

definition erase_char :: "'a kbd_scheme \<Rightarrow> 'a kbd_scheme" where
  "erase_char s =
     (let s = del_last_char s;
          s = set_num (active s) (num_chars_in_buf s (active s) - 1) s
      in set_buf (active s) (unat (num_chars_in_buf s (active s))) 0 s)"

definition handle_backspace :: "'a kbd_scheme \<Rightarrow> 'a kbd_scheme" where
  "handle_backspace s = (if num_chars_in_buf s (active s) > 0 then erase_char s else s)"

lemma active_simps [simp]:
  "active (set_buf t i v s) = active s" "active (set_num t n s) = active s" "active (set_ready t r s) = active s"
  by (simp_all add: active_def set_buf_def set_num_def set_ready_def)

lemma del_last_char_frame: "console_frame s (del_last_char s)"
  by (auto simp: del_last_char_eq console_frame_def put_cell_mem update_cursor_bytes)

lemma console_frame_kbd:
  assumes "console_frame s s'"
  shows "active s' = active s" "num_chars_in_buf s' = num_chars_in_buf s" "keyboard_buf s' = keyboard_buf s"
    "read_buf_ready s' = read_buf_ready s" "curr_active_term s' = curr_active_term s"
    "active_terminal s' = active_terminal s"
  using assms by (elim console_frameE, simp add: active_def)+

lemma erase_char_simps [simp]:
  "active (erase_char s) = active s"
  "num_chars_in_buf (erase_char s) = (num_chars_in_buf s)(active s := num_chars_in_buf s (active s) - 1)"
  using console_frame_kbd [OF del_last_char_frame [of s]]
  by (simp_all add: erase_char_def Let_def) (simp_all add: set_num_def set_buf_def)

function reset_curr_command :: "'a kbd_scheme \<Rightarrow> 'a kbd_scheme" where
  "reset_curr_command s =
     (if num_chars_in_buf s (active s) > 0 then reset_curr_command (erase_char s) else s)"
  by pat_completeness auto
termination
  by (relation "measure (\<lambda>s. unat (num_chars_in_buf s (active s)))")
     (auto simp: unat_gt_0 measure_unat word_gt_0)

declare reset_curr_command.simps [simp del]

text \<open>The command is read from memory character by character while it is printed.\<close>

definition fill_curr_command :: "u32 \<Rightarrow> 'a kbd_scheme \<Rightarrow> 'a kbd_scheme option" where
  "fill_curr_command command s =
     map_option (\<lambda>len. fold (\<lambda>i s. snd (add_char_to_buffer (mem s (command + of_nat i)) (active_terminal s) s))
         [0..<len] s)
       (strlen (view (mem s) command))"

text \<open>\<^verbatim>\<open>(char * ) keyboard_buf[active_terminal]\<close>: the bytes of the row's 32-bit elements.\<close>

definition row_bytes :: "'a kbd_scheme \<Rightarrow> cview" where
  "row_bytes s i = ucast (drop_bit (8 * (i mod 4)) (keyboard_buf s (buf_index (active s) (i div 4))))"

definition handle_tab :: "'a kbd_scheme \<Rightarrow> 'a kbd_scheme option" where
  "handle_tab s =
     Option.bind (autocomplete_command (row_bytes s) s) (\<lambda>complete_name.
       if complete_name = -1 then Some s
       else fill_curr_command complete_name (reset_curr_command s))"

definition kbd_ack :: "'a kbd_scheme \<Rightarrow> 'a kbd_scheme option" where
  "kbd_ack s = inb_until (\<lambda>v. v = KEYBOARD_D_ACK) KEYBOARD_D_PORT s"

definition kbd_led_handling :: "bool \<Rightarrow> bool \<Rightarrow> bool \<Rightarrow> 'a kbd_scheme \<Rightarrow> 'a kbd_scheme option" where
  "kbd_led_handling caps num scroll s =
     Option.bind (kbd_ack (outb KEYBOARD_LED_V KEYBOARD_D_PORT s)) (\<lambda>s.
       let ledstatus = 0 :: u32;
           ledstatus = (if caps then ledstatus OR 4 else ledstatus);
           ledstatus = (if num then ledstatus OR 2 else ledstatus);
           ledstatus = (if scroll then ledstatus OR 1 else ledstatus)
       in Some (outb (ucast ledstatus) KEYBOARD_D_PORT s))"

section \<open>The interrupt handler\<close>

text \<open>The keys F1 to F3.\<close>

definition switch_terminal ::
  "(u8 \<Rightarrow> u8 \<Rightarrow> 'a kbd_scheme \<Rightarrow> (unit, 'a kbd_scheme) flow option) \<Rightarrow> u8 \<Rightarrow> bool
     \<Rightarrow> 'a kbd_scheme \<Rightarrow> (unit, 'a kbd_scheme) flow option" where
  "switch_terminal context_switch dest flags s =
     (let s = update_screen dest (active_terminal s) s;
          s = s\<lparr>prev_terminal := active_terminal s\<rparr>;
          s = s\<lparr>active_terminal := dest\<rparr>;
          s = send_eoi 1 s;
          s = restore_flags flags s
      in context_switch (prev_terminal s) (active_terminal s) s)"

text \<open>A make code that prints: \<open>key_code\<close> is below \<^verbatim>\<open>MAX_MAKE_SCANCODE\<close>.\<close>

definition key_print ::
  "(u8 \<Rightarrow> 'a kbd_scheme \<Rightarrow> (i32, 'a kbd_scheme) flow option) \<Rightarrow> u8 \<Rightarrow> bool
     \<Rightarrow> 'a kbd_scheme \<Rightarrow> (unit, 'a kbd_scheme) flow option" where
  "key_print halt key_code flags s =
     (if cntrl_l_on s \<or> cntrl_r_on s then
        if key_code = KEY_MAKE_L then Some (Ret () (reset_term s))
        else if key_code = KEY_MAKE_C then
          (case halt (-2) (restore_flags flags (send_eoi 1 s)) of
             None \<Rightarrow> None
           | Some (Ret _ s) \<Rightarrow> Some (Ret () s)
           | Some (Enter_user a s) \<Rightarrow> Some (Enter_user a s)
           | Some (Resume_stack s) \<Rightarrow> Some (Resume_stack s))
        else Some (Ret () s)
      else
        let key_ascii =
              (if caps_on s \<and> \<not> (shift_l_on s \<or> shift_r_on s) then caps_ascii ! unat key_code
               else if \<not> caps_on s \<and> (shift_l_on s \<or> shift_r_on s) then shift_ascii ! unat key_code
               else code_to_ascii ! unat key_code)
        in Some (Ret () (snd (add_char_to_buffer key_ascii (active_terminal s) s))))"

definition key_control ::
  "(u8 \<Rightarrow> u8 \<Rightarrow> 'a kbd_scheme \<Rightarrow> (unit, 'a kbd_scheme) flow option) \<Rightarrow> u8 \<Rightarrow> bool
     \<Rightarrow> 'a kbd_scheme \<Rightarrow> (unit, 'a kbd_scheme) flow option" where
  "key_control context_switch key_code flags s =
     (if key_code = KEY_MAKE_L_CTRL then Some (Ret () (s\<lparr>cntrl_l_on := True\<rparr>))
      else if key_code = KEY_MAKE_L_SHIFT then Some (Ret () (s\<lparr>shift_l_on := True\<rparr>))
      else if key_code = KEY_MAKE_R_SHIFT then Some (Ret () (s\<lparr>shift_r_on := True\<rparr>))
      else if key_code = KEY_MAKE_CAPS then
        let s = s\<lparr>caps_on := \<not> caps_on s\<rparr>
        in map_option (Ret ()) (kbd_led_handling (caps_on s) False False s)
      else if key_code = KEY_MAKE_ENTER then Some (Ret () (handle_enter s))
      else if key_code = KEY_MAKE_BKSP then Some (Ret () (handle_backspace s))
      else if key_code = KEY_MAKE_ALT then Some (Ret () (s\<lparr>alt_l_on := True\<rparr>))
      else if key_code = KEY_MAKE_F1 then switch_terminal context_switch 0 flags s
      else if key_code = KEY_MAKE_F2 then switch_terminal context_switch 1 flags s
      else if key_code = KEY_MAKE_F3 then switch_terminal context_switch 2 flags s
      else if key_code = KEY_MAKE_TAB then map_option (Ret ()) (handle_tab s)
      else Some (Ret () s))"

definition key_special :: "'a kbd_scheme \<Rightarrow> 'a kbd_scheme" where
  "key_special s =
     (let s = s\<lparr>special_key_enabled := True\<rparr>;
          (key_code, s) = inb KEYBOARD_D_PORT s
      in if key_code = KEY_MAKE_R_CTRL then s\<lparr>cntrl_r_on := True\<rparr>
         else if key_code = KEY_BREAK_R_CTRL then s\<lparr>cntrl_r_on := False\<rparr>
         else if key_code = KEY_MAKE_R_ALT then s\<lparr>alt_r_on := True\<rparr>
         else if key_code = KEY_BREAK_ALT then s\<lparr>alt_r_on := False\<rparr>
         else s)"

definition key_break :: "u8 \<Rightarrow> 'a kbd_scheme \<Rightarrow> 'a kbd_scheme" where
  "key_break key_code s =
     (if key_code = KEY_BREAK_L_CTRL then s\<lparr>cntrl_l_on := False\<rparr>
      else if key_code = KEY_BREAK_L_SHIFT then s\<lparr>shift_l_on := False\<rparr>
      else if key_code = KEY_BREAK_R_SHIFT then s\<lparr>shift_r_on := False\<rparr>
      else if key_code = KEY_BREAK_ALT then s\<lparr>alt_l_on := False\<rparr>
      else s)"

definition handle_keypress ::
  "(u8 \<Rightarrow> 'a kbd_scheme \<Rightarrow> (i32, 'a kbd_scheme) flow option)
     \<Rightarrow> (u8 \<Rightarrow> u8 \<Rightarrow> 'a kbd_scheme \<Rightarrow> (unit, 'a kbd_scheme) flow option)
     \<Rightarrow> 'a kbd_scheme \<Rightarrow> (unit, 'a kbd_scheme) flow option" where
  "handle_keypress halt context_switch s =
     (let (flags, s) = cli_and_save s;
          (key_code, s) = inb KEYBOARD_D_PORT s;
          r = (if key_code < MAX_MAKE_SCANCODE then
                 let key_ascii = code_to_ascii ! unat key_code
                 in if key_ascii \<noteq> ASCII_PLACEHOLDER \<and> \<not> special_key_enabled s then
                      key_print halt key_code flags s
                    else if special_key_enabled s then Some (Ret () (s\<lparr>special_key_enabled := False\<rparr>))
                    else key_control context_switch key_code flags s
               else if key_code = SPECIAL_KEY then Some (Ret () (key_special s))
               else Some (Ret () (key_break key_code s)))
      in case r of
           Some (Ret _ s) \<Rightarrow> Some (Ret () (restore_flags flags (send_eoi 1 s)))
         | _ \<Rightarrow> r)"

definition get_second_term_start :: "'a kbd_scheme \<Rightarrow> u8" where
  "get_second_term_start s = second_term_start s"

definition set_second_term_start :: "'a kbd_scheme \<Rightarrow> 'a kbd_scheme" where
  "set_second_term_start s = s\<lparr>second_term_start := 1\<rparr>"

definition set_third_term_start :: "'a kbd_scheme \<Rightarrow> 'a kbd_scheme" where
  "set_third_term_start s = s\<lparr>third_term_start := 1\<rparr>"

definition get_third_term_start :: "'a kbd_scheme \<Rightarrow> u8" where
  "get_third_term_start s = third_term_start s"

section \<open>The line of a terminal\<close>

definition line :: "'a kbd_scheme \<Rightarrow> nat \<Rightarrow> u32 list" where
  "line s t = map (\<lambda>i. keyboard_buf s (buf_index t i)) [0..<unat (num_chars_in_buf s t)]"

definition kbd_ok :: "'a kbd_scheme \<Rightarrow> bool" where
  "kbd_ok s \<longleftrightarrow> active s < 3 \<and> (\<forall>t<3. unat (num_chars_in_buf s t) \<le> MAX_CHARS_IN_BUF)"

lemma buf_index_inj:
  assumes "i < 1023" "j < 1023"
  shows "buf_index t i = buf_index t' j \<longleftrightarrow> t = t' \<and> i = j"
proof
  assume "buf_index t i = buf_index t' j"
  then have e: "t * 1023 + i = t' * 1023 + j" by (simp add: buf_index_def MAX_CHARS_IN_BUF_def)
  then have "(t * 1023 + i) div 1023 = (t' * 1023 + j) div 1023" by simp
  then have "t = t'" using assms by simp
  with e show "t = t' \<and> i = j" by simp
qed simp

lemma length_line [simp]: "length (line s t) = unat (num_chars_in_buf s t)"
  by (simp add: line_def)

lemma set_buf_num_simps [simp]:
  "num_chars_in_buf (set_buf t i v s) = num_chars_in_buf s"
  "keyboard_buf (set_buf t i v s) = (keyboard_buf s)(buf_index t i := v)"
  "keyboard_buf (set_num t n s) = keyboard_buf s"
  "num_chars_in_buf (set_num t n s) = (num_chars_in_buf s)(t := n)"
  "keyboard_buf (set_ready t r s) = keyboard_buf s"
  "num_chars_in_buf (set_ready t r s) = num_chars_in_buf s"
  "read_buf_ready (set_buf t i v s) = read_buf_ready s"
  "read_buf_ready (set_num t n s) = read_buf_ready s"
  "read_buf_ready (set_ready t r s) = (read_buf_ready s)(t := r)"
  "curr_active_term (set_buf t i v s) = curr_active_term s"
  "curr_active_term (set_num t n s) = curr_active_term s"
  "curr_active_term (set_ready t r s) = curr_active_term s"
  "mem (set_buf t i v s) = mem s" "mem (set_num t n s) = mem s" "mem (set_ready t r s) = mem s"
  "active_terminal (set_buf t i v s) = active_terminal s" "active_terminal (set_num t n s) = active_terminal s"
  "active_terminal (set_ready t r s) = active_terminal s"
  "abs_screen (set_buf t i v s) = abs_screen s" "abs_screen (set_num t n s) = abs_screen s"
  "abs_screen (set_ready t r s) = abs_screen s"
  "cursor_ok (set_buf t i v s) = cursor_ok s" "cursor_ok (set_num t n s) = cursor_ok s"
  "cursor_ok (set_ready t r s) = cursor_ok s"
  by (simp_all add: set_buf_def set_num_def set_ready_def abs_screen_def cursor_ok_def)

lemmas putc_kbd [simp] = console_frame_kbd [OF putc_frame]
lemmas new_line_kbd [simp] = console_frame_kbd [OF console_frame_steps(1)]
lemmas del_last_char_kbd [simp] = console_frame_kbd [OF del_last_char_frame]

text \<open>Editing a line, as its user sees it.\<close>

datatype edit_event = Typed u8 | Erased

fun edit :: "u32 list \<Rightarrow> edit_event \<Rightarrow> u32 list" where
  "edit xs (Typed c) = (if length xs < 1023 \<and> c \<noteq> 0 \<and> c \<noteq> 10 then xs @ [ucast c] else xs)"
| "edit xs Erased = butlast xs"

fun edit_step :: "'a kbd_scheme \<Rightarrow> edit_event \<Rightarrow> 'a kbd_scheme" where
  "edit_step s (Typed c) = snd (add_char_to_buffer c (active_terminal s) s)"
| "edit_step s Erased = handle_backspace s"

lemma line_cong:
  assumes "num_chars_in_buf s' t = num_chars_in_buf s t"
    and "\<And>i. i < unat (num_chars_in_buf s t) \<Longrightarrow> keyboard_buf s' (buf_index t i) = keyboard_buf s (buf_index t i)"
  shows "line s' t = line s t"
  using assms by (simp add: line_def)

lemma unat_Suc_small: "unat (n :: u32) < 1023 \<Longrightarrow> unat (n + 1) = Suc (unat n)"
  by (simp add: unat_word_ariths)

lemma add_char_line:
  assumes "kbd_ok s" and "unat trm < 3" and "t < 3"
  shows "line (snd (add_char_to_buffer c trm s)) t = (if t = unat trm then edit (line s t) (Typed c) else line s t)"
    and "kbd_ok (snd (add_char_to_buffer c trm s))"
    and "active_terminal (snd (add_char_to_buffer c trm s)) = active_terminal s"
proof -
  let ?t = "unat trm" and ?n = "unat (num_chars_in_buf s (unat trm))"
  have le: "\<And>t. t < 3 \<Longrightarrow> unat (num_chars_in_buf s t) \<le> 1023"
    using assms(1) by (simp add: kbd_ok_def MAX_CHARS_IN_BUF_def)
  show "line (snd (add_char_to_buffer c trm s)) t = (if t = unat trm then edit (line s t) (Typed c) else line s t)"
  proof (cases "?n < 1023 \<and> c \<noteq> 0 \<and> c \<noteq> 10")
    case True
    let ?s = "set_num ?t (num_chars_in_buf s ?t + 1) (set_buf ?t ?n (ucast c) s)"
    have add: "snd (add_char_to_buffer c trm s) = putc c ?s"
      using True by (simp add: add_char_to_buffer_def Let_def MAX_CHARS_IN_BUF_def)
    show ?thesis
    proof (cases "t = ?t")
      case eq: True
      have "line (putc c ?s) t = line s t @ [ucast c]"
        using True eq le [OF assms(3)] by (simp add: line_def unat_Suc_small buf_index_inj)
      with eq True show ?thesis by (simp add: add)
    next
      case False
      have "line (putc c ?s) t = line s t"
        using True False le [OF assms(3)] by (intro line_cong) (auto simp: buf_index_inj)
      with False show ?thesis by (simp add: add)
    qed
  next
    case False
    then show ?thesis
      by (auto simp: add_char_to_buffer_def Let_def MAX_CHARS_IN_BUF_def line_def)
  qed
  show "active_terminal (snd (add_char_to_buffer c trm s)) = active_terminal s"
    by (simp add: add_char_to_buffer_def Let_def)
  show "kbd_ok (snd (add_char_to_buffer c trm s))"
    using assms(1,2) unat_Suc_small [of "num_chars_in_buf s ?t"]
    by (auto simp: add_char_to_buffer_def Let_def kbd_ok_def MAX_CHARS_IN_BUF_def)
qed

lemma backspace_line:
  assumes "kbd_ok s" and "t < 3"
  shows "line (handle_backspace s) t = (if t = active s then butlast (line s t) else line s t)"
    and "kbd_ok (handle_backspace s)"
    and "active_terminal (handle_backspace s) = active_terminal s"
proof -
  let ?n = "num_chars_in_buf s (active s)"
  have le: "\<And>t. t < 3 \<Longrightarrow> unat (num_chars_in_buf s t) \<le> 1023" and a: "active s < 3"
    using assms(1) by (simp_all add: kbd_ok_def MAX_CHARS_IN_BUF_def)
  have u: "?n > 0 \<Longrightarrow> unat (?n - 1) = unat ?n - 1" "?n > 0 \<Longrightarrow> 0 < unat ?n"
    by (auto simp: word_gt_0 unat_minus_one unat_gt_0)
  have kb: "keyboard_buf (erase_char s) = (keyboard_buf s)(buf_index (active s) (unat (?n - 1)) := 0)"
    by (simp add: erase_char_def Let_def)
  show "line (handle_backspace s) t = (if t = active s then butlast (line s t) else line s t)"
  proof (cases "?n > 0")
    case True
    show ?thesis
    proof (cases "t = active s")
      case eq: True
      have "line (erase_char s) t = butlast (line s t)"
        using True eq u le [OF assms(2)] a
        by (intro nth_equalityI) (auto simp: line_def kb nth_butlast buf_index_inj)
      with eq True show ?thesis by (simp add: handle_backspace_def)
    next
      case False
      have "line (erase_char s) t = line s t"
        using True False u le [OF assms(2)] le [OF a] by (intro line_cong) (auto simp: kb buf_index_inj)
      with False True show ?thesis by (simp add: handle_backspace_def)
    qed
  next
    case False
    then have "?n = 0" by (simp add: word_gt_0)
    then show ?thesis by (simp add: handle_backspace_def line_def)
  qed
  show "active_terminal (handle_backspace s) = active_terminal s"
    by (simp add: handle_backspace_def erase_char_def Let_def)
  show "kbd_ok (handle_backspace s)"
    using assms(1) u by (auto simp: handle_backspace_def kbd_ok_def)
qed


lemma edit_step_line:
  assumes "kbd_ok s" and "t < 3"
  shows "line (edit_step s e) t = (if t = active s then edit (line s t) e else line s t)"
    and "kbd_ok (edit_step s e)" and "active (edit_step s e) = active s"
proof -
  have a: "unat (active_terminal s) < 3" using assms(1) by (simp add: kbd_ok_def active_def)
  show "line (edit_step s e) t = (if t = active s then edit (line s t) e else line s t)"
    using add_char_line [OF assms(1) a assms(2)] backspace_line [OF assms] by (cases e) (simp_all add: active_def)
  show "kbd_ok (edit_step s e)" and "active (edit_step s e) = active s"
    using add_char_line(2,3) [OF assms(1) a assms(2)] backspace_line(2,3) [OF assms]
    by (cases e, simp_all add: active_def)+
qed

lemma edit_run_line:
  "kbd_ok s \<Longrightarrow> t < 3 \<Longrightarrow> kbd_ok (run_events edit_step s es) \<and> active (run_events edit_step s es) = active s \<and>
     line (run_events edit_step s es) t = (if t = active s then foldl edit (line s t) es else line s t)"
  by (induction es arbitrary: s) (auto simp: edit_step_line)

section \<open>Enter and terminal_read\<close>

lemma fold_set_buf_active:
  "fold (\<lambda>i s. set_buf (active s) i 0 s) is s =
     s\<lparr>keyboard_buf := (\<lambda>k. if k \<in> buf_index (active s) ` set is then 0 else keyboard_buf s k)\<rparr>"
  by (induction "is" arbitrary: s) (auto simp: set_buf_def active_def fun_eq_iff)

lemma active_keyboard_buf [simp]: "active (s\<lparr>keyboard_buf := f\<rparr>) = active s"
  by (simp add: active_def)

lemma handle_enter_eq:
  "handle_enter s = set_ready (active s) 1 (s\<lparr>keyboard_buf := (\<lambda>k.
     if k \<in> buf_index (active s) ` {unat (num_chars_in_buf s (active s))..<1024} then 0 else keyboard_buf s k)\<rparr>)"
proof -
  have "set [unat (num_chars_in_buf s (active s))..<MAX_CHARS_IN_BUF + 1]
      = {unat (num_chars_in_buf s (active s))..<1024}"
    by (simp add: MAX_CHARS_IN_BUF_def)
  then show ?thesis
    unfolding handle_enter_def Let_def fold_set_buf_active by simp
qed

text \<open>The characters of the line followed by zeros: what a reader gets.\<close>

lemma handle_enter_row:
  assumes "kbd_ok s" and "i < 1023"
  shows "keyboard_buf (handle_enter s) (buf_index (active s) i) =
    (if i < unat (num_chars_in_buf s (active s)) then line s (active s) ! i else 0)"
proof (cases "i < unat (num_chars_in_buf s (active s))")
  case True
  have "unat (num_chars_in_buf s (active s)) \<le> 1023"
    using assms(1) by (simp add: kbd_ok_def MAX_CHARS_IN_BUF_def)
  have "buf_index (active s) i \<notin> buf_index (active s) ` {unat (num_chars_in_buf s (active s))..<1024}"
    using True by (auto simp: buf_index_def)
  with True show ?thesis by (simp add: handle_enter_eq line_def)
next
  case False
  then have "buf_index (active s) i \<in> buf_index (active s) ` {unat (num_chars_in_buf s (active s))..<1024}"
    using assms(2) by auto
  with False show ?thesis by (simp add: handle_enter_eq)
qed

lemma terminal_copy_eq:
  assumes "n = nat (sint nbytes + 1)" "t = unat (curr_active_term s)"
  shows "terminal_copy buf nbytes s = s\<lparr>
    mem := store_bytes (mem s) buf (map (\<lambda>i. ucast (keyboard_buf s (buf_index t i))) [0..<n]),
    keyboard_buf := (\<lambda>k. if k \<in> buf_index t ` {0..<n} then 0 else keyboard_buf s k)\<rparr>"
proof -
  define body where "body = (\<lambda>i (s :: 'a kbd_scheme). let t = unat (get_curr_running_term_proc s);
                     s = poke (buf + of_nat i) (ucast (keyboard_buf s (buf_index t i))) s
                 in set_buf t i 0 s)"
  define M where "M n = store_bytes (mem s) buf (map (\<lambda>i. ucast (keyboard_buf s (buf_index t i))) [0..<n])" for n
  define K where "K n = (\<lambda>k. if k \<in> buf_index t ` {0..<n} then 0 else keyboard_buf s k)" for n
  have "M (Suc n) = (M n)(buf + of_nat n := ucast (keyboard_buf s (buf_index t n)))" for n
    by (simp add: M_def store_bytes_append)
  moreover have "K (Suc n) = (K n)(buf_index t n := 0)" for n
    by (auto simp: K_def fun_eq_iff atLeast0_lessThan_Suc)
  moreover have "K n (buf_index t n) = keyboard_buf s (buf_index t n)" for n
    by (auto simp: K_def buf_index_def)
  ultimately have step: "body n (s\<lparr>mem := M n, keyboard_buf := K n\<rparr>) = s\<lparr>mem := M (Suc n), keyboard_buf := K (Suc n)\<rparr>" for n
    using assms(2) by (simp add: body_def Let_def poke_def set_buf_def get_curr_running_term_proc_def)
  have "fold body [0..<n] s = s\<lparr>mem := M n, keyboard_buf := K n\<rparr>" for n
    by (induction n) (simp_all add: step, simp_all add: M_def K_def)
  then show ?thesis
    unfolding terminal_copy_def body_def [symmetric] assms(1) by (simp add: M_def K_def)
qed

lemma terminal_wait_ready:
  "read_buf_ready s (unat (curr_active_term s)) \<noteq> 0 \<Longrightarrow> terminal_wait irqs n s = Some s"
  by (subst terminal_wait.simps) (simp add: get_curr_running_term_proc_def)

lemma terminal_read_line:
  fixes s :: "'a kbd_scheme"
  assumes "kbd_ok s" and "active s = unat (curr_active_term s)"
    and "0 \<le> sint nbytes" "sint nbytes < 1023" "length (line s (active s)) \<le> nat (sint nbytes)"
    and "rng buf (nat (sint nbytes) + 1) \<inter> rng VIDEO 4000 = {}"
  shows "\<exists>s'. terminal_read irqs buf nbytes (handle_enter s) = Some (nbytes + 1, s') \<and>
    load_bytes (mem s') buf (nat (sint nbytes) + 1) =
      map ucast (line s (active s)) @ replicate (nat (sint nbytes) + 1 - length (line s (active s))) 0 \<and>
    line s' (active s) = [] \<and> read_buf_ready s' (active s) = 0"
proof -
  let ?t = "active s" and ?e = "handle_enter s" and ?l = "line s (active s)"
  define n where "n = nat (sint nbytes) + 1"
  have n: "n = nat (sint nbytes + 1)" "n \<le> 1023" using assms(3,4) by (simp_all add: n_def)
  have ready: "read_buf_ready ?e (unat (curr_active_term ?e)) \<noteq> 0"
    using assms(2) by (simp add: handle_enter_eq)
  have t: "?t = unat (curr_active_term ?e)" using assms(2) by (simp add: handle_enter_eq)
  define c where "c = terminal_copy buf nbytes ?e"
  have c: "mem c = store_bytes (mem ?e) buf (map (\<lambda>i. ucast (keyboard_buf ?e (buf_index ?t i))) [0..<n])"
    "curr_active_term c = curr_active_term ?e"
    using terminal_copy_eq [OF n(1) t, of buf] by (simp_all add: c_def)
  have chars: "map (\<lambda>i. ucast (keyboard_buf ?e (buf_index ?t i))) [0..<n]
      = map ucast ?l @ replicate (n - length ?l) (0 :: u8)"
    using handle_enter_row [OF assms(1)] n(2) assms(5)
    by (intro nth_equalityI) (auto simp: nth_append n_def)
  have "rng buf n \<inter> rng VIDEO 4000 = {}" using assms(6) by (simp add: n_def)
  moreover have "off_screen_same (mem c) (mem (new_line c))"
    using new_line_step [of c] by (simp add: console_step_def)
  ultimately have "load_bytes (mem (new_line c)) buf n = load_bytes (mem c) buf n"
    using n(2) by (intro nth_equalityI) (auto simp: off_screen_same_def simp del: in_rng dest!: nth_in_rng [of _ n buf])
  moreover have "load_bytes (mem c) buf n = map ucast ?l @ replicate (n - length ?l) (0 :: u8)"
    unfolding c chars using n(2) assms(5) by (intro load_store_bytes) (simp_all add: n_def)
  moreover have "(of_nat n :: u32) = nbytes + 1"
  proof -
    have "of_nat n = (of_int (sint nbytes + 1) :: u32)" using n(1) assms(3) by simp
    then show ?thesis by simp
  qed
  moreover have "Suc (nat (sint nbytes)) = nat (sint nbytes + 1)" using assms(3) by simp
  ultimately show ?thesis
    using terminal_wait_ready [OF ready, of irqs 0] c(2) n(1)
    by (simp add: terminal_read_def Let_def c_def [symmetric] n_def [symmetric] t [symmetric] line_def
        get_curr_running_term_proc_def)
qed

section \<open>Writing\<close>

text \<open>
  What \<^verbatim>\<open>terminal_write\<close> prints of a text and how many characters it counts, with room for
  \<open>r\<close> more characters in the line buffer, which visible characters use up.
\<close>

fun written :: "nat \<Rightarrow> u8 list \<Rightarrow> u8 list \<times> nat" where
  "written r [] = ([], 0)"
| "written r (c # cs) =
     (if r = 0 then ([], 0)
      else let (out, n) = written (if c = 0 \<or> c = 10 then r else r - 1) cs
           in (if c = 0 then out else c # out, Suc n))"

lemma spec_putc_newline [simp]: "spec_putc 10 ts = spec_newline ts"
  by (simp add: spec_putc_def)

lemma written_length: "snd (written r cs) \<le> length cs"
  by (induction cs arbitrary: r) (auto simp: case_prod_beta Let_def)

lemma add_char_screen:
  fixes s :: "'a kbd_scheme" and c :: u8
  assumes "cursor_ok s" and "unat (num_chars_in_buf s (unat trm)) \<le> 1023"
  defines "r \<equiv> 1023 - unat (num_chars_in_buf s (unat trm))"
  defines "s' \<equiv> snd (add_char_to_buffer c trm s)"
  shows "fst (add_char_to_buffer c trm s) = (if r = 0 then 0 else 1)"
    and "abs_screen s' = (if r = 0 \<or> c = 0 then abs_screen s else spec_putc c (abs_screen s))"
    and "cursor_ok s'" and "off_screen_same (mem s) (mem s')"
    and "curr_active_term s' = curr_active_term s" and "active s' = active s"
    and "num_chars_in_buf s' = (num_chars_in_buf s)(unat trm :=
           num_chars_in_buf s (unat trm) + (if r = 0 \<or> c = 0 \<or> c = 10 then 0 else 1))"
  using assms(1,2) new_line_step [of s] putc_step [of "set_num (unat trm) (num_chars_in_buf s (unat trm) + 1)
      (set_buf (unat trm) (unat (num_chars_in_buf s (unat trm))) (ucast c) s)" c]
  by (auto simp: s'_def r_def add_char_to_buffer_def Let_def MAX_CHARS_IN_BUF_def new_line_refines new_line_cursor_ok
      putc_refines putc_cursor_ok console_step_def)

text \<open>One character, with room for \<open>r\<close> more.\<close>

lemma write_char_step:
  fixes s :: "'a kbd_scheme"
  assumes "cursor_ok s" and "unat (curr_active_term s) = t" and "unat (num_chars_in_buf s t) \<le> 1023"
    and "mem s (buf + of_nat a) = c"
  defines "r \<equiv> 1023 - unat (num_chars_in_buf s t)"
  obtains s1 where "write_char buf a (k, s) = (if r = 0 then k else k + 1, s1)"
    and "abs_screen s1 = (if r = 0 \<or> c = 0 then abs_screen s else spec_putc c (abs_screen s))"
    and "cursor_ok s1" "off_screen_same (mem s) (mem s1)" "unat (curr_active_term s1) = t" "active s1 = active s"
    and "1023 - unat (num_chars_in_buf s1 t) = (if r = 0 \<or> c = 0 \<or> c = 10 then r else r - 1)" "unat (num_chars_in_buf s1 t) \<le> 1023"
proof -
  let ?n = "num_chars_in_buf s t" and ?trm = "curr_active_term s"
  define s1 where "s1 = snd (add_char_to_buffer c ?trm s)"
  define d where "d = (if r = 0 \<or> c = 0 \<or> c = 10 then 0 else 1 :: nat)"
  have le: "unat (num_chars_in_buf s (unat ?trm)) \<le> 1023" using assms(2,3) by simp
  note step = add_char_screen [OF assms(1) le, of c, folded s1_def, unfolded assms(2), folded r_def]
  have "num_chars_in_buf s1 t = ?n + of_nat d" using step(7) assms(2) by (auto simp: d_def)
  then have u: "unat (num_chars_in_buf s1 t) = unat ?n + d"
    using assms(3) unat_Suc_small [of ?n] by (auto simp: d_def r_def)
  show thesis
  proof (rule that [of s1])
    show "write_char buf a (k, s) = (if r = 0 then k else k + 1, s1)"
      using step(1) assms(2-4)
      by (simp add: write_char_def get_curr_running_term_proc_def s1_def case_prod_beta Let_def)
    show "1023 - unat (num_chars_in_buf s1 t) = (if r = 0 \<or> c = 0 \<or> c = 10 then r else r - 1)" "unat (num_chars_in_buf s1 t) \<le> 1023"
      using u assms(3) by (auto simp: d_def r_def)
  qed (use step assms(2) in simp_all)
qed

lemma written_full [simp]: "written 0 cs = ([], 0)"
  by (cases cs) simp_all

lemma write_run:
  fixes s :: "'a kbd_scheme"
  assumes "cursor_ok s" and "unat (curr_active_term s) = t" and "unat (num_chars_in_buf s t) \<le> 1023"
    and "\<forall>i<length cs. mem s (buf + of_nat (a + i)) = cs ! i"
    and "\<forall>i<length cs. buf + of_nat (a + i) \<notin> rng VIDEO 4000"
  shows "\<exists>s'. fold (write_char buf) [a..<a + length cs] (k, s)
      = (k + of_nat (snd (written (1023 - unat (num_chars_in_buf s t)) cs)), s') \<and>
    abs_screen s' = fold spec_putc (fst (written (1023 - unat (num_chars_in_buf s t)) cs)) (abs_screen s) \<and>
    cursor_ok s' \<and> active s' = active s"
  using assms
proof (induction cs arbitrary: a k s)
  case Nil
  then show ?case by simp
next
  case (Cons c cs)
  let ?r = "1023 - unat (num_chars_in_buf s t)"
  have "mem s (buf + of_nat a) = c" using Cons.prems(4) by auto
  from write_char_step [OF Cons.prems(1-3) this, of k] obtain s1 where
    w: "write_char buf a (k, s) = (if ?r = 0 then k else k + 1, s1)"
      "abs_screen s1 = (if ?r = 0 \<or> c = 0 then abs_screen s else spec_putc c (abs_screen s))"
    and ok: "cursor_ok s1" "off_screen_same (mem s) (mem s1)" "unat (curr_active_term s1) = t" "active s1 = active s"
    and n: "1023 - unat (num_chars_in_buf s1 t) = (if ?r = 0 \<or> c = 0 \<or> c = 10 then ?r else ?r - 1)"
      "unat (num_chars_in_buf s1 t) \<le> 1023" by blast
  have out: "buf + of_nat (Suc a + i) \<notin> rng VIDEO 4000" and chars: "mem s1 (buf + of_nat (Suc a + i)) = cs ! i" if "i < length cs" for i
  proof -
    show o: "buf + of_nat (Suc a + i) \<notin> rng VIDEO 4000"
      using Cons.prems(5) [rule_format, of "Suc i"] that by (simp add: algebra_simps del: in_rng)
    then have "mem s1 (buf + of_nat (Suc a + i)) = mem s (buf + of_nat (Suc a + i))"
      using ok(2) by (simp add: off_screen_same_def del: in_rng)
    then show "mem s1 (buf + of_nat (Suc a + i)) = cs ! i"
      using Cons.prems(4) [rule_format, of "Suc i"] that by (simp add: algebra_simps)
  qed
  let ?w = "written (if ?r = 0 \<or> c = 0 \<or> c = 10 then ?r else ?r - 1) cs" and ?k = "if ?r = 0 then k else k + 1"
  from Cons.IH [OF ok(1,3) n(2), of "Suc a" ?k] chars out obtain s' where
    s': "fold (write_char buf) [Suc a..<Suc a + length cs] (?k, s1) = (?k + of_nat (snd ?w), s')"
      "abs_screen s' = fold spec_putc (fst ?w) (abs_screen s1)" "cursor_ok s'" "active s' = active s1"
    unfolding n(1) by blast
  have "[a..<a + length (c # cs)] = a # [Suc a..<Suc a + length cs]" by (simp add: upt_conv_Cons del: upt_Suc)
  then have "fold (write_char buf) [a..<a + length (c # cs)] (k, s) = (?k + of_nat (snd ?w), s')" using s'(1) w(1) by simp
  then show ?case
    using s'(2-4) w(2) ok(4) by (cases "?r = 0") (auto simp: case_prod_beta Let_def algebra_simps)
qed

lemma terminal_write_text:
  fixes s :: "'a kbd_scheme"
  assumes "cursor_ok s" and "unat (num_chars_in_buf s (unat (curr_active_term s))) \<le> 1023"
    and "load_bytes (mem s) buf n = cs" and "n < 2 ^ 31" and "rng buf n \<inter> rng VIDEO 4000 = {}"
  defines "w \<equiv> written (1023 - unat (num_chars_in_buf s (unat (curr_active_term s)))) cs"
  shows "\<exists>s'. terminal_write buf (of_nat n) s = (of_nat (snd w), s') \<and>
    abs_screen s' = fold spec_putc (fst w) (abs_screen s) \<and> cursor_ok s' \<and>
    num_chars_in_buf s' (active s) = 0 \<and> read_buf_ready s' (active s) = 0"
proof -
  have len: "length cs = n" using assms(3) by auto
  have "\<forall>i<length cs. mem s (buf + of_nat (0 + i)) = cs ! i"
    using assms(3) by (auto simp: load_bytes_def)
  moreover have "\<forall>i<length cs. buf + of_nat (0 + i) \<notin> rng VIDEO 4000"
  proof (intro allI impI)
    fix i assume "i < length cs"
    then have "buf + of_nat i \<in> rng buf n" using len assms(4) by (intro nth_in_rng) simp_all
    with assms(5) show "buf + of_nat (0 + i) \<notin> rng VIDEO 4000" by (auto simp del: in_rng)
  qed
  ultimately obtain s' where s': "fold (write_char buf) [0..<0 + length cs] (0, s)
      = (0 + of_nat (snd w), s')" "abs_screen s' = fold spec_putc (fst w) (abs_screen s)" "cursor_ok s'" "active s' = active s"
    using write_run [OF assms(1) refl assms(2), of cs buf 0 0] unfolding w_def by blast
  have "nat (sint (of_nat n :: i32)) = n" using assms(4) by (simp add: signed_of_nat signed_take_bit_int_eq_self)
  with s' show ?thesis
    by (simp add: terminal_write_def len Let_def)
qed


section \<open>Typing\<close>

text \<open>The letters with the scan codes of their keys, and the two registers a letter is typed in.\<close>

definition letter_keys :: "(u8 \<times> u8) list" where
  "letter_keys =
     zip (map of_nat [0x10..<0x1A]) (str ''qwertyuiop'') @
     zip (map of_nat [0x1E..<0x27]) (str ''asdfghjkl'') @
     zip (map of_nat [0x2C..<0x33]) (str ''zxcvbnm'')"

definition typed_letter :: "'a kbd_scheme \<Rightarrow> u8 \<Rightarrow> u8" where
  "typed_letter s c = (if caps_on s \<noteq> (shift_l_on s \<or> shift_r_on s) then c - 32 else c)"

definition key_char :: "'a kbd_scheme \<Rightarrow> u8 \<Rightarrow> u8" where
  "key_char s key_code =
     (if caps_on s \<and> \<not> (shift_l_on s \<or> shift_r_on s) then caps_ascii ! unat key_code
      else if \<not> caps_on s \<and> (shift_l_on s \<or> shift_r_on s) then shift_ascii ! unat key_code
      else code_to_ascii ! unat key_code)"

lemma letter_tables:
  "list_all (\<lambda>(k, c). k < 0x59 \<and> code_to_ascii ! unat k = c \<and> shift_ascii ! unat k = c - 32 \<and>
     caps_ascii ! unat k = c - 32 \<and> c \<noteq> ASCII_PLACEHOLDER \<and> c \<noteq> 0 \<and> c \<noteq> 10 \<and> c \<noteq> 32 \<and> c \<noteq> 42) letter_keys"
  by code_simp

lemma key_char_letter:
  assumes "(k, c) \<in> set letter_keys"
  shows "key_char s k = typed_letter s c" and "k < 0x59" and "code_to_ascii ! unat k \<noteq> ASCII_PLACEHOLDER"
    and "typed_letter s c \<noteq> 0" and "typed_letter s c \<noteq> 10"
  using letter_tables assms by (auto simp: list_all_iff key_char_def typed_letter_def)

lemma keypress_prints:
  fixes s :: "'a kbd_scheme"
  defines "k \<equiv> port_in s (in_count s) KEYBOARD_D_PORT"
  assumes "k < 0x59" and "code_to_ascii ! unat k \<noteq> ASCII_PLACEHOLDER" and "\<not> special_key_enabled s"
    and "\<not> cntrl_l_on s" "\<not> cntrl_r_on s"
  shows "handle_keypress halt context_switch s = Some (Ret () (restore_flags (int_flag s) (send_eoi 1
    (snd (add_char_to_buffer (key_char s k) (active_terminal s) (s\<lparr>int_flag := False, in_count := Suc (in_count s)\<rparr>))))))"
  using assms
  by (simp add: handle_keypress_def cli_and_save_def inb_def key_print_def key_char_def)

section \<open>The handler keeps the buffers\<close>

text \<open>A property of the state a flow leaves, however it ends.\<close>

fun flow_state :: "('v, 's) flow \<Rightarrow> 's" where
  "flow_state (Ret _ s) = s"
| "flow_state (Enter_user _ s) = s"
| "flow_state (Resume_stack s) = s"

definition leaves :: "('s \<Rightarrow> bool) \<Rightarrow> ('v, 's) flow option \<Rightarrow> bool" where
  "leaves P r \<longleftrightarrow> (\<forall>f. r = Some f \<longrightarrow> P (flow_state f))"

lemma leaves_simps [simp]:
  "leaves P None" "leaves P (Some f) \<longleftrightarrow> P (flow_state f)"
  "leaves P (map_option (Ret v) q) \<longleftrightarrow> (\<forall>s. q = Some s \<longrightarrow> P s)"
  by (auto simp: leaves_def)

lemma kbd_ok_cong:
  assumes "kbd_ok s" and "active s' = active s" and "num_chars_in_buf s' = num_chars_in_buf s"
  shows "kbd_ok s'"
  using assms by (simp add: kbd_ok_def)

lemma kbd_ok_frame: "console_frame s s' \<Longrightarrow> kbd_ok s \<Longrightarrow> kbd_ok s'"
  by (rule kbd_ok_cong) (simp_all add: console_frame_kbd)

lemma kbd_ok_fields [simp]:
  "kbd_ok (restore_flags f s) = kbd_ok s" "kbd_ok (outb data port s) = kbd_ok s"
  "kbd_ok (s\<lparr>int_flag := f\<rparr>) = kbd_ok s" "kbd_ok (s\<lparr>in_count := n\<rparr>) = kbd_ok s"
  "kbd_ok (s\<lparr>special_key_enabled := b\<rparr>) = kbd_ok s"
  "kbd_ok (s\<lparr>cntrl_l_on := b\<rparr>) = kbd_ok s" "kbd_ok (s\<lparr>cntrl_r_on := b\<rparr>) = kbd_ok s"
  "kbd_ok (s\<lparr>shift_l_on := b\<rparr>) = kbd_ok s" "kbd_ok (s\<lparr>shift_r_on := b\<rparr>) = kbd_ok s"
  "kbd_ok (s\<lparr>alt_l_on := b\<rparr>) = kbd_ok s" "kbd_ok (s\<lparr>alt_r_on := b\<rparr>) = kbd_ok s"
  "kbd_ok (s\<lparr>caps_on := b\<rparr>) = kbd_ok s" "kbd_ok (s\<lparr>prev_terminal := pt\<rparr>) = kbd_ok s"
  "kbd_ok (set_buf t i v s) = kbd_ok s" "kbd_ok (set_ready t r s) = kbd_ok s"
  by (simp_all add: kbd_ok_def active_def restore_flags_def outb_def)

lemma send_eoi_ports: "\<exists>p. send_eoi irq s = s\<lparr>port_out := p\<rparr>"
  by (auto simp: send_eoi_def outb_def Let_def)

lemma kbd_ok_send_eoi [simp]: "kbd_ok (send_eoi irq s) = kbd_ok s"
  using send_eoi_ports [of irq s] by (auto simp: kbd_ok_def active_def)

lemma set_num_zero_ok: "kbd_ok s \<Longrightarrow> kbd_ok (set_num t 0 s)"
  by (simp add: kbd_ok_def)

lemma clear_screen_frame: "console_frame s (clear_screen s)"
proof -
  have "fold (\<lambda>i. put_cell (int i) (chr CHR '' '')) [0..<2000] s
      = s\<lparr>mem := blank_screen (ucast (text_color s)) (mem s)\<rparr>"
    using clear_mem [of s] by (simp add: clear_def)
  then show ?thesis
    by (simp add: console_frame_def clear_screen_def Let_def set_x_def set_y_def update_cursor_bytes)
qed

lemma reset_term_ok: "kbd_ok s \<Longrightarrow> kbd_ok (reset_term s)"
  unfolding reset_term_def Let_def fold_set_buf_active
  by (intro kbd_ok_frame [OF clear_screen_frame] set_num_zero_ok) (auto simp: kbd_ok_def)

lemma handle_enter_ok: "kbd_ok s \<Longrightarrow> kbd_ok (handle_enter s)"
  unfolding handle_enter_eq by (auto simp: kbd_ok_def)

lemma reset_curr_command_ok: "kbd_ok s \<Longrightarrow> kbd_ok (reset_curr_command s) \<and> active (reset_curr_command s) = active s"
proof (induction s rule: reset_curr_command.induct)
  case (1 s)
  have "num_chars_in_buf s (active s) > 0 \<Longrightarrow> kbd_ok (erase_char s)"
    using backspace_line(2) [OF "1.prems", of 0] by (simp add: handle_backspace_def)
  with 1 show ?case by (subst reset_curr_command.simps) (auto simp: reset_curr_command.simps [of s])
qed

lemma add_char_ok: "kbd_ok s \<Longrightarrow> kbd_ok (snd (add_char_to_buffer c (active_terminal s) s))"
  using add_char_line(2) [of s "active_terminal s" 0 c] by (simp add: kbd_ok_def active_def)

lemma fill_curr_command_ok: "kbd_ok s \<Longrightarrow> fill_curr_command a s = Some s' \<Longrightarrow> kbd_ok s'"
proof -
  assume "kbd_ok s" and s': "fill_curr_command a s = Some s'"
  have "kbd_ok (fold (\<lambda>i s. snd (add_char_to_buffer (mem s (a + of_nat i)) (active_terminal s) s)) is s)" for "is"
    using \<open>kbd_ok s\<close> by (induction "is" arbitrary: s) (simp_all add: add_char_ok)
  with s' show ?thesis by (auto simp: fill_curr_command_def)
qed

lemma handle_tab_ok:
  assumes "kbd_ok s" and "handle_tab s = Some s'"
  shows "kbd_ok s'"
  using assms fill_curr_command_ok [OF conjunct1 [OF reset_curr_command_ok [OF assms(1)]]]
  by (auto simp: handle_tab_def bind_eq_Some_conv split: if_splits)

lemma inb_until_count: "inb_until P p s = Some s' \<Longrightarrow> s' = s\<lparr>in_count := in_count s'\<rparr>"
proof (rule inb_until.raw_induct [of "\<lambda>((P, p), s) s'. s' = s\<lparr>in_count := in_count s'\<rparr>", unfolded split])
  fix r :: "(u8 \<Rightarrow> bool) \<Rightarrow> u16 \<Rightarrow> 'a machine_scheme \<Rightarrow> 'a machine_scheme option" and P p s s'
  assume IH: "\<And>P p s s'. r P p s = Some s' \<Longrightarrow> s' = s\<lparr>in_count := in_count s'\<rparr>"
    and r: "(if P (fst (inb p s)) then Some (snd (inb p s)) else r P p (snd (inb p s))) = Some s'"
  show "s' = s\<lparr>in_count := in_count s'\<rparr>"
  proof (cases "P (fst (inb p s))")
    case True
    with r show ?thesis by (auto simp: inb_def)
  next
    case False
    with r have "r P p (snd (inb p s)) = Some s'" by simp
    from IH [OF this] show ?thesis by (simp add: inb_def)
  qed
qed

lemma kbd_led_ok: "kbd_ok s \<Longrightarrow> kbd_led_handling a b c s = Some s' \<Longrightarrow> kbd_ok s'"
  by (auto simp: kbd_led_handling_def kbd_ack_def bind_eq_Some_conv Let_def dest!: inb_until_count)
     (metis kbd_ok_fields(2,4))

lemma switch_terminal_ok:
  assumes "kbd_ok s" and "\<And>a b s. kbd_ok s \<Longrightarrow> leaves kbd_ok (cs a b s)" and "dest < 3"
  shows "leaves kbd_ok (switch_terminal cs dest f s)"
proof -
  have "kbd_ok (update_screen dest (active_terminal s) s)"
    using assms(1,3) update_screen_eq [of dest "active_terminal s" s]
    by (simp add: kbd_ok_def active_def word_less_nat_alt)
  then have "kbd_ok ((update_screen dest (active_terminal s) s)\<lparr>prev_terminal := x, active_terminal := dest\<rparr>)" for x
    using assms(3) by (simp add: kbd_ok_def active_def word_less_nat_alt)
  then show ?thesis by (auto simp: switch_terminal_def Let_def intro!: assms(2))
qed

lemma key_print_ok:
  assumes "kbd_ok s" and "\<And>v s. kbd_ok s \<Longrightarrow> leaves kbd_ok (h v s)"
  shows "leaves kbd_ok (key_print h k f s)"
  using assms(1) assms(2) [of "restore_flags f (send_eoi 1 s)" "-2"]
  by (auto simp: key_print_def Let_def reset_term_ok add_char_ok leaves_def split: option.splits flow.splits)

lemma key_control_ok:
  assumes "kbd_ok s" and "\<And>a b s. kbd_ok s \<Longrightarrow> leaves kbd_ok (cs a b s)"
  shows "leaves kbd_ok (key_control cs k f s)"
  using assms(1) backspace_line(2) [OF assms(1), of 0]
  by (auto simp: key_control_def Let_def handle_enter_ok handle_tab_ok dest: kbd_led_ok [rotated]
      intro!: switch_terminal_ok assms(2))

lemma handle_keypress_ok:
  assumes "kbd_ok s" and "\<And>v s. kbd_ok s \<Longrightarrow> leaves kbd_ok (h v s)"
    and "\<And>a b s. kbd_ok s \<Longrightarrow> leaves kbd_ok (cs a b s)"
  shows "leaves kbd_ok (handle_keypress h cs s)"
proof -
  define s1 where "s1 = s\<lparr>int_flag := False, in_count := Suc (in_count s)\<rparr>"
  have "kbd_ok s1" using assms(1) by (simp add: s1_def)
  note ok = key_print_ok [OF this assms(2)] key_control_ok [OF this assms(3)]
  have tail: "leaves kbd_ok r \<Longrightarrow> leaves kbd_ok (case r of Some (Ret _ s) \<Rightarrow> Some (Ret () (restore_flags f (send_eoi 1 s))) | _ \<Rightarrow> r)"
    for r :: "(unit, _) flow option" and f
    by (auto simp: leaves_def split: option.splits flow.splits)
  have special: "kbd_ok (key_special s1)" "kbd_ok (key_break k s1)" for k
    using \<open>kbd_ok s1\<close> by (auto simp: key_special_def key_break_def Let_def inb_def)
  show ?thesis
    unfolding handle_keypress_def cli_and_save_def inb_def Let_def prod.case
    by (rule tail) (use ok special \<open>kbd_ok s1\<close> in \<open>auto simp: s1_def [symmetric]\<close>)
qed


section \<open>Properties\<close>

text \<open>A keyboard that repeats the key A, with \<^verbatim>\<open>hi\<close> typed at the first terminal.\<close>

definition demo_kbd :: kbd where
  "demo_kbd = paging.extend (demo_paging\<lparr>port_in := \<lambda>_ _. 0x1E\<rparr>)
     \<lparr>prev_terminal = 0, second_term_start = 0, third_term_start = 0, keyboard_buf = (\<lambda>_. 0)(0 := 104, 1 := 105),
      num_chars_in_buf = (\<lambda>_. 0)(0 := 2), read_buf_ready = \<lambda>_. 0, special_key_enabled = False,
      cntrl_l_on = False, cntrl_r_on = False, caps_on = True, shift_l_on = False, shift_r_on = False,
      alt_l_on = False, alt_r_on = False, curr_active_term = 0\<rparr>"

lemmas demo_kbd_parts = demo_kbd_def demo_paging_def demo_mouse_def demo_rtc_def paging.defs mouse.defs rtc.defs fs.defs

lemma demo_kbd_fields [simp]:
  "active demo_kbd = 0" "active_terminal demo_kbd = 0" "curr_active_term demo_kbd = 0"
  "keyboard_buf demo_kbd = (\<lambda>_. 0)(0 := 104, 1 := 105)" "num_chars_in_buf demo_kbd = (\<lambda>_. 0)(0 := 2)"
  "port_in demo_kbd n p = 0x1E" "caps_on demo_kbd" "\<not> shift_l_on demo_kbd" "\<not> shift_r_on demo_kbd"
  "\<not> cntrl_l_on demo_kbd" "\<not> cntrl_r_on demo_kbd" "\<not> special_key_enabled demo_kbd"
  "screen_x demo_kbd t = 0" "screen_y demo_kbd t = 0" "mem demo_kbd = demo_mem" "int_flag demo_kbd"
  by (simp_all add: demo_kbd_parts active_def demo_fs_def fs_init_def Let_def)

lemma demo_kbd_ok: "kbd_ok demo_kbd" "cursor_ok demo_kbd"
  by (simp_all add: kbd_ok_def MAX_CHARS_IN_BUF_def cursor_ok_def NUM_COLS_def NUM_ROWS_def)

lemma demo_line [simp]: "line demo_kbd 0 = [104, 105]"
  by (simp add: line_def buf_index_def upt_rec)

text \<open>C22: typing and erasing at a terminal edits its line buffer as a line of at most 1023 visible
  characters from which the last one is erased; the buffers of the other terminals keep their
  contents and no buffer overflows.\<close>

theorem line_editing:
  assumes "kbd_ok s" and "t < 3"
  shows "kbd_ok (run_events edit_step s es) \<and>
    line (run_events edit_step s es) t = (if t = active s then foldl edit (line s t) es else line s t)"
  using edit_run_line [OF assms, of es] by simp_all

theorem line_editing_witness:
  "line (run_events edit_step demo_kbd [Typed 33, Erased, Erased, Typed 111, Typed 10]) 0 = [104, 111]"
  using line_editing [OF demo_kbd_ok(1), of 0 "[Typed 33, Erased, Erased, Typed 111, Typed 10]"] by simp

text \<open>C23: after Enter, \<^verbatim>\<open>terminal_read\<close> returns at once with the typed line in the buffer, padded with
  NULs, and empties the line; it writes and reports one byte more than it was asked for.\<close>

theorem terminal_read_delivers_line:
  fixes s :: "'a kbd_scheme"
  assumes "kbd_ok s" and "active s = unat (curr_active_term s)"
    and "0 \<le> sint nbytes" "sint nbytes < 1023" "length (line s (active s)) \<le> nat (sint nbytes)"
    and "rng buf (nat (sint nbytes) + 1) \<inter> rng VIDEO 4000 = {}"
  shows "\<exists>s'. terminal_read irqs buf nbytes (handle_enter s) = Some (nbytes + 1, s') \<and>
    load_bytes (mem s') buf (nat (sint nbytes) + 1) =
      map ucast (line s (active s)) @ replicate (nat (sint nbytes) + 1 - length (line s (active s))) 0 \<and>
    line s' (active s) = [] \<and> read_buf_ready s' (active s) = 0"
  by (rule terminal_read_line [OF assms])

theorem terminal_read_delivers_line_witness:
  "\<forall>irqs. \<exists>s'. terminal_read irqs 0x8000 3 (handle_enter demo_kbd) = Some (4, s') \<and>
     load_bytes (mem s') 0x8000 4 = [104, 105, 0, 0]"
proof
  fix irqs
  have "rng 0x8000 (nat (sint (3 :: i32)) + 1) \<inter> rng VIDEO 4000 = {}" by (rule rng_disjoint) (simp_all add: VIDEO_def)
  from terminal_read_delivers_line [OF demo_kbd_ok(1) _ _ _ _ this, of irqs]
  obtain s' where "terminal_read irqs 0x8000 3 (handle_enter demo_kbd) = Some (3 + 1, s')"
    "load_bytes (mem s') 0x8000 (nat (sint (3 :: i32)) + 1) =
      map ucast (line demo_kbd 0) @ replicate (nat (sint (3 :: i32)) + 1 - length (line demo_kbd 0)) 0"
    by (simp del: in_rng) blast
  moreover have "replicate 2 0 = [0, 0 :: u8]" by (simp add: numeral_2_eq_2)
  ultimately show "\<exists>s'. terminal_read irqs 0x8000 3 (handle_enter demo_kbd) = Some (4, s') \<and>
     load_bytes (mem s') 0x8000 4 = [104, 105, 0, 0]"
    by simp
qed



text \<open>The key of a letter types it at the active terminal, in upper case when exactly one of Caps
  Lock and Shift is on: it is appended to the line, printed, and the interrupt is acknowledged
  with the interrupt flag restored.\<close>

theorem keypress_types_letter:
  fixes s :: "'a kbd_scheme"
  assumes "(port_in s (in_count s) KEYBOARD_D_PORT, c) \<in> set letter_keys" and "kbd_ok s" "cursor_ok s"
    and "\<not> special_key_enabled s" "\<not> cntrl_l_on s" "\<not> cntrl_r_on s" and "length (line s (active s)) < 1023"
  shows "\<exists>s'. handle_keypress halt context_switch s = Some (Ret () s') \<and>
    line s' (active s) = line s (active s) @ [ucast (typed_letter s c)] \<and>
    abs_screen s' = spec_putc (typed_letter s c) (abs_screen s) \<and>
    int_flag s' = int_flag s \<and> last (port_out s') = (0x20, 0x61)"
proof -
  define s1 where "s1 = s\<lparr>int_flag := False, in_count := Suc (in_count s)\<rparr>"
  define s2 where "s2 = snd (add_char_to_buffer (typed_letter s c) (active_terminal s) s1)"
  note key = key_char_letter(1,4,5) [OF assms(1), of s] and code = key_char_letter(2,3) [OF assms(1)]
  have eoi: "send_eoi 1 s2 = s2\<lparr>port_out := port_out s2 @ [(0x20, 0x61)]\<rparr>"
    using send_eoi_effect [of 1 s2] by simp
  have s1: "kbd_ok s1" "cursor_ok s1" "unat (active_terminal s) < 3" "active_terminal s1 = active_terminal s"
    "num_chars_in_buf s1 = num_chars_in_buf s" "abs_screen s1 = abs_screen s" "line s1 t = line s t" for t
    using assms(2,3) by (simp_all add: s1_def kbd_ok_def active_def cursor_ok_def abs_screen_def line_def)
  have le: "unat (num_chars_in_buf s1 (unat (active_terminal s))) \<le> 1023"
    using assms(7) s1(5) by (simp add: active_def)
  have "line s2 (active s) = line s (active s) @ [ucast (typed_letter s c)]"
    using add_char_line(1) [OF s1(1,3,3), of "typed_letter s c"] key assms(7)
    by (simp add: s2_def s1 active_def)
  moreover have "abs_screen s2 = spec_putc (typed_letter s c) (abs_screen s)"
    using add_char_screen(2) [OF s1(2) le, of "typed_letter s c"] key assms(7)
    by (simp add: s2_def s1 active_def)
  ultimately show ?thesis
    using keypress_prints [OF code assms(4-6), of halt context_switch] key(1)
    by (simp add: s1_def [symmetric] s2_def [symmetric] eoi restore_flags_def line_def abs_screen_def)
qed

theorem keypress_types_letter_witness:
  "\<forall>halt context_switch. \<exists>s'. handle_keypress halt context_switch demo_kbd = Some (Ret () s') \<and> line s' 0 = [104, 105, 65]"
proof (intro allI)
  fix halt context_switch
  have "(0x1E, 97) \<in> set letter_keys" by code_simp
  then show "\<exists>s'. handle_keypress halt context_switch demo_kbd = Some (Ret () s') \<and> line s' 0 = [104, 105, 65]"
    using keypress_types_letter [of demo_kbd 97 halt context_switch] demo_kbd_ok by (auto simp: typed_letter_def)
qed

text \<open>C25: whatever the scan code, and however the handler ends (by returning, or by leaving through
  \<^verbatim>\<open>halt\<close> or \<^verbatim>\<open>context_switch\<close> when these do so), the active terminal is one of the three and no
  line buffer holds more than 1023 characters.\<close>

theorem keypress_keeps_buffers:
  assumes "kbd_ok s" and "\<And>v s. kbd_ok s \<Longrightarrow> leaves kbd_ok (halt v s)"
    and "\<And>a b s. kbd_ok s \<Longrightarrow> leaves kbd_ok (context_switch a b s)"
  shows "leaves kbd_ok (handle_keypress halt context_switch s)"
  by (rule handle_keypress_ok [OF assms])

theorem keypress_keeps_buffers_witness:
  "leaves kbd_ok (handle_keypress (\<lambda>v s. Some (Ret 0 s)) (\<lambda>a b s. Some (Resume_stack s)) demo_kbd)"
  by (rule keypress_keeps_buffers) (simp_all add: demo_kbd_ok)

text \<open>Enter at the first or the second terminal also clears the first character of the line that
  is being typed at the next one: the loop that pads the buffer runs one cell too far.\<close>

theorem enter_clears_next_line:
  assumes "kbd_ok s" and "t = active s" and "t < 2" and "line s (Suc t) = c # cs"
  shows "line (handle_enter s) (Suc t) = 0 # cs"
proof -
  let ?n = "unat (num_chars_in_buf s t)"
  have n: "?n \<le> 1023" "unat (num_chars_in_buf s (Suc t)) \<le> 1023"
    using assms(1,3) by (simp_all add: kbd_ok_def MAX_CHARS_IN_BUF_def)
  have "buf_index (Suc t) 0 = buf_index t 1023" by (simp add: buf_index_def MAX_CHARS_IN_BUF_def)
  with n(1) have first: "buf_index (Suc t) 0 \<in> buf_index t ` {?n..<1024}" by auto
  have rest: "buf_index (Suc t) i \<notin> buf_index t ` {?n..<1024}" if "0 < i" for i
    using that by (auto simp: buf_index_def MAX_CHARS_IN_BUF_def)
  have "line (handle_enter s) (Suc t) = (line s (Suc t))[0 := 0]"
    using first rest n(2)
    by (intro nth_equalityI) (auto simp: line_def handle_enter_eq assms(2) [symmetric] nth_list_update)
  with assms(4) show ?thesis by simp
qed

theorem enter_clears_next_line_witness:
  "line (handle_enter (demo_kbd\<lparr>num_chars_in_buf := \<lambda>_. 2, keyboard_buf := \<lambda>_. 97\<rparr>)) 1 = [0, 97]"
proof -
  let ?s = "demo_kbd\<lparr>num_chars_in_buf := \<lambda>_. 2, keyboard_buf := \<lambda>_. 97\<rparr>"
  have "kbd_ok ?s" "active ?s = 0" using demo_kbd_ok(1) by (simp_all add: kbd_ok_def MAX_CHARS_IN_BUF_def active_def)
  moreover have "line ?s 1 = [97, 97]" by (simp add: line_def upt_rec)
  ultimately show ?thesis using enter_clears_next_line [of ?s 0 97 "[97]"] by simp
qed

end
