(* ===== verification/Pool.thy ===== *)
theory Pool
  imports Prelude
begin

text \<open>
  Pools of numbered slots of which the lowest free one is handed out: the kernel manages its
  process slots and the file descriptors of a process this way. The locale states what such a
  pool promises and what its clients rely on.
\<close>

text \<open>
  The contract of a pool of slots, from which the lowest free one is taken. The process slots
  and the file descriptors of a process are such pools.
\<close>

locale slot_pool =
  fixes used :: "'s \<Rightarrow> nat \<Rightarrow> bool"
    and slots :: "nat list"
    and alloc :: "'s \<Rightarrow> (nat \<times> 's) option"
    and release :: "nat \<Rightarrow> 's \<Rightarrow> 's"
  assumes alloc_first: "map_option fst (alloc s) = find (\<lambda>i. \<not> used s i) slots"
    and alloc_used: "alloc s = Some (i, s') \<Longrightarrow> j \<in> set slots \<Longrightarrow> used s' j \<longleftrightarrow> used s j \<or> j = i"
    and release_used: "i \<in> set slots \<Longrightarrow> j \<in> set slots \<Longrightarrow> used s i \<Longrightarrow> used (release i s) j \<longleftrightarrow> used s j \<and> j \<noteq> i"
    and slots_sorted: "sorted slots" "distinct slots"
begin

definition in_use :: "'s \<Rightarrow> nat set" where
  "in_use s = {i \<in> set slots. used s i}"

lemma alloc_None: "alloc s = None \<longleftrightarrow> in_use s = set slots"
proof -
  have "alloc s = None \<longleftrightarrow> find (\<lambda>i. \<not> used s i) slots = None" by (simp add: alloc_first [symmetric])
  then show ?thesis by (auto simp: in_use_def find_None_iff)
qed

lemma alloc_fresh:
  assumes "alloc s = Some (i, s')"
  shows "i \<in> set slots" and "i \<notin> in_use s" and "\<forall>j\<in>set slots. j < i \<longrightarrow> j \<in> in_use s"
    and "in_use s' = insert i (in_use s)"
proof -
  have "find (\<lambda>i. \<not> used s i) slots = Some i" using alloc_first [of s] assms by simp
  then obtain k where k: "k < length slots" "\<not> used s (slots ! k)" "i = slots ! k" "\<forall>l<k. used s (slots ! l)"
    by (auto simp: find_Some_iff)
  then show i: "i \<in> set slots" and "i \<notin> in_use s" by (auto simp: in_use_def)
  show "in_use s' = insert i (in_use s)" using alloc_used [OF assms] i by (auto simp: in_use_def)
  show "\<forall>j\<in>set slots. j < i \<longrightarrow> j \<in> in_use s"
  proof (intro ballI impI)
    fix j assume j: "j \<in> set slots" "j < i"
    then obtain l where l: "l < length slots" "j = slots ! l" by (auto simp: in_set_conv_nth)
    have "l < k"
    proof (rule ccontr)
      assume "\<not> l < k"
      then have "slots ! k \<le> slots ! l" using slots_sorted(1) l by (intro sorted_nth_mono) simp_all
      with j(2) l k show False by simp
    qed
    with k(4) l j(1) show "j \<in> in_use s" by (auto simp: in_use_def)
  qed
qed

lemma release_in_use: "i \<in> in_use s \<Longrightarrow> in_use (release i s) = in_use s - {i}"
  using release_used by (auto simp: in_use_def)

text \<open>Releasing what was allocated last undoes the allocation; a slot below all free ones is reused first.\<close>

lemma release_alloc: "alloc s = Some (i, s') \<Longrightarrow> in_use (release i s') = in_use s"
  using alloc_fresh [of s i s'] release_in_use [of i s'] by auto

lemma realloc:
  assumes "i \<in> in_use s" and "\<forall>j\<in>set slots. j < i \<longrightarrow> j \<in> in_use s"
  shows "\<exists>s'. alloc (release i s) = Some (i, s')"
proof -
  have u: "in_use (release i s) = in_use s - {i}" using release_in_use [OF assms(1)] .
  have i: "i \<in> set slots" using assms(1) by (simp add: in_use_def)
  then have "alloc (release i s) \<noteq> None" using u assms(1) alloc_None by auto
  then obtain j s' where a: "alloc (release i s) = Some (j, s')" by auto
  note f = alloc_fresh [OF a]
  have "j = i"
  proof (rule linorder_cases)
    assume "j < i" with assms(2) f(1,2) u show ?thesis by auto
  next
    assume "i < j" with f(3) i u show ?thesis by auto
  qed
  with a show ?thesis by blast
qed

end

end
