(* ===== verification/Syscall.thy ===== *)
theory Syscall
  imports Keyboard Pool
begin

text \<open>
  System calls and processes, \<^verbatim>\<open>src/kernel/syscall.c\<close>. Every terminal runs a stack of
  processes: \<^verbatim>\<open>execute\<close> pushes one, \<^verbatim>\<open>halt\<close> pops it and continues its parent. A process has a
  slot, which determines its page frame, its kernel stack and its control block.
\<close>

section \<open>State\<close>

text \<open>
  \<^verbatim>\<open>pcb_t\<close>; the members \<^verbatim>\<open>ksp\<close>, \<^verbatim>\<open>kbp\<close> and \<^verbatim>\<open>proc_name\<close> are never used. The control blocks are at
  fixed places of the kernel's memory, which user programs cannot write; they are kept in a
  typed heap \<open>pcbs\<close>, by their addresses. \<open>cpu_esp\<close> and \<open>cpu_ebp\<close> are the stack registers
  inside the routine that runs.
\<close>

record pcb =
  fds :: "nat \<Rightarrow> file_array"
  pcb_args :: "u8 list"
  proc_num :: u8
  pcb_base :: u32
  p_ksp :: u32
  p_kbp :: u32
  p_sched_ksp :: u32
  p_sched_kbp :: u32
  pcb_prev :: u32

record kernel = kbd +
  curr_proc :: "nat \<Rightarrow> u32"
  prev_proc :: "nat \<Rightarrow> u32"
  curr_proc_id_mask :: u8
  first_program_run :: u32
  g_status :: u32
  pcbs :: "u32 \<Rightarrow> pcb"
  tss_esp0 :: u32
  cpu_esp :: u32
  cpu_ebp :: u32
  heap_ptr :: u32
  strtok_buf :: "u8 list"

text \<open>
  What the code gets from outside the sources: the float rounding of the processor, what
  interrupts do while a call waits, the addresses that the compiler gives to two local arrays
  of \<^verbatim>\<open>execute\<close> (\<^verbatim>\<open>f_init_data\<close>, \<^verbatim>\<open>temp_arg\<close>) and to the literal \<^verbatim>\<open>"shell"\<close>, and what the
  uninitialised local \<^verbatim>\<open>cmd_len\<close> holds.
\<close>

record 's env =
  rounding :: "rat \<Rightarrow> rat"
  irqs :: "nat \<Rightarrow> 's \<Rightarrow> 's option"
  f_init_data :: u32
  temp_arg :: u32
  shell_literal :: u32
  stale_cmd_len :: u8

definition MAX_PROG_NUM :: nat where "MAX_PROG_NUM = 7"

definition MAX_FILES :: nat where "MAX_FILES = 8"

definition PROGRAM_LOCATION_MASK :: u32 where "PROGRAM_LOCATION_MASK = 0x80"

definition PROGRAM_EXEC_ADDR :: u32 where "PROGRAM_EXEC_ADDR = 0x8048000"

definition pcb_addr :: "u32 \<Rightarrow> u32" where
  "pcb_addr n = 0x800000 - 0x2000 * (n + 1)"

definition esp0_of :: "u32 \<Rightarrow> u32" where
  "esp0_of n = 0x800000 - 0x2000 * n - 4"

definition running :: "'a kernel_scheme \<Rightarrow> nat" where
  "running s = unat (curr_active_term s)"

definition set_pcb :: "u32 \<Rightarrow> (pcb \<Rightarrow> pcb) \<Rightarrow> 'a kernel_scheme \<Rightarrow> 'a kernel_scheme" where
  "set_pcb a f s = s\<lparr>pcbs := (pcbs s)(a := f (pcbs s a))\<rparr>"

definition set_fd :: "nat \<Rightarrow> (file_array \<Rightarrow> file_array) \<Rightarrow> pcb \<Rightarrow> pcb" where
  "set_fd i f p = p\<lparr>fds := (fds p)(i := f (fds p i))\<rparr>"

text \<open>Following a NULL control block faults; the calls then do not return.\<close>

definition cur_pcb :: "'a kernel_scheme \<Rightarrow> pcb option" where
  "cur_pcb s = (if curr_proc s (running s) = 0 then None else Some (pcbs s (curr_proc s (running s))))"

definition set_cur_fd :: "nat \<Rightarrow> (file_array \<Rightarrow> file_array) \<Rightarrow> 'a kernel_scheme \<Rightarrow> 'a kernel_scheme" where
  "set_cur_fd i f s = set_pcb (curr_proc s (running s)) (set_fd i f) s"

section \<open>Files\<close>

text \<open>
  The dispatch through \<^verbatim>\<open>operations_pointer\<close>: a table without the operation, and a NULL table,
  are calls of a NULL pointer.
\<close>

definition call_read ::
  "'a kernel_scheme env \<Rightarrow> nat \<Rightarrow> u32 \<Rightarrow> i32 \<Rightarrow> 'a kernel_scheme \<Rightarrow> (i32 \<times> 'a kernel_scheme) option" where
  "call_read env i buf nbytes s =
     Option.bind (cur_pcb s) (\<lambda>p. let f = fds p i in
       case operations_pointer f of
         Some Stdin_ops \<Rightarrow> terminal_read (irqs env) buf nbytes s
       | Some Rtc_ops \<Rightarrow> rtc_read (irqs env) s
       | Some Dir_ops \<Rightarrow> map_option (\<lambda>(r, f, s). (r, set_cur_fd i (\<lambda>_. f) s)) (dir_read f buf nbytes s)
       | Some Files_ops \<Rightarrow> map_option (\<lambda>(r, f, s). (r, set_cur_fd i (\<lambda>_. f) s)) (fs_read f buf nbytes s)
       | _ \<Rightarrow> None)"

definition call_write ::
  "'a kernel_scheme env \<Rightarrow> nat \<Rightarrow> u32 \<Rightarrow> i32 \<Rightarrow> 'a kernel_scheme \<Rightarrow> (i32 \<times> 'a kernel_scheme) option" where
  "call_write env i buf nbytes s =
     Option.bind (cur_pcb s) (\<lambda>p.
       case operations_pointer (fds p i) of
         Some Stdout_ops \<Rightarrow> Some (terminal_write buf nbytes s)
       | Some Rtc_ops \<Rightarrow> Some (rtc_write (rounding env) buf nbytes s)
       | Some Dir_ops \<Rightarrow> Some (dir_write (of_nat i) buf nbytes, s)
       | Some Files_ops \<Rightarrow> Some (fs_write (of_nat i) buf nbytes, s)
       | _ \<Rightarrow> None)"

definition call_close :: "'a kernel_scheme env \<Rightarrow> nat \<Rightarrow> 'a kernel_scheme \<Rightarrow> (i32 \<times> 'a kernel_scheme) option" where
  "call_close env i s =
     Option.bind (cur_pcb s) (\<lambda>p.
       case operations_pointer (fds p i) of
         Some Rtc_ops \<Rightarrow> Some (rtc_close (rounding env) s)
       | Some Dir_ops \<Rightarrow> Some (dir_close, s)
       | Some Files_ops \<Rightarrow> Some (fs_close, s)
       | _ \<Rightarrow> None)"

definition sys_read ::
  "'a kernel_scheme env \<Rightarrow> i32 \<Rightarrow> u32 \<Rightarrow> i32 \<Rightarrow> 'a kernel_scheme \<Rightarrow> (i32 \<times> 'a kernel_scheme) option" where
  "sys_read env fd buf nbytes s =
     (let (flags, s) = cli_and_save s in
      if buf = 0 \<or> sint fd > 7 \<or> sint fd < 0 \<or> fd = 1 then Some (-1, s)
      else Option.bind (cur_pcb s) (\<lambda>p.
        if fd_flags (fds p (unat fd)) \<noteq> 1 then Some (-1, s)
        else call_read env (unat fd) buf nbytes (restore_flags flags s)))"

definition sys_write ::
  "'a kernel_scheme env \<Rightarrow> i32 \<Rightarrow> u32 \<Rightarrow> i32 \<Rightarrow> 'a kernel_scheme \<Rightarrow> (i32 \<times> 'a kernel_scheme) option" where
  "sys_write env fd buf nbytes s =
     (let (flags, s) = cli_and_save s in
      if buf = 0 \<or> sint fd > 7 \<or> sint fd \<le> 0 then Some (-1, s)
      else Option.bind (cur_pcb s) (\<lambda>p.
        if fd_flags (fds p (unat fd)) \<noteq> 1 then Some (-1, s)
        else call_write env (unat fd) buf nbytes (restore_flags flags s)))"

text \<open>The three cases of the switch in \<^verbatim>\<open>open\<close>; a file type that is none of them does nothing.\<close>

definition open_slot ::
  "'a kernel_scheme env \<Rightarrow> u32 \<Rightarrow> dentry \<Rightarrow> nat \<Rightarrow> 'a kernel_scheme \<Rightarrow> 'a kernel_scheme option" where
  "open_slot env filename info i s =
     (let enter = (\<lambda>table inode s. Option.bind (cur_pcb s) (\<lambda>p.
            map_option (\<lambda>name. set_cur_fd i (\<lambda>f. f\<lparr>operations_pointer := Some table, fd_inode := inode,
                file_position := 0, fd_file_name := name\<rparr>) s)
              (strcpy arr_put (fd_file_name (fds p i)) (view (mem s) filename))))
      in if file_type info = 0 then
           map_option (\<lambda>s. snd (rtc_open (rounding env) s)) (enter Rtc_ops 0 s)
         else if file_type info = 1 then enter Dir_ops 0 s
         else if file_type info = 2 then enter Files_ops (get_inode (inode_num info) s) s
         else Some s)"

definition sys_open :: "'a kernel_scheme env \<Rightarrow> u32 \<Rightarrow> 'a kernel_scheme \<Rightarrow> (i32 \<times> 'a kernel_scheme) option" where
  "sys_open env filename s =
     (let (flags, s) = cli_and_save s in
      if filename = 0 then Some (-1, s)
      else Option.bind (strlen (view (mem s) filename)) (\<lambda>l.
        if l = 0 then Some (-1, s)
        else Option.bind (read_dentry_by_name (view (mem s) filename) local_dentry s) (\<lambda>(check, info).
          if check = -1 then Some (-1, s)
          else Option.bind (cur_pcb s) (\<lambda>p.
            case find (\<lambda>i. fd_flags (fds p i) = 0) [2..<MAX_FILES] of
              None \<Rightarrow> Some (-1, restore_flags flags s)
            | Some i \<Rightarrow> map_option (\<lambda>s. (of_nat i, restore_flags flags (set_cur_fd i (\<lambda>f. f\<lparr>fd_flags := 1\<rparr>) s)))
                          (open_slot env filename info i s)))))"

definition sys_close :: "'a kernel_scheme env \<Rightarrow> i32 \<Rightarrow> 'a kernel_scheme \<Rightarrow> (i32 \<times> 'a kernel_scheme) option" where
  "sys_close env fd s =
     (let (flags, s) = cli_and_save s in
      if sint fd \<ge> 2 \<and> sint fd \<le> 7 then
        Option.bind (cur_pcb s) (\<lambda>p.
          if fd_flags (fds p (unat fd)) = 1 then
            let s = set_cur_fd (unat fd) (\<lambda>f. f\<lparr>fd_flags := 0\<rparr>) s;
                s = set_cur_fd (unat fd) (\<lambda>f. f\<lparr>file_position := 0\<rparr>) s
            in call_close env (unat fd) (restore_flags flags s)
          else Some (-1, restore_flags flags s))
      else Some (-1, restore_flags flags s))"

section \<open>Other calls\<close>

definition getargs :: "u32 \<Rightarrow> i32 \<Rightarrow> 'a kernel_scheme \<Rightarrow> (i32 \<times> 'a kernel_scheme) option" where
  "getargs buf nbytes s =
     (let (flags, s) = cli_and_save s in
      if sint nbytes < 0 \<or> buf = 0 then Some (-1, s)
      else Option.bind (cur_pcb s) (\<lambda>p.
        map_option (\<lambda>m. (0, restore_flags flags (s\<lparr>mem := m\<rparr>)))
          (strncpy (mem_put buf) (mem s) (arr (pcb_args p)) (unat nbytes))))"

definition vidmap :: "u32 \<Rightarrow> 'a kernel_scheme \<Rightarrow> i32 \<times> 'a kernel_scheme" where
  "vidmap screen_start s =
     (let (flags, s) = cli_and_save s in
      if screen_start < 0x08000000 \<or> screen_start > 0x08400000 then (-1, s)
      else let s = s\<lparr>mem := store32 (mem s) screen_start VIDEO\<rparr> in (0, restore_flags flags s))"

definition set_handler :: "i32 \<Rightarrow> u32 \<Rightarrow> i32" where
  "set_handler signum handler_address = 0"

definition sigreturn :: i32 where
  "sigreturn = 0"

definition get_pcb :: "i32 \<Rightarrow> 'a kernel_scheme \<Rightarrow> u32" where
  "get_pcb trm s = curr_proc s (unat trm)"

definition first_prog_run :: "'a kernel_scheme \<Rightarrow> u32" where
  "first_prog_run s = first_program_run s"

definition get_next_running_term_proc :: "'a kernel_scheme \<Rightarrow> u8" where
  "get_next_running_term_proc s =
     (if curr_active_term s = 0 then 1
      else if curr_active_term s = 1 then 2
      else if curr_active_term s = 2 then 0
      else -1)"

definition set_running_proc :: "u8 \<Rightarrow> 'a kernel_scheme \<Rightarrow> 'a kernel_scheme" where
  "set_running_proc proc s = s\<lparr>curr_active_term := proc\<rparr>"

text \<open>\<open>end_addr\<close> is the address of \<^verbatim>\<open>_end\<close>, the end of the kernel's image, set by the linker.\<close>

definition sbrk :: "u32 \<Rightarrow> u32 \<Rightarrow> 'a kernel_scheme \<Rightarrow> u32 \<times> 'a kernel_scheme" where
  "sbrk end_addr nbytes s =
     (let s = (if heap_ptr s = 0 then s\<lparr>heap_ptr := end_addr\<rparr> else s)
      in if sint (0x100000 - heap_ptr s) \<ge> 0 then
           let base = heap_ptr s; s = s\<lparr>heap_ptr := heap_ptr s + nbytes\<rparr> in (base, s)
         else (-1, s))"

section \<open>Waiting\<close>

text \<open>What every interrupt keeps, the calls that wait for one keep.\<close>

lemma terminal_wait_keeps:
  assumes "terminal_wait q n s = Some s'" and "\<And>n s s'. q n s = Some s' \<Longrightarrow> P s \<Longrightarrow> P s'" and "P s"
  shows "P s'"
proof -
  have "(\<forall>n s s'. q n s = Some s' \<longrightarrow> P s \<longrightarrow> P s') \<longrightarrow> P s \<longrightarrow> P s'"
    by (rule terminal_wait.raw_induct [of "\<lambda>q n s s'. (\<forall>n s s'. q n s = Some s' \<longrightarrow> P s \<longrightarrow> P s') \<longrightarrow> P s \<longrightarrow> P s'", OF _ assms(1)])
       (auto simp: bind_eq_Some_conv split: if_splits)
  with assms(2,3) show ?thesis by blast
qed

lemma rtc_wait_keeps:
  assumes "rtc_wait q n s = Some s'" and "\<And>n s s'. q n s = Some s' \<Longrightarrow> P s \<Longrightarrow> P s'" and "P s"
  shows "P s'"
proof -
  have "(\<forall>n s s'. q n s = Some s' \<longrightarrow> P s \<longrightarrow> P s') \<longrightarrow> P s \<longrightarrow> P s'"
    by (rule rtc_wait.raw_induct [of "\<lambda>q n s s'. (\<forall>n s s'. q n s = Some s' \<longrightarrow> P s \<longrightarrow> P s') \<longrightarrow> P s \<longrightarrow> P s'", OF _ assms(1)])
       (auto simp: bind_eq_Some_conv split: if_splits)
  with assms(2,3) show ?thesis by blast
qed

section \<open>What the calls leave alone\<close>

text \<open>Reading a file changes memory only.\<close>

lemma read_loop_mem: "\<exists>m. snd (read_loop inode offset buf len n bp cb loc pos s) = s\<lparr>mem := m\<rparr>"
proof (induction "unat len - unat n" arbitrary: n bp cb loc pos s)
  case 0
  then have "\<not> n < len" by (simp add: word_less_nat_alt)
  then show ?case by (subst read_loop.simps) (auto intro: exI [of _ "mem s"])
next
  case (Suc k)
  then have "n < len" by (simp add: word_less_nat_alt)
  then have u: "k = unat len - unat (n + 1)" using Suc.hyps(2) unat_Suc_less [of n len] by (simp add: word_less_nat_alt)
  have step: "\<exists>m. snd (read_loop inode offset buf len (n + 1) bp' cb' loc' pos' (poke a v s)) = s\<lparr>mem := m\<rparr>"
    for bp' cb' loc' pos' a v
    using Suc.hyps(1) [OF u, of bp' cb' loc' pos' "poke a v s"] by (auto simp: poke_def)
  have here: "\<exists>m. poke a v s = s\<lparr>mem := m\<rparr>" for a v by (auto simp: poke_def)
  show ?case by (subst read_loop.simps) (simp add: Let_def \<open>n < len\<close> step here)
qed

lemma read_data_mem: "\<exists>m. snd (read_data inode offset buf len s) = s\<lparr>mem := m\<rparr>"
  using read_loop_mem by (auto simp: read_data_def Let_def intro: exI [of _ "mem s"])

lemma format_text_plain: "chr CHR ''%'' \<notin> set cs \<Longrightarrow> format_text None cs [] = Some cs"
  by (induction cs) auto

text \<open>
  A view of the state that the file calls and the terminal routines do not touch: they only
  store to memory, the ports, the console, the terminals' buffers and the descriptors.
\<close>

locale call_view =
  fixes V :: "'a kernel_scheme \<Rightarrow> 'v"
  assumes V_machine [simp]: "V (s\<lparr>mem := m\<rparr>) = V s" "V (s\<lparr>int_flag := b\<rparr>) = V s"
      "V (s\<lparr>port_out := po\<rparr>) = V s" "V (s\<lparr>in_count := ic\<rparr>) = V s"
    and V_console: "V (s\<lparr>mem := m, screen_x := sx, screen_y := sy, lib_active_terminal := l\<rparr>) = V s"
    and V_buffers: "V (s\<lparr>keyboard_buf := kb\<rparr>) = V s" "V (s\<lparr>num_chars_in_buf := nc\<rparr>) = V s" "V (s\<lparr>read_buf_ready := rr\<rparr>) = V s"
    and V_calls [simp]: "V (s\<lparr>intr_occ := oc\<rparr>) = V s" "V (s\<lparr>strtok_buf := sb\<rparr>) = V s" "V (set_pcb a (set_fd i g) s) = V s"
begin

lemma V_steps [simp]:
  "V (restore_flags b s) = V s" "V (outb v port s) = V s" "V (snd (cli_and_save s)) = V s" "V (poke addr v s) = V s"
  "V (set_num t n s) = V s" "V (set_ready t r s) = V s" "V (set_buf t k w s) = V s" "V (cli s) = V s" "V (sti s) = V s"
  "V (snd (inb port s)) = V s" "V (set_cur_fd i g s) = V s"
  by (simp_all add: restore_flags_def outb_def cli_and_save_def poke_def set_num_def set_ready_def set_buf_def cli_def sti_def
      inb_def set_cur_fd_def V_buffers)

lemma frame_keeps: "console_frame s s' \<Longrightarrow> V s' = V s"
  by (elim console_frameE) (simp add: V_console)

lemma V_text [simp]:
  "V (new_line s) = V s" "V (putc c s) = V s" "V (clear_screen s) = V s" "V (del_last_char s) = V s"
  by (rule frame_keeps, rule console_frame_steps putc_frame clear_screen_frame del_last_char_frame)+

lemma V_add_char [simp]: "V (snd (add_char_to_buffer c trm s)) = V s"
  by (simp add: add_char_to_buffer_def Let_def)

lemma V_terminal_write [simp]: "V (snd (terminal_write buf n s)) = V s"
proof -
  have "V (snd (fold (write_char buf) is (k, s))) = V s" for "is" k
    by (induction "is" arbitrary: k s) (simp_all add: write_char_def case_prod_beta Let_def)
  then show ?thesis by (simp add: terminal_write_def case_prod_beta Let_def)
qed

lemma V_terminal_copy [simp]: "V (terminal_copy buf n s) = V s"
proof -
  have "V (fold (\<lambda>i s. let t = unat (get_curr_running_term_proc s);
                     s = poke (buf + of_nat i) (ucast (keyboard_buf s (buf_index t i))) s
                 in set_buf t i 0 s) is s) = V s" for "is"
    by (induction "is" arbitrary: s) (simp_all add: Let_def)
  then show ?thesis by (simp add: terminal_copy_def)
qed

lemma V_rtc [simp]:
  "V (snd (rtc_set_frequency rnd f s)) = V s" "V (snd (rtc_open rnd s)) = V s" "V (snd (rtc_close rnd s)) = V s"
  "V (snd (rtc_write rnd buf n s)) = V s"
  by (simp_all add: rtc_set_frequency_def rtc_open_def rtc_close_def rtc_write_def Let_def case_prod_beta)

lemma V_send_eoi [simp]: "V (send_eoi irq s) = V s"
  using send_eoi_ports [of irq s] by auto

lemma V_read_data [simp]: "V (snd (read_data inode offset buf len s)) = V s"
  using read_data_mem [of inode offset buf len s] by auto

lemma read_data_keeps: "read_data inode offset buf len s = (r, s') \<Longrightarrow> V s' = V s"
  using V_read_data [of inode offset buf len s] by simp

lemma fs_read_keeps: "fs_read f buf n s = Some (r, f', s') \<Longrightarrow> V s' = V s"
  by (auto simp: fs_read_def bind_eq_Some_conv split: if_splits prod.splits dest: read_data_keeps)

lemma dir_read_keeps: "dir_read f buf n s = Some (r, f', s') \<Longrightarrow> V s' = V s"
  by (auto simp: dir_read_def bind_eq_Some_conv Let_def split: if_splits)

lemma copy_file_keeps: "copy_file_to_addr f a s = Some (r, s') \<Longrightarrow> V s' = V s"
  by (auto simp: copy_file_to_addr_def bind_eq_Some_conv Let_def split: if_splits prod.splits dest: read_data_keeps)

lemma printf_keeps:
  assumes "printf junk (arr (cs @ [0])) [] s = Some (n, s')" and "0 \<notin> set cs" and "chr CHR ''%'' \<notin> set cs"
  shows "V s' = V s"
proof -
  have "cstr (arr (cs @ [0])) cs" using cstr_arr [of cs "[]"] assms(2) by simp
  from printf_returns [OF this format_text_plain [OF assms(3)] list_all2_Nil [THEN iffD2, OF refl], of junk s] assms(1)
  show ?thesis by (auto intro: frame_keeps)
qed

lemma inb_until_keeps:
  assumes "inb_until P port s = Some s'"
  shows "V s' = V s"
proof -
  have "V s' = V (s\<lparr>in_count := in_count s'\<rparr>)"
    using inb_until_count [OF assms] by (rule arg_cong)
  then show ?thesis by simp
qed

text \<open>The file calls.\<close>

lemma V_snd: "f = (r, s') \<Longrightarrow> V (snd f) = V s \<Longrightarrow> V s' = V s"
  by simp

lemma call_close_keeps:
  assumes "call_close env i s = Some (r, s')"
  shows "V s' = V s"
proof -
  obtain p where p: "cur_pcb s = Some p" using assms by (auto simp: call_close_def bind_eq_Some_conv)
  show ?thesis
  proof (cases "operations_pointer (fds p i)")
    case (Some t)
    with assms p show ?thesis by (cases t) (auto simp: call_close_def elim!: V_snd)
  qed (use assms p in \<open>simp add: call_close_def\<close>)
qed

lemma call_write_keeps:
  assumes "call_write env i buf n s = Some (r, s')"
  shows "V s' = V s"
proof -
  obtain p where p: "cur_pcb s = Some p" using assms by (auto simp: call_write_def bind_eq_Some_conv)
  show ?thesis
  proof (cases "operations_pointer (fds p i)")
    case (Some t)
    with assms p show ?thesis by (cases t) (auto simp: call_write_def elim!: V_snd)
  qed (use assms p in \<open>simp add: call_write_def\<close>)
qed

lemma open_slot_keeps: "open_slot env a d i s = Some s' \<Longrightarrow> V s' = V s"
  by (auto simp: open_slot_def Let_def bind_eq_Some_conv split: if_splits)

lemma sys_close_keeps: "sys_close env fd s = Some (r, s') \<Longrightarrow> V s' = V s"
  by (auto simp: sys_close_def Let_def cli_and_save_def bind_eq_Some_conv split: if_splits dest!: call_close_keeps)

lemma sys_write_keeps: "sys_write env fd buf n s = Some (r, s') \<Longrightarrow> V s' = V s"
  by (auto simp: sys_write_def Let_def cli_and_save_def bind_eq_Some_conv split: if_splits dest!: call_write_keeps)

lemma sys_open_keeps: "sys_open env name s = Some (r, s') \<Longrightarrow> V s' = V s"
  by (auto simp: sys_open_def Let_def cli_and_save_def bind_eq_Some_conv split: if_splits option.splits
      dest!: open_slot_keeps)

lemma getargs_keeps: "getargs buf n s = Some (r, s') \<Longrightarrow> V s' = V s"
  by (auto simp: getargs_def Let_def cli_and_save_def bind_eq_Some_conv split: if_splits)

lemma vidmap_keeps: "V (snd (vidmap a s)) = V s"
  by (simp add: vidmap_def Let_def cli_and_save_def)

text \<open>Reading may wait for interrupts; what they keep of the view, the call keeps.\<close>

lemma sys_read_keeps:
  assumes "sys_read env fd buf n s = Some (v, s')" and "Q (V s)"
    and irq: "\<And>n s s'. irqs env n s = Some s' \<Longrightarrow> Q (V s) \<Longrightarrow> Q (V s')"
  shows "Q (V s')"
proof -
  have tw: "Q (V u)" if "terminal_wait (irqs env) 0 t = Some u" "Q (V t)" for t u
    by (rule terminal_wait_keeps [where P = "\<lambda>x. Q (V x)", OF that(1) _ that(2)]) (rule irq)
  have rw: "Q (V u)" if "rtc_wait (irqs env) 0 t = Some u" "Q (V t)" for t u
    by (rule rtc_wait_keeps [where P = "\<lambda>x. Q (V x)", OF that(1) _ that(2)]) (rule irq)
  have kbd: "Q (V s')" if "terminal_read (irqs env) buf n t = Some (v, s')" "Q (V t)" for t
    using that by (auto simp: terminal_read_def Let_def dest!: tw)
  have rtc: "Q (V s')" if "rtc_read (irqs env) t = Some (v, s')" "Q (V t)" for t
    using that by (auto simp: rtc_read_def dest!: rw)
  have call: "Q (V s')" if c: "call_read env i buf n t = Some (v, s')" "Q (V t)" for i t
  proof -
    obtain p where p: "cur_pcb t = Some p" using c(1) by (auto simp: call_read_def bind_eq_Some_conv)
    show ?thesis
    proof (cases "operations_pointer (fds p i)")
      case (Some table)
      with c p show ?thesis
        by (cases table) (auto simp: call_read_def dest: kbd rtc dir_read_keeps fs_read_keeps)
    qed (use c(1) p in \<open>simp add: call_read_def\<close>)
  qed
  show ?thesis
    using assms(1,2) by (auto simp: sys_read_def case_prod_beta Let_def bind_eq_Some_conv split: if_splits dest: call)
qed

end

text \<open>The part of the state that says which processes there are.\<close>

definition proc_view where
  "proc_view s = (curr_proc s, prev_proc s, curr_proc_id_mask s, curr_active_term s, g_status s,
     \<lambda>a. (proc_num (pcbs s a), pcb_base (pcbs s a), pcb_prev (pcbs s a), p_ksp (pcbs s a), p_kbp (pcbs s a)))"

interpretation proc: call_view proc_view
  by unfold_locales (auto simp: proc_view_def set_pcb_def set_fd_def)

lemmas proc_view_frame = proc.frame_keeps
lemmas fs_read_view = proc.fs_read_keeps
lemmas dir_read_view = proc.dir_read_keeps
lemmas copy_file_view = proc.copy_file_keeps
lemmas printf_view = proc.printf_keeps
lemmas inb_until_view = proc.inb_until_keeps
lemmas sys_close_view = proc.sys_close_keeps
lemmas sys_write_view = proc.sys_write_keeps
lemmas sys_open_view = proc.sys_open_keeps
lemmas getargs_view = proc.getargs_keeps
lemmas vidmap_view = proc.vidmap_keeps

lemma proc_view_registers [simp]:
  "proc_view (s\<lparr>tss_esp0 := e\<rparr>) = proc_view s" "proc_view (s\<lparr>cpu_esp := e\<rparr>) = proc_view s"
  "proc_view (s\<lparr>cpu_ebp := e\<rparr>) = proc_view s" "proc_view (s\<lparr>first_program_run := e\<rparr>) = proc_view s"
  by (simp_all add: proc_view_def)

section \<open>The descriptors of a process as a pool\<close>

definition alloc_fd :: "pcb \<Rightarrow> (nat \<times> pcb) option" where
  "alloc_fd p = map_option (\<lambda>i. (i, set_fd i (\<lambda>f. f\<lparr>fd_flags := 1\<rparr>) p)) (find (\<lambda>i. fd_flags (fds p i) = 0) [2..<MAX_FILES])"

definition free_fd :: "nat \<Rightarrow> pcb \<Rightarrow> pcb" where
  "free_fd i p = set_fd i (\<lambda>f. f\<lparr>fd_flags := 0\<rparr>) p"

definition fd_used :: "pcb \<Rightarrow> nat \<Rightarrow> bool" where
  "fd_used p i \<longleftrightarrow> fd_flags (fds p i) \<noteq> 0"

interpretation descriptors: slot_pool fd_used "[2..<MAX_FILES]" alloc_fd free_fd
proof
  fix p i p' j
  show "map_option fst (alloc_fd p) = find (\<lambda>i. \<not> fd_used p i) [2..<MAX_FILES]"
    by (simp add: alloc_fd_def option.map_comp comp_def fd_used_def option.map_ident)
qed (auto simp: alloc_fd_def free_fd_def fd_used_def set_fd_def)

end
