(* ===== verification/Process.thy ===== *)
theory Process
  imports Syscall
begin

text \<open>
  Starting and ending processes: \<^verbatim>\<open>execute\<close> and \<^verbatim>\<open>halt\<close> of \<^verbatim>\<open>src/kernel/syscall.c\<close>. Neither
  returns to its caller when it succeeds: \<^verbatim>\<open>execute\<close> jumps to the program, and \<^verbatim>\<open>halt\<close> continues
  on the kernel stack of the parent, where the parent's \<^verbatim>\<open>execute\<close> then returns \<open>g_status\<close>.
\<close>

section \<open>The command line\<close>

text \<open>
  The loop that copies the arguments of \<^verbatim>\<open>command\<close> to \<^verbatim>\<open>temp_arg\<close>; its array index wraps around
  like the address it is added to. The inner \<^const>\<open>None\<close> is the early return for a long name.
\<close>

partial_function (option) split_command ::
  "u32 \<Rightarrow> u32 \<Rightarrow> u32 \<Rightarrow> bool \<Rightarrow> u8 \<Rightarrow> 'a kernel_scheme \<Rightarrow> (u32 \<times> u8 \<times> 'a kernel_scheme) option option" where
  "split_command command targ i space_flag cmd_len s =
     (let c = mem s (command + i) in
      if c = 0 then Some (Some (i, cmd_len, s))
      else if c = chr CHR '' '' \<and> \<not> space_flag then split_command command targ (i + 1) True (ucast i) s
      else if space_flag then
        split_command command targ (i + 1) space_flag cmd_len (poke (targ + (i - ucast cmd_len - 1)) c s)
      else if i \<ge> 32 then Some None
      else split_command command targ (i + 1) space_flag cmd_len s)"

section \<open>The program file\<close>

text \<open>\<^verbatim>\<open>file_array exec_read\<close>, a local variable of which only the name and the position are set.\<close>

definition exec_read :: "cview \<Rightarrow> file_array option" where
  "exec_read f_name =
     map_option (\<lambda>name. \<lparr>operations_pointer = None, fd_inode = 0, file_position = 0, fd_flags = 0, fd_file_name = name\<rparr>)
       (strcpy arr_put (replicate 32 0) f_name)"

definition read_header ::
  "'a kernel_scheme env \<Rightarrow> cview \<Rightarrow> 'a kernel_scheme \<Rightarrow> (i32 \<times> 'a kernel_scheme) option" where
  "read_header env f_name s =
     Option.bind (exec_read f_name) (\<lambda>f.
       map_option (\<lambda>(r, f, s). (r, s)) (fs_read f (f_init_data env) 32 s))"

definition magic_ok :: "u32 \<Rightarrow> 'a kernel_scheme \<Rightarrow> bool" where
  "magic_ok h s \<longleftrightarrow> mem s h = 0x7F \<and> mem s (h + 1) = 0x45 \<and> mem s (h + 2) = 0x4C \<and> mem s (h + 3) = 0x46"

definition entrypoint :: "u32 \<Rightarrow> 'a kernel_scheme \<Rightarrow> u32" where
  "entrypoint h s =
     (let e = 0;
          e = e + push_bit 24 (ucast (mem s (h + 27)));
          e = e + push_bit 16 (ucast (mem s (h + 26)));
          e = e + push_bit 8 (ucast (mem s (h + 25)))
      in e + ucast (mem s (h + 24)))"

text \<open>\<^verbatim>\<open>jmp_usr_exec\<close> of \<^verbatim>\<open>src/kernel/user.S\<close> enters user mode with interrupts enabled.\<close>

definition jmp_usr_exec :: "u32 \<Rightarrow> 'a kernel_scheme \<Rightarrow> (i32, 'a kernel_scheme) flow" where
  "jmp_usr_exec e s = Enter_user e (sti (cli s))"

section \<open>Slots\<close>

function find_slot :: "nat \<Rightarrow> u32 \<Rightarrow> u8 \<Rightarrow> (nat \<times> u32) option" where
  "find_slot i temp_process_mask id_mask =
     (if i < MAX_PROG_NUM then
        if temp_process_mask AND ucast id_mask = 0 then Some (i, temp_process_mask)
        else find_slot (Suc i) (drop_bit 1 temp_process_mask) id_mask
      else None)"
  by pat_completeness auto
termination
  by (relation "measure (\<lambda>(i, _, _). MAX_PROG_NUM - i)") auto

declare find_slot.simps [simp del]

section \<open>execute\<close>

text \<open>From \<^verbatim>\<open>init_new_process\<close> to the jump: the process gets its frame, its control block and the terminal.\<close>

definition open_std :: "pcb \<Rightarrow> pcb" where
  "open_std p =
     (let p = fold (\<lambda>i. set_fd i (\<lambda>f. f\<lparr>operations_pointer := None, fd_inode := 0, file_position := 0, fd_flags := 0\<rparr>))
                [0..<8] p;
          p = set_fd 0 (\<lambda>f. f\<lparr>operations_pointer := Some Stdin_ops, fd_flags := 1\<rparr>) p
      in set_fd 1 (\<lambda>f. f\<lparr>operations_pointer := Some Stdout_ops, fd_inode := 0, fd_flags := 1\<rparr>) p)"

definition start_process ::
  "'a kernel_scheme env \<Rightarrow> cview \<Rightarrow> u32 \<Rightarrow> u32 \<Rightarrow> bool \<Rightarrow> 'a kernel_scheme
     \<Rightarrow> (i32, 'a kernel_scheme) flow option" where
  "start_process env f_name entry curr_proc_id flags s =
     (let (base, s) = init_new_process curr_proc_id s in
      Option.bind (copy_file_to_addr f_name PROGRAM_EXEC_ADDR s) (\<lambda>(_, s).
        let a = pcb_addr curr_proc_id;
            s = set_pcb a (\<lambda>p. p\<lparr>p_ksp := cpu_esp s, p_kbp := cpu_ebp s\<rparr>) s;
            s = set_pcb a (\<lambda>p. p\<lparr>proc_num := ucast curr_proc_id, pcb_base := base\<rparr>) s
        in Option.bind (strcpy arr_put (pcb_args (pcbs s a)) (view (mem s) (temp_arg env))) (\<lambda>argv.
        let s = set_pcb a (\<lambda>p. p\<lparr>pcb_args := argv\<rparr>) s;
            s = s\<lparr>tss_esp0 := esp0_of curr_proc_id\<rparr>;
            s = set_pcb a open_std s;
            t = running s;
            s = s\<lparr>prev_proc := (prev_proc s)(t := curr_proc s t)\<rparr>;
            s = s\<lparr>curr_proc := (curr_proc s)(t := a)\<rparr>;
            s = set_pcb (curr_proc s t) (\<lambda>p. p\<lparr>pcb_prev := prev_proc s t\<rparr>) s;
            s = s\<lparr>first_program_run := 1\<rparr>;
            s = set_pcb a (\<lambda>p. p\<lparr>p_sched_ksp := cpu_esp s, p_sched_kbp := cpu_ebp s\<rparr>) s;
            s = restore_flags flags s
        in Some (jmp_usr_exec entry s))))"

text \<open>From the header on.\<close>

definition run_file ::
  "'a kernel_scheme env \<Rightarrow> cview \<Rightarrow> bool \<Rightarrow> 'a kernel_scheme \<Rightarrow> (i32, 'a kernel_scheme) flow option" where
  "run_file env f_name flags s =
     Option.bind (read_header env f_name s) (\<lambda>(r, s).
       if r = -1 then Some (Ret (-1) (restore_flags flags s))
       else if \<not> magic_ok (f_init_data env) s then
         map_option (\<lambda>(_, s). Ret (-1) (restore_flags flags s))
           (printf (\<lambda>_. 0) (arr (str ''ERROR: Non-Runnable file!'' @ [10, 0])) [] s)
       else
         let entry = entrypoint (f_init_data env) s in
         case find_slot 0 PROGRAM_LOCATION_MASK (curr_proc_id_mask s) of
           None \<Rightarrow>
             map_option (\<lambda>(_, s). Ret (-1) (restore_flags flags s))
               (printf (\<lambda>_. 0) (arr (str ''ERROR: Out of runnable program slots!'' @ [10, 0])) [] s)
         | Some (i, temp_process_mask) \<Rightarrow>
             let s = s\<lparr>curr_proc_id_mask := curr_proc_id_mask s OR ucast temp_process_mask\<rparr>
             in start_process env f_name entry (of_nat i) flags s)"

text \<open>After the arguments are copied; a command that starts with a blank makes \<^verbatim>\<open>strtok\<close> return NULL, which faults.\<close>

definition run_command ::
  "'a kernel_scheme env \<Rightarrow> u32 \<Rightarrow> bool \<Rightarrow> u32 \<Rightarrow> u8 \<Rightarrow> 'a kernel_scheme \<Rightarrow> (i32, 'a kernel_scheme) flow option" where
  "run_command env command flags i cmd_len s =
     (let s = poke (temp_arg env + (i - ucast cmd_len - 1)) 0 s in
      Option.bind (strtok (view (mem s) command) (strtok_buf s)) (\<lambda>w.
        case w of
          None \<Rightarrow> None
        | Some (output, _) \<Rightarrow>
            let s = s\<lparr>strtok_buf := output\<rparr> in
            if strncmp (arr output) (lit ''clear'') 5 = 0 then
              Some (Ret 0 (restore_flags flags (clear_screen s)))
            else run_file env (arr output) flags s))"

definition execute :: "'a kernel_scheme env \<Rightarrow> u32 \<Rightarrow> 'a kernel_scheme \<Rightarrow> (i32, 'a kernel_scheme) flow option" where
  "execute env command s =
     (let (flags, s) = cli_and_save s in
      if command = 0 then Some (Ret (-1) (restore_flags flags s))
      else Option.bind (strlen (view (mem s) command)) (\<lambda>l.
        if l = 0 then Some (Ret (-1) (restore_flags flags s))
        else Option.bind (split_command command (temp_arg env) 0 False (stale_cmd_len env) s) (\<lambda>r.
          case r of
            None \<Rightarrow> Some (Ret (-1) (restore_flags flags s))
          | Some (i, cmd_len, s) \<Rightarrow> run_command env command flags i cmd_len s)))"

section \<open>halt\<close>

fun close_files :: "'a kernel_scheme env \<Rightarrow> nat list \<Rightarrow> 'a kernel_scheme \<Rightarrow> 'a kernel_scheme option" where
  "close_files env [] s = Some s"
| "close_files env (i # is) s = Option.bind (sys_close env (of_nat i) s) (\<lambda>(_, s). close_files env is s)"

definition restart_shell :: "'a kernel_scheme env \<Rightarrow> bool \<Rightarrow> 'a kernel_scheme \<Rightarrow> (i32, 'a kernel_scheme) flow option" where
  "restart_shell env flags s =
     Option.bind (read_header env (lit ''shell'') s) (\<lambda>(r, s).
       if r = -1 then Some (Ret (-1) (restore_flags flags s))
       else let entry = entrypoint (f_init_data env) s
            in Some (jmp_usr_exec entry (restore_flags flags s)))"

text \<open>The process is ended: its slot and files are freed and the parent continues.\<close>

definition leave_process :: "'a kernel_scheme env \<Rightarrow> u8 \<Rightarrow> bool \<Rightarrow> 'a kernel_scheme \<Rightarrow> (i32, 'a kernel_scheme) flow option" where
  "leave_process env status flags s =
     (let t = running s; proc_ctrl_blk = curr_proc s t; free_proc_num = proc_num (pcbs s proc_ctrl_blk);
          s = s\<lparr>g_status := ucast status\<rparr>;
          s = s\<lparr>curr_proc_id_mask := curr_proc_id_mask s XOR ucast (drop_bit (unat free_proc_num) PROGRAM_LOCATION_MASK)\<rparr>;
          s = set_pcb proc_ctrl_blk (set_fd 0 (\<lambda>f. f\<lparr>operations_pointer := None, fd_flags := 0\<rparr>)) s;
          s = set_pcb proc_ctrl_blk (set_fd 1 (\<lambda>f. f\<lparr>operations_pointer := None, fd_inode := 0, fd_flags := 0\<rparr>)) s
      in map_option (\<lambda>s.
           let parent = pcbs s (prev_proc s t);
               (_, s) = switch_pd (proc_num parent) (pcb_base parent) s;
               s = s\<lparr>tss_esp0 := esp0_of (ucast (proc_num parent))\<rparr>;
               s = s\<lparr>cpu_esp := p_ksp (pcbs s proc_ctrl_blk)\<rparr>;
               s = s\<lparr>cpu_ebp := p_kbp (pcbs s proc_ctrl_blk)\<rparr>;
               s = s\<lparr>curr_proc := (curr_proc s)(t := prev_proc s t)\<rparr>;
               s = s\<lparr>prev_proc := (prev_proc s)(t := pcb_prev (pcbs s (prev_proc s t)))\<rparr>
           in Resume_stack (restore_flags flags s))
         (close_files env [2..<8] s))"

definition halt :: "'a kernel_scheme env \<Rightarrow> u8 \<Rightarrow> 'a kernel_scheme \<Rightarrow> (i32, 'a kernel_scheme) flow option" where
  "halt env status s =
     (let (flags, s) = cli_and_save s; t = running s in
      if curr_proc s t = 0 then None
      else if prev_proc s t = 0 then restart_shell env flags s
      else leave_process env status flags s)"

lemma location_mask_bit: "bit PROGRAM_LOCATION_MASK n \<longleftrightarrow> n = 7"
proof -
  have "PROGRAM_LOCATION_MASK = push_bit 7 1" by (simp add: PROGRAM_LOCATION_MASK_def)
  moreover have "bit (push_bit 7 (1 :: u32)) n \<longleftrightarrow> n = 7"
    unfolding bit_push_bit_iff bit_1_iff by auto
  ultimately show ?thesis by simp
qed

lemma slot_bit:
  assumes "i \<le> 7"
  shows "drop_bit i PROGRAM_LOCATION_MASK AND ucast (m :: u8) = 0 \<longleftrightarrow> \<not> bit m (7 - i)"
    and "bit (ucast (drop_bit i PROGRAM_LOCATION_MASK) :: u8) n \<longleftrightarrow> n = 7 - i"
proof -
  show "bit (ucast (drop_bit i PROGRAM_LOCATION_MASK) :: u8) n \<longleftrightarrow> n = 7 - i"
    using assms by (auto simp: bit_simps location_mask_bit)
  have b: "bit (drop_bit i PROGRAM_LOCATION_MASK AND ucast m) n \<longleftrightarrow> n = 7 - i \<and> bit m (7 - i)" for n
  proof -
    have "i + n = 7 \<longleftrightarrow> n = 7 - i" using assms by linarith
    then show ?thesis by (auto simp: bit_simps location_mask_bit)
  qed
  show "drop_bit i PROGRAM_LOCATION_MASK AND ucast m = 0 \<longleftrightarrow> \<not> bit m (7 - i)"
  proof
    assume "drop_bit i PROGRAM_LOCATION_MASK AND ucast m = 0"
    then have "\<not> bit (drop_bit i PROGRAM_LOCATION_MASK AND ucast m) (7 - i)" by simp
    with b show "\<not> bit m (7 - i)" by blast
  next
    assume "\<not> bit m (7 - i)"
    then show "drop_bit i PROGRAM_LOCATION_MASK AND ucast m = 0" using b by (intro bit_word_eqI) auto
  qed
qed

lemma find_slot_from:
  "i \<le> 7 \<Longrightarrow> find_slot i (drop_bit i PROGRAM_LOCATION_MASK) m =
     map_option (\<lambda>j. (j, drop_bit j PROGRAM_LOCATION_MASK)) (find (\<lambda>j. \<not> bit m (7 - j)) [i..<7])"
proof (induction "7 - i" arbitrary: i)
  case 0
  then show ?case by (subst find_slot.simps) (simp add: MAX_PROG_NUM_def)
next
  case (Suc k)
  then have "i < 7" by simp
  moreover have "drop_bit (Suc 0) (drop_bit i PROGRAM_LOCATION_MASK) = drop_bit (Suc i) PROGRAM_LOCATION_MASK"
    by (simp add: drop_bit_drop_bit)
  ultimately show ?case
    using Suc.hyps(1) [of "Suc i"] Suc.hyps(2)
    by (subst find_slot.simps) (simp add: MAX_PROG_NUM_def slot_bit upt_conv_Cons del: drop_bit_drop_bit)
qed

lemma find_slot_first:
  "find_slot 0 PROGRAM_LOCATION_MASK m =
     map_option (\<lambda>j. (j, drop_bit j PROGRAM_LOCATION_MASK)) (find (\<lambda>j. \<not> bit m (7 - j)) [0..<7])"
  using find_slot_from [of 0 m] by simp

definition alloc_slot :: "u8 \<Rightarrow> (nat \<times> u8) option" where
  "alloc_slot m = map_option (\<lambda>(i, t). (i, m OR ucast t)) (find_slot 0 PROGRAM_LOCATION_MASK m)"

definition free_slot :: "nat \<Rightarrow> u8 \<Rightarrow> u8" where
  "free_slot i m = m XOR ucast (drop_bit i PROGRAM_LOCATION_MASK)"

definition slot_used :: "u8 \<Rightarrow> nat \<Rightarrow> bool" where
  "slot_used m i = bit m (7 - i)"

interpretation process_slots: slot_pool slot_used "[0..<7]" alloc_slot free_slot
proof
  fix m i m' j
  show "map_option fst (alloc_slot m) = find (\<lambda>i. \<not> slot_used m i) [0..<7]"
    by (simp add: alloc_slot_def find_slot_first option.map_comp comp_def slot_used_def option.map_ident)
  show "slot_used m' j = (slot_used m j \<or> j = i)" if "alloc_slot m = Some (i, m')" "j \<in> set [0..<7]"
  proof -
    have "find (\<lambda>j. \<not> bit m (7 - j)) [0..<7] = Some i" "m' = m OR ucast (drop_bit i PROGRAM_LOCATION_MASK)"
      using that(1) by (auto simp: alloc_slot_def find_slot_first)
    moreover from this have "i < 7" by (auto simp: find_Some_iff)
    ultimately show ?thesis using that(2) by (auto simp: slot_used_def bit_or_iff slot_bit)
  qed
  show "slot_used (free_slot i m) j = (slot_used m j \<and> j \<noteq> i)"
    if "i \<in> set [0..<7]" "j \<in> set [0..<7]" "slot_used m i"
    using that by (auto simp: slot_used_def free_slot_def bit_xor_iff slot_bit)
qed simp_all

section \<open>Processes as stacks\<close>

text \<open>
  The abstract state: for each terminal the stack of the slots of its processes, the running one
  first. \<open>chain\<close> reads a stack off the control blocks, through the pointers to the parents.
\<close>

definition pcb_view :: "'a kernel_scheme \<Rightarrow> u32 \<Rightarrow> u8 \<times> u32 \<times> u32" where
  "pcb_view s a = (proc_num (pcbs s a), pcb_base (pcbs s a), pcb_prev (pcbs s a))"

fun chain :: "(u32 \<Rightarrow> u8 \<times> u32 \<times> u32) \<Rightarrow> u32 \<Rightarrow> nat list \<Rightarrow> bool" where
  "chain f a [] \<longleftrightarrow> a = 0"
| "chain f a (i # is) \<longleftrightarrow> i < 7 \<and> a = pcb_addr (of_nat i) \<and> fst (f a) = of_nat i
     \<and> fst (snd (f a)) = ucast (process_frame (of_nat i)) \<and> chain f (snd (snd (f a))) is"

definition head_addr :: "nat list \<Rightarrow> u32" where
  "head_addr st = (case st of [] \<Rightarrow> 0 | i # _ \<Rightarrow> pcb_addr (of_nat i))"

definition all_procs :: "(nat \<Rightarrow> nat list) \<Rightarrow> nat list" where
  "all_procs st = st 0 @ st 1 @ st 2"

definition procs :: "'a kernel_scheme \<Rightarrow> (nat \<Rightarrow> nat list) \<Rightarrow> bool" where
  "procs s st \<longleftrightarrow> running s < 3
     \<and> (\<forall>t<3. chain (pcb_view s) (curr_proc s t) (st t) \<and> prev_proc s t = head_addr (tl (st t)))
     \<and> distinct (all_procs st) \<and> process_slots.in_use (curr_proc_id_mask s) = set (all_procs st)"

lemma procs_cong: "proc_view s' = proc_view s \<Longrightarrow> procs s' st \<longleftrightarrow> procs s st"
proof -
  assume v: "proc_view s' = proc_view s"
  then have "pcb_view s' = pcb_view s" by (auto simp: proc_view_def pcb_view_def fun_eq_iff)
  with v show ?thesis by (simp add: procs_def proc_view_def running_def)
qed

lemma slot_cases: "i < 7 \<Longrightarrow> i \<in> {0, 1, 2, 3, 4, 5, 6 :: nat}"
  by auto

lemma pcb_addr_inj:
  assumes "i < 7" "j < 7"
  shows "pcb_addr (of_nat i) = pcb_addr (of_nat j) \<longleftrightarrow> i = j"
  using slot_cases [OF assms(1)] slot_cases [OF assms(2)] by (auto simp: pcb_addr_def)

lemma pcb_addr_nonzero: "i < 7 \<Longrightarrow> pcb_addr (of_nat i) \<noteq> 0"
  using slot_cases [of i] by (auto simp: pcb_addr_def)

lemma chain_bounds: "chain f a is \<Longrightarrow> \<forall>i\<in>set is. i < 7"
  by (induction "is" arbitrary: a) auto

lemma chain_cong: "(\<And>i. i \<in> set is \<Longrightarrow> f (pcb_addr (of_nat i)) = g (pcb_addr (of_nat i))) \<Longrightarrow> chain f a is = chain g a is"
  by (induction "is" arbitrary: a) auto

lemma chain_head: "chain f a is \<Longrightarrow> a = head_addr is"
  by (cases "is") (simp_all add: head_addr_def)

lemma chain_tail: "chain f a (i # is) \<Longrightarrow> snd (snd (f a)) = head_addr is"
  using chain_head by auto

text \<open>Another slot's control block does not matter.\<close>

lemma chain_other:
  assumes "chain f a is" and "i < 7" and "i \<notin> set is"
  shows "chain (f(pcb_addr (of_nat i) := v)) a is"
proof -
  have "pcb_addr (of_nat j) \<noteq> pcb_addr (of_nat i)" if "j \<in> set is" for j
    using that chain_bounds [OF assms(1)] assms(2,3) pcb_addr_inj [of j i] by auto
  then have "chain (f(pcb_addr (of_nat i) := v)) a is = chain f a is" by (intro chain_cong) auto
  with assms(1) show ?thesis by simp
qed

lemma proc_view_install [simp]: "proc_view (install_frame f s) = proc_view s"
  by (simp add: install_frame_def load_cr3_def set_pde_def Let_def proc_view_def)

lemma open_std_view [simp]:
  "proc_num (open_std p) = proc_num p" "pcb_base (open_std p) = pcb_base p" "pcb_prev (open_std p) = pcb_prev p"
proof -
  have "proc_num (fold (\<lambda>i. set_fd i (g i)) is p) = proc_num p \<and> pcb_base (fold (\<lambda>i. set_fd i (g i)) is p) = pcb_base p
      \<and> pcb_prev (fold (\<lambda>i. set_fd i (g i)) is p) = pcb_prev p" for g "is"
    by (induction "is" arbitrary: p) (simp_all add: set_fd_def)
  from this [of "\<lambda>_ f. f\<lparr>operations_pointer := None, fd_inode := 0, file_position := 0, fd_flags := 0\<rparr>" "[0..<8]"]
  show "proc_num (open_std p) = proc_num p" "pcb_base (open_std p) = pcb_base p" "pcb_prev (open_std p) = pcb_prev p"
    by (simp_all add: open_std_def Let_def) (simp_all add: set_fd_def)
qed

lemma start_process_view:
  assumes "start_process env f entry n flags s = Some r"
  shows "\<exists>s'. r = Enter_user entry s' \<and> curr_proc s' = (curr_proc s)(running s := pcb_addr n) \<and>
    prev_proc s' = (prev_proc s)(running s := curr_proc s (running s)) \<and>
    curr_proc_id_mask s' = curr_proc_id_mask s \<and> curr_active_term s' = curr_active_term s \<and>
    pcb_view s' = (pcb_view s)(pcb_addr n := (ucast n, ucast (process_frame n), curr_proc s (running s)))"
proof -
  define s1 where "s1 = install_frame (process_frame n) s"
  have "proc_view s1 = proc_view s" by (simp add: s1_def)
  obtain v s2 where s2: "copy_file_to_addr f PROGRAM_EXEC_ADDR s1 = Some (v, s2)"
    using assms by (auto simp: start_process_def init_new_process_eq s1_def [symmetric] bind_eq_Some_conv)
  have view: "proc_view s2 = proc_view s" using copy_file_view [OF s2] \<open>proc_view s1 = proc_view s\<close> by simp
  have r: "running s2 = running s" using view by (simp add: proc_view_def running_def)
  show ?thesis
    using assms view s2
    by (simp add: start_process_def init_new_process_eq s1_def [symmetric] bind_eq_Some_conv Let_def jmp_usr_exec_def)
      (erule exE, auto simp: set_pcb_def restore_flags_def cli_def sti_def proc_view_def pcb_view_def running_def fun_eq_iff)
qed

section \<open>execute pushes and halt pops\<close>

text \<open>The two operations on the stacks.\<close>

definition push_proc :: "nat \<Rightarrow> nat \<Rightarrow> (nat \<Rightarrow> nat list) \<Rightarrow> nat \<Rightarrow> nat list" where
  "push_proc t i st = st(t := i # st t)"

definition pop_proc :: "nat \<Rightarrow> (nat \<Rightarrow> nat list) \<Rightarrow> nat \<Rightarrow> nat list" where
  "pop_proc t st = st(t := tl (st t))"

definition next_slot :: "(nat \<Rightarrow> nat list) \<Rightarrow> nat option" where
  "next_slot st = find (\<lambda>i. i \<notin> set (all_procs st)) [0..<7]"

lemma terminal_index: "t < 3 \<Longrightarrow> t \<in> {0, 1, 2 :: nat}"
  by auto

lemma all_procs_push: "t < 3 \<Longrightarrow> set (all_procs (push_proc t i st)) = insert i (set (all_procs st))"
  using terminal_index [of t] by (auto simp: all_procs_def push_proc_def)

lemma distinct_push:
  "t < 3 \<Longrightarrow> distinct (all_procs st) \<Longrightarrow> i \<notin> set (all_procs st) \<Longrightarrow> distinct (all_procs (push_proc t i st))"
  using terminal_index [of t] by (auto simp: all_procs_def push_proc_def)

lemma in_all_procs: "t < 3 \<Longrightarrow> set (st t) \<subseteq> set (all_procs st)"
  using terminal_index [of t] by (auto simp: all_procs_def)

lemma all_procs_pop:
  assumes "t < 3" "distinct (all_procs st)" "st t = i # is"
  shows "distinct (all_procs (pop_proc t st))" and "set (all_procs (pop_proc t st)) = set (all_procs st) - {i}"
  using terminal_index [OF assms(1)] assms(2,3) by (auto simp: all_procs_def pop_proc_def)

lemma find_slot_next:
  assumes "procs s st" and "find_slot 0 PROGRAM_LOCATION_MASK (curr_proc_id_mask s) = Some (i, tm)"
  shows "next_slot st = Some i" and "i < 7" and "i \<notin> set (all_procs st)"
    and "process_slots.in_use (curr_proc_id_mask s OR ucast tm) = insert i (set (all_procs st))"
proof -
  have a: "alloc_slot (curr_proc_id_mask s) = Some (i, curr_proc_id_mask s OR ucast tm)"
    using assms(2) by (simp add: alloc_slot_def)
  have u: "process_slots.in_use (curr_proc_id_mask s) = set (all_procs st)" using assms(1) by (simp add: procs_def)
  note f = process_slots.alloc_fresh [OF a]
  show "i < 7" "i \<notin> set (all_procs st)"
    "process_slots.in_use (curr_proc_id_mask s OR ucast tm) = insert i (set (all_procs st))"
    using f u by auto
  have eq: "slot_used (curr_proc_id_mask s) j \<longleftrightarrow> j \<in> set (all_procs st)" if "j < 7" for j
    using u that by (auto simp: process_slots.in_use_def)
  have "find (\<lambda>j. \<not> slot_used (curr_proc_id_mask s) j) [0..<7] = Some i"
    using process_slots.alloc_first [of "curr_proc_id_mask s"] a by simp
  moreover have "find (\<lambda>j. \<not> slot_used (curr_proc_id_mask s) j) [0..<7] = find (\<lambda>i. i \<notin> set (all_procs st)) [0..<7]"
    by (rule find_cong) (auto simp: eq)
  ultimately show "next_slot st = Some i" by (simp add: next_slot_def)
qed

lemma no_slot_next:
  assumes "procs s st" and "find_slot 0 PROGRAM_LOCATION_MASK (curr_proc_id_mask s) = None"
  shows "next_slot st = None"
proof -
  have "alloc_slot (curr_proc_id_mask s) = None" using assms(2) by (simp add: alloc_slot_def)
  then have "set (all_procs st) = {0..<7}"
    using process_slots.alloc_None assms(1) by (auto simp: procs_def)
  then show ?thesis by (auto simp: next_slot_def find_None_iff)
qed

lemma procs_push:
  assumes inv: "procs s st" and "start_process env f entry (of_nat i) flags (s\<lparr>curr_proc_id_mask := mk\<rparr>) = Some r"
    and "i < 7" "i \<notin> set (all_procs st)" "process_slots.in_use mk = insert i (set (all_procs st))"
  shows "\<exists>s'. r = Enter_user entry s' \<and> procs s' (push_proc (running s) i st) \<and> running s' = running s"
proof -
  let ?t = "running s"
  have t: "?t < 3" using inv by (simp add: procs_def)
  have small: "(ucast (of_nat i :: u32) :: u8) = of_nat i" using slot_cases [OF assms(3)] by auto
  obtain s' where s': "r = Enter_user entry s'" "curr_proc s' = (curr_proc s)(?t := pcb_addr (of_nat i))"
    "prev_proc s' = (prev_proc s)(?t := curr_proc s ?t)" "curr_proc_id_mask s' = mk"
    "curr_active_term s' = curr_active_term s"
    "pcb_view s' = (pcb_view s)(pcb_addr (of_nat i) := (of_nat i, ucast (process_frame (of_nat i)), curr_proc s ?t))"
    using start_process_view [OF assms(2)] by (auto simp: running_def pcb_view_def fun_eq_iff small)
  have r: "running s' = ?t" using s'(5) by (simp add: running_def)
  have c: "chain (pcb_view s) (curr_proc s u) (st u)" "prev_proc s u = head_addr (tl (st u))" if "u < 3" for u
    using inv that by (simp_all add: procs_def)
  have keep: "chain (pcb_view s') (curr_proc s u) (st u)" if "u < 3" for u
    unfolding s'(6) using c(1) [OF that] assms(3,4) in_all_procs [OF that] by (intro chain_other) auto
  have "chain (pcb_view s') (curr_proc s' u) (push_proc ?t i st u) \<and> prev_proc s' u = head_addr (tl (push_proc ?t i st u))"
    if "u < 3" for u
  proof (cases "u = ?t")
    case True
    then show ?thesis
      using keep [OF t] chain_head [OF c(1) [OF t]] assms(3) by (simp add: push_proc_def s'(2,3)) (simp add: s'(6))
  next
    case False
    then show ?thesis using keep [OF that] c(2) [OF that] by (simp add: push_proc_def s'(2,3))
  qed
  moreover have "distinct (all_procs (push_proc ?t i st))"
    using inv assms(4) by (intro distinct_push [OF t]) (simp_all add: procs_def)
  ultimately have "procs s' (push_proc ?t i st)"
    using t assms(5) all_procs_push [OF t, of i st] by (simp add: procs_def r s'(4))
  with s'(1) r show ?thesis by blast
qed

lemma plain_messages:
  "(0 :: u8) \<notin> set (str ''ERROR: Non-Runnable file!'' @ [10])" "chr CHR ''%'' \<notin> set (str ''ERROR: Non-Runnable file!'' @ [10])"
  "(0 :: u8) \<notin> set (str ''ERROR: Out of runnable program slots!'' @ [10])"
  "chr CHR ''%'' \<notin> set (str ''ERROR: Out of runnable program slots!'' @ [10])"
  by code_simp+

text \<open>
  Up to the choice of a slot, \<^verbatim>\<open>execute\<close> changes no more than the file calls do: it returns so, or
  starts a process.
\<close>

context call_view begin

lemma split_command_keeps:
  assumes "split_command c ta i sp cl s = Some (Some (k, cl', s'))"
  shows "V s' = V s"
proof -
  have "\<forall>k cl' s'. r = Some (k, cl', s') \<longrightarrow> V s' = V s" if "split_command c ta i sp cl s = Some r" for r
    by (rule split_command.raw_induct [of "\<lambda>c ta i sp cl s r. \<forall>k cl' s'. r = Some (k, cl', s') \<longrightarrow> V s' = V s", OF _ that])
       (auto simp: Let_def split: if_splits)
  with assms show ?thesis by blast
qed

lemma read_header_keeps: "read_header env f s = Some (r, s') \<Longrightarrow> V s' = V s"
  by (auto simp: read_header_def bind_eq_Some_conv dest: fs_read_keeps)

lemma message_keeps:
  "printf junk (arr (cs @ [10, 0])) [] s = Some (n, s') \<Longrightarrow> 0 \<notin> set (cs @ [10]) \<Longrightarrow> chr CHR ''%'' \<notin> set (cs @ [10]) \<Longrightarrow> V s' = V s"
  using printf_keeps [of junk "cs @ [10]" s n s'] by simp

lemma restart_shell_keeps:
  assumes "restart_shell env flags s = Some r"
  shows "V (flow_state r) = V s" and "\<forall>s'. r \<noteq> Resume_stack s'"
  using assms by (auto simp: restart_shell_def bind_eq_Some_conv jmp_usr_exec_def split: if_splits dest!: read_header_keeps)

lemma run_file_cases:
  assumes "run_file env f flags s = Some r"
  obtains (returns) v s' where "r = Ret v s'" "V s' = V s"
    | (starts) e s0 i tm where "V s0 = V s" "find_slot 0 PROGRAM_LOCATION_MASK (curr_proc_id_mask s0) = Some (i, tm)"
        "start_process env f e (of_nat i) flags (s0\<lparr>curr_proc_id_mask := curr_proc_id_mask s0 OR ucast tm\<rparr>) = Some r"
proof -
  obtain v s1 where h: "read_header env f s = Some (v, s1)"
    using assms by (auto simp: run_file_def bind_eq_Some_conv)
  have view: "V s1 = V s" by (rule read_header_keeps [OF h])
  show ?thesis
  proof (cases "v = -1 \<or> \<not> magic_ok (f_init_data env) s1")
    case True
    with assms h view show ?thesis
      by (auto simp: run_file_def split: if_splits intro!: returns dest: message_keeps [OF _ plain_messages(1,2)])
  next
    case False
    show ?thesis
    proof (cases "find_slot 0 PROGRAM_LOCATION_MASK (curr_proc_id_mask s1)")
      case None
      with assms h view False show ?thesis
        by (auto simp: run_file_def split: if_splits intro!: returns dest: message_keeps [OF _ plain_messages(3,4)])
    next
      case (Some p)
      with assms h False show ?thesis by (cases p) (auto simp: run_file_def intro!: starts [OF view])
    qed
  qed
qed

lemma run_command_cases:
  assumes "run_command env command flags i cl s = Some r"
  obtains (returns) v s' where "r = Ret v s'" "V s' = V s"
    | (runs) out s' where "V s' = V s" "run_file env (arr out) flags s' = Some r"
proof -
  define s2 where "s2 = poke (temp_arg env + (i - ucast cl - 1)) 0 s"
  note run = assms [unfolded run_command_def Let_def, folded s2_def]
  obtain out k where w: "strtok (view (mem s2) command) (strtok_buf s2) = Some (Some (out, k))"
    using run unfolding bind_eq_Some_conv by (auto split: option.split_asm)
  define s3 where "s3 = s2\<lparr>strtok_buf := out\<rparr>"
  have v: "V s3 = V s" by (simp add: s3_def s2_def)
  show ?thesis
  proof (cases "strncmp (arr out) (lit ''clear'') 5 = 0")
    case True
    with run w v show ?thesis by (intro returns [of 0 "restore_flags flags (clear_screen s3)"]) (auto simp: s3_def)
  next
    case False
    with run w show ?thesis by (intro runs [OF v, of out]) (simp add: s3_def)
  qed
qed

lemma execute_cases:
  assumes "execute env command s = Some r"
  obtains (returns) v s' where "r = Ret v s'" "V s' = V s"
    | (starts) f e s0 i tm where "V s0 = V s" "find_slot 0 PROGRAM_LOCATION_MASK (curr_proc_id_mask s0) = Some (i, tm)"
        "start_process env f e (of_nat i) (int_flag s) (s0\<lparr>curr_proc_id_mask := curr_proc_id_mask s0 OR ucast tm\<rparr>) = Some r"
proof -
  define s0 where "s0 = s\<lparr>int_flag := False\<rparr>"
  have v0: "V s0 = V s" by (simp add: s0_def)
  note ex = assms [unfolded execute_def cli_and_save_def Let_def prod.case, folded s0_def]
  show ?thesis
  proof (cases "command = 0 \<or> strlen (view (mem s0) command) = Some 0")
    case True
    then show ?thesis using ex v0 by (auto split: if_splits intro: returns [of _ "restore_flags (int_flag s) s0"])
  next
    case False
    then obtain q where q: "split_command command (temp_arg env) 0 False (stale_cmd_len env) s0 = Some q"
      using ex by (auto simp: bind_eq_Some_conv split: if_splits)
    show ?thesis
    proof (cases q)
      case None
      then show ?thesis using ex q False v0
        by (auto simp: bind_eq_Some_conv split: if_splits intro: returns [of _ "restore_flags (int_flag s) s0"])
    next
      case (Some p)
      obtain i cl s1 where p: "p = (i, cl, s1)" by (cases p) auto
      have v1: "V s1 = V s" using split_command_keeps [OF q [unfolded Some p]] v0 by simp
      have "run_command env command (int_flag s) i cl s1 = Some r"
        using ex q False by (auto simp: bind_eq_Some_conv Some p split: if_splits)
      then show ?thesis
      proof (cases rule: run_command_cases)
        case (returns v s')
        then show ?thesis using that(1) v1 by simp
      next
        case (runs out s2)
        from runs(2) show ?thesis
        proof (cases rule: run_file_cases)
          case (returns v s')
          then show ?thesis using that(1) v1 runs(1) by simp
        next
          case (starts e s3 i tm)
          then show ?thesis using that(2) v1 runs(1) by simp
        qed
      qed
    qed
  qed
qed

end

text \<open>What a flow means for the stacks.\<close>

definition executed :: "nat \<Rightarrow> (nat \<Rightarrow> nat list) \<Rightarrow> (i32, 'a kernel_scheme) flow \<Rightarrow> bool" where
  "executed t st r =
     (case r of
        Ret _ s' \<Rightarrow> procs s' st \<and> running s' = t
      | Enter_user _ s' \<Rightarrow> (\<exists>i. next_slot st = Some i \<and> procs s' (push_proc t i st)) \<and> running s' = t
      | Resume_stack _ \<Rightarrow> False)"

lemma execute_executed:
  assumes "procs s st" and "execute env command s = Some r"
  shows "executed (running s) st r"
  using assms(2)
proof (cases rule: proc.execute_cases)
  case (returns v s')
  then show ?thesis using procs_cong [OF returns(2)] assms(1) by (simp add: executed_def proc_view_def running_def)
next
  case (starts f e s0 i tm)
  have inv: "procs s0 st" and t: "running s0 = running s"
    using starts(1) assms(1) procs_cong [OF starts(1)] by (simp_all add: proc_view_def running_def)
  from procs_push [OF inv starts(3) find_slot_next(2-4) [OF inv starts(2)]] find_slot_next(1) [OF inv starts(2)]
  show ?thesis by (auto simp: executed_def t)
qed

text \<open>What \<^verbatim>\<open>halt\<close> does: the first process of a terminal is restarted, any other one is left.\<close>

definition halted :: "nat \<Rightarrow> (nat \<Rightarrow> nat list) \<Rightarrow> (i32, 'a kernel_scheme) flow \<Rightarrow> bool" where
  "halted t st r =
     (case r of
        Ret _ s' \<Rightarrow> length (st t) = 1 \<and> procs s' st \<and> running s' = t
      | Enter_user _ s' \<Rightarrow> length (st t) = 1 \<and> procs s' st \<and> running s' = t
      | Resume_stack s' \<Rightarrow> length (st t) > 1 \<and> procs s' (pop_proc t st) \<and> running s' = t)"

lemma close_files_view: "close_files env is s = Some s' \<Longrightarrow> proc_view s' = proc_view s"
  by (induction "is" arbitrary: s) (auto simp: bind_eq_Some_conv dest!: sys_close_view)

lemma head_addr_zero: "\<forall>i\<in>set st. i < 7 \<Longrightarrow> head_addr st = 0 \<longleftrightarrow> st = []"
  using pcb_addr_nonzero by (auto simp: head_addr_def split: list.splits)

lemma procs_fields:
  assumes "procs s st" and "t < 3"
  shows "curr_proc s t = head_addr (st t)" and "prev_proc s t = head_addr (tl (st t))" and "\<forall>i\<in>set (st t). i < 7"
    and "st t = i # is \<Longrightarrow> proc_num (pcbs s (pcb_addr (of_nat i))) = of_nat i \<and>
      pcb_base (pcbs s (pcb_addr (of_nat i))) = ucast (process_frame (of_nat i)) \<and>
      pcb_prev (pcbs s (pcb_addr (of_nat i))) = head_addr is"
    and "st t = i # j # js \<Longrightarrow> proc_num (pcbs s (pcb_addr (of_nat j))) = of_nat j \<and>
      pcb_base (pcbs s (pcb_addr (of_nat j))) = ucast (process_frame (of_nat j)) \<and>
      pcb_prev (pcbs s (pcb_addr (of_nat j))) = head_addr js"
proof -
  have c: "chain (pcb_view s) (curr_proc s t) (st t)" and p: "prev_proc s t = head_addr (tl (st t))"
    using assms by (simp_all add: procs_def)
  from c p show "curr_proc s t = head_addr (st t)" "prev_proc s t = head_addr (tl (st t))" "\<forall>i\<in>set (st t). i < 7"
    using chain_head chain_bounds by blast+
  show "st t = i # is \<Longrightarrow> proc_num (pcbs s (pcb_addr (of_nat i))) = of_nat i \<and>
      pcb_base (pcbs s (pcb_addr (of_nat i))) = ucast (process_frame (of_nat i)) \<and>
      pcb_prev (pcbs s (pcb_addr (of_nat i))) = head_addr is"
    using c chain_head by (auto simp: pcb_view_def)
  show "st t = i # j # js \<Longrightarrow> proc_num (pcbs s (pcb_addr (of_nat j))) = of_nat j \<and>
      pcb_base (pcbs s (pcb_addr (of_nat j))) = ucast (process_frame (of_nat j)) \<and>
      pcb_prev (pcbs s (pcb_addr (of_nat j))) = head_addr js"
    using c chain_head by (auto simp: pcb_view_def)
qed

lemma procs_pop:
  assumes inv: "procs s st" and st: "st (running s) = i # j # js"
    and view: "pcb_view s' = pcb_view s" and run: "running s' = running s"
    and ptrs: "curr_proc s' = (curr_proc s)(running s := pcb_addr (of_nat j))" "prev_proc s' = (prev_proc s)(running s := head_addr js)"
    and mask: "curr_proc_id_mask s' = free_slot i (curr_proc_id_mask s)"
  shows "procs s' (pop_proc (running s) st)"
proof -
  let ?t = "running s" and ?a = "pcb_addr (of_nat i)" and ?b = "pcb_addr (of_nat j)"
  have t: "?t < 3" using inv by (simp add: procs_def)
  have c: "chain (pcb_view s) (curr_proc s u) (st u)" "prev_proc s u = head_addr (tl (st u))" if "u < 3" for u
    using inv that by (simp_all add: procs_def)
  have cur: "curr_proc s ?t = ?a" using procs_fields(1) [OF inv t] st by (simp add: head_addr_def)
  have "chain (pcb_view s) ?b (j # js)"
  proof -
    have ch: "chain (pcb_view s) (snd (snd (pcb_view s ?a))) (j # js)"
      using c(1) [OF t] unfolding st cur chain.simps(2) [of _ _ i] by blast
    then have "snd (snd (pcb_view s ?a)) = ?b" by simp
    from ch [unfolded this] show ?thesis .
  qed
  then have "chain (pcb_view s') (curr_proc s' u) (pop_proc ?t st u) \<and> prev_proc s' u = head_addr (tl (pop_proc ?t st u))"
    if "u < 3" for u
    unfolding view ptrs using c [OF that] st by (auto simp: pop_proc_def)
  moreover have "i \<in> process_slots.in_use (curr_proc_id_mask s)"
    using inv st in_all_procs [OF t, of st] by (auto simp: procs_def)
  then have "process_slots.in_use (curr_proc_id_mask s') = set (all_procs st) - {i}"
    using process_slots.release_in_use inv by (simp add: mask procs_def)
  ultimately show ?thesis
    using t all_procs_pop [of ?t st i "j # js", OF t _ st] inv by (simp add: procs_def run)
qed

lemma leave_process_halted:
  assumes inv: "procs s st" and leave: "leave_process env status flags s = Some r" and st: "st (running s) = i # j # js"
  shows "\<exists>s'. r = Resume_stack s' \<and> procs s' (pop_proc (running s) st) \<and> running s' = running s \<and>
    cpu_esp s' = p_ksp (pcbs s (pcb_addr (of_nat i))) \<and> window s' = Some (process_frame (of_nat j)) \<and>
    tss_esp0 s' = esp0_of (of_nat j) \<and> g_status s' = ucast status"
proof -
  let ?t = "running s" and ?a = "pcb_addr (of_nat i)" and ?b = "pcb_addr (of_nat j)"
  have t: "?t < 3" using inv by (simp add: procs_def)
  note f = procs_fields [OF inv t]
  have ij: "i < 7" "j < 7" using f(3) st by simp_all
  have cur: "curr_proc s ?t = ?a" "prev_proc s ?t = ?b" using f(1,2) st by (simp_all add: head_addr_def)
  have num: "unat (proc_num (pcbs s ?a)) = i" using f(4) [OF st] slot_cases [OF ij(1)] by auto
  define s2 where "s2 = set_pcb ?a (set_fd 1 (\<lambda>f. f\<lparr>operations_pointer := None, fd_inode := 0, fd_flags := 0\<rparr>))
    (set_pcb ?a (set_fd 0 (\<lambda>f. f\<lparr>operations_pointer := None, fd_flags := 0\<rparr>))
      (s\<lparr>g_status := ucast status, curr_proc_id_mask := curr_proc_id_mask (s\<lparr>g_status := ucast status\<rparr>) XOR
          ucast (drop_bit i PROGRAM_LOCATION_MASK)\<rparr>))"
  note lv = leave [unfolded leave_process_def Let_def cur num, folded s2_def]
  have v2: "proc_view s2 = proc_view (s\<lparr>g_status := ucast status, curr_proc_id_mask := free_slot i (curr_proc_id_mask s)\<rparr>)"
    by (simp add: s2_def free_slot_def)
  obtain s3 where s3: "close_files env [2..<8] s2 = Some s3"
    using lv by blast
  have "proc_view s3 = proc_view (s\<lparr>g_status := ucast status, curr_proc_id_mask := free_slot i (curr_proc_id_mask s)\<rparr>)"
    using close_files_view [OF s3] v2 by simp
  then have v3: "curr_proc s3 = curr_proc s" "prev_proc s3 = prev_proc s" "running s3 = ?t" "g_status s3 = ucast status"
    "curr_proc_id_mask s3 = free_slot i (curr_proc_id_mask s)" "pcb_view s3 = pcb_view s"
    "p_ksp (pcbs s3 x) = p_ksp (pcbs s x)" for x
    by (simp_all add: proc_view_def running_def pcb_view_def fun_eq_iff)
  have parent: "proc_num (pcbs s3 ?b) = of_nat j" "pcb_base (pcbs s3 ?b) = ucast (process_frame (of_nat j))"
    "pcb_prev (pcbs s3 ?b) = head_addr js"
    using f(5) [OF st] fun_cong [OF v3(6), of ?b] by (simp_all add: pcb_view_def)
  have small: "(ucast (of_nat j :: u8) :: u32) = of_nat j" using slot_cases [OF ij(2)] by auto
  define s4 where "s4 = install_frame (process_frame (of_nat j)) s3"
  have frame: "(ucast (ucast (process_frame (of_nat j)) :: u32) :: 20 word) = process_frame (of_nat j)"
    by (rule bit_word_eqI) (simp add: bit_simps)
  have v4: "proc_view s4 = proc_view s3" by (simp add: s4_def)
  then have f4: "curr_proc s4 = curr_proc s" "prev_proc s4 = prev_proc s" "running s4 = ?t" "g_status s4 = ucast status"
    "curr_proc_id_mask s4 = free_slot i (curr_proc_id_mask s)" "pcb_view s4 = pcb_view s"
    "p_ksp (pcbs s4 x) = p_ksp (pcbs s x)" for x
    using v3 by (simp_all add: proc_view_def running_def pcb_view_def fun_eq_iff)
  define s' where "s' = restore_flags flags (s4\<lparr>tss_esp0 := esp0_of (of_nat j), cpu_esp := p_ksp (pcbs s4 ?a),
    cpu_ebp := p_kbp (pcbs s4 ?a), curr_proc := (curr_proc s4)(?t := ?b), prev_proc := (prev_proc s4)(?t := head_addr js)\<rparr>)"
  have "pcb_prev (pcbs s4 ?b) = head_addr js" using fun_cong [OF f4(6), of ?b] f(5) [OF st] by (simp add: pcb_view_def)
  then have "r = Resume_stack s'"
    using lv parent f4 unfolding s3 by (simp add: v3 cur switch_pd_eq small frame s4_def [symmetric] s'_def)
  moreover have "pcb_view s' = pcb_view s4" "running s' = running s4"
    by (simp_all add: s'_def restore_flags_def pcb_view_def running_def fun_eq_iff)
  then have "procs s' (pop_proc ?t st)"
    by (intro procs_pop [OF inv st]) (simp_all add: f4 s'_def restore_flags_def)
  moreover have "running s' = ?t \<and> cpu_esp s' = p_ksp (pcbs s ?a) \<and> window s' = Some (process_frame (of_nat j))
      \<and> tss_esp0 s' = esp0_of (of_nat j) \<and> g_status s' = ucast status"
    using f4 by (simp add: s'_def restore_flags_def running_def) (simp add: s4_def)
  ultimately show ?thesis by blast
qed

lemma halt_halted:
  assumes inv: "procs s st" and "halt env status s = Some r"
  shows "halted (running s) st r"
proof -
  let ?t = "running s"
  have t: "?t < 3" using inv by (simp add: procs_def)
  note f = procs_fields [OF inv t]
  define s0 where "s0 = s\<lparr>int_flag := False\<rparr>"
  have v0: "proc_view s0 = proc_view s" by (simp add: s0_def)
  have t0: "running s0 = ?t" by (simp add: s0_def running_def)
  obtain i "is" where st: "st ?t = i # is"
    using assms(2) f(1) by (cases "st ?t") (auto simp: halt_def cli_and_save_def Let_def running_def head_addr_def)
  show ?thesis
  proof (cases "is")
    case Nil
    then have "prev_proc s0 ?t = 0" "curr_proc s0 ?t \<noteq> 0"
      using f(1-3) st pcb_addr_nonzero [of i] by (simp_all add: s0_def head_addr_def)
    then have "restart_shell env (int_flag s) s0 = Some r"
      using assms(2) by (simp add: halt_def cli_and_save_def Let_def s0_def [symmetric] t0)
    from proc.restart_shell_keeps [OF this] have v: "proc_view (flow_state r) = proc_view s" and n: "\<forall>s'. r \<noteq> Resume_stack s'"
      using v0 by simp_all
    then have "procs (flow_state r) st \<and> running (flow_state r) = ?t"
      using inv procs_cong [OF v] by (simp add: proc_view_def running_def)
    then show ?thesis using n st Nil by (cases r) (auto simp: halted_def)
  next
    case (Cons j js)
    have ij: "i < 7" "j < 7" using f(3) st Cons by simp_all
    then have "prev_proc s0 ?t \<noteq> 0" "curr_proc s0 ?t \<noteq> 0"
      using f(1-3) st Cons pcb_addr_nonzero by (simp_all add: s0_def head_addr_def)
    then have leave: "leave_process env status (int_flag s) s0 = Some r"
      using assms(2) by (simp add: halt_def cli_and_save_def Let_def s0_def [symmetric] t0)
    from leave_process_halted [OF _ leave, of st i j js] inv procs_cong [OF v0] st Cons t0
    show ?thesis by (auto simp: halted_def)
  qed
qed

end
