(* ===== verification/Pit.thy ===== *)
theory Pit
  imports Process
begin

text \<open>
  Switching between the terminals' processes, \<^verbatim>\<open>src/drivers/pit.c\<close>: on the timer, and on the
  function keys through \<^verbatim>\<open>context_switch\<close>. The timer's scheduler is compiled out
  (\<^verbatim>\<open>SCHED_ENABLED\<close> is 0); it is modelled with the constant as a parameter.
\<close>

definition PIT_CMD_PORT :: u16 where "PIT_CMD_PORT = 0x43"

definition PIT_DATA_PORT :: u16 where "PIT_DATA_PORT = 0x40"

definition PIT_MAX_DIV :: u32 where "PIT_MAX_DIV = 1193180"

definition SCHED_ENABLED :: bool where "SCHED_ENABLED = False"

definition calc_divider :: "u32 \<Rightarrow> u32" where
  "calc_divider msec = PIT_MAX_DIV div msec"

definition pit_init :: "'a machine_scheme \<Rightarrow> 'a machine_scheme" where
  "pit_init s =
     (let divider = calc_divider 30;
          s = outb 0x36 PIT_CMD_PORT s;
          s = outb (ucast (divider AND 0xFF)) PIT_DATA_PORT s
      in outb (ucast (drop_bit 8 divider)) PIT_DATA_PORT s)"

section \<open>Switching stacks\<close>

text \<open>The stack registers are stored in the control block of the process that is left.\<close>

definition save_sched :: "u32 \<Rightarrow> 'a kernel_scheme \<Rightarrow> 'a kernel_scheme" where
  "save_sched a s = set_pcb a (\<lambda>p. p\<lparr>p_sched_ksp := cpu_esp s, p_sched_kbp := cpu_ebp s\<rparr>) s"

text \<open>The process at \<open>a\<close> of terminal \<open>trm\<close> is continued.\<close>

definition resume_sched :: "u8 \<Rightarrow> u32 \<Rightarrow> 'a kernel_scheme \<Rightarrow> 'a kernel_scheme" where
  "resume_sched trm a s =
     (let s = set_running_proc trm s;
          (_, s) = switch_pd (proc_num (pcbs s a)) (pcb_base (pcbs s a)) s;
          s = s\<lparr>tss_esp0 := esp0_of (ucast (proc_num (pcbs s a)))\<rparr>;
          s = s\<lparr>cpu_esp := p_sched_ksp (pcbs s a)\<rparr>
      in s\<lparr>cpu_ebp := p_sched_kbp (pcbs s a)\<rparr>)"

text \<open>\<^verbatim>\<open>execute("shell")\<close>; its result is ignored.\<close>

definition execute_shell :: "'a kernel_scheme env \<Rightarrow> 'a kernel_scheme \<Rightarrow> (unit, 'a kernel_scheme) flow option" where
  "execute_shell env s =
     map_option (\<lambda>r. case r of Ret _ s \<Rightarrow> Ret () s | Enter_user e s \<Rightarrow> Enter_user e s | Resume_stack s \<Rightarrow> Resume_stack s)
       (execute env (shell_literal env) s)"

text \<open>The first process of a terminal; storing through a NULL control block faults.\<close>

definition start_terminal ::
  "'a kernel_scheme env \<Rightarrow> u8 \<Rightarrow> 'a kernel_scheme \<Rightarrow> (unit, 'a kernel_scheme) flow option" where
  "start_terminal env curr_term s =
     (let prev_pcb = get_pcb (ucast curr_term) s in
      if prev_pcb = 0 then None else execute_shell env (save_sched prev_pcb s))"

definition context_switch ::
  "'a kernel_scheme env \<Rightarrow> u8 \<Rightarrow> u8 \<Rightarrow> 'a kernel_scheme \<Rightarrow> (unit, 'a kernel_scheme) flow option" where
  "context_switch env curr_proc_term_num next_proc_term_num s =
     (if SCHED_ENABLED then Some (Ret () s)
      else if next_proc_term_num = 1 \<and> get_second_term_start s = 0 then
        start_terminal env curr_proc_term_num (set_second_term_start (set_running_proc 1 s))
      else if next_proc_term_num = 2 \<and> get_third_term_start s = 0 then
        start_terminal env curr_proc_term_num (set_third_term_start (set_running_proc 2 s))
      else
        let curr = get_pcb (ucast curr_proc_term_num) s; nxt = get_pcb (ucast next_proc_term_num) s
        in if curr = 0 \<or> nxt = 0 then Some (Ret () s)
           else Some (Resume_stack (resume_sched next_proc_term_num nxt (save_sched curr s))))"

definition pit_handle_interrupt ::
  "bool \<Rightarrow> 'a kernel_scheme env \<Rightarrow> 'a kernel_scheme \<Rightarrow> (unit, 'a kernel_scheme) flow option" where
  "pit_handle_interrupt sched_enabled env s =
     (let s = send_eoi 0 s in
      if \<not> sched_enabled \<or> first_prog_run s = 0 then Some (Ret () s)
      else
        let curr_proc_term_num = get_curr_running_term_proc s;
            next_proc_term_num = get_next_running_term_proc s
        in if curr_proc_term_num = next_proc_term_num then Some (Ret () s)
           else
             let curr = get_pcb (ucast curr_proc_term_num) s; nxt = get_pcb (ucast next_proc_term_num) s
             in if curr = 0 then Some (Ret () s)
                else if nxt = 0 then
                  let s = set_active_terminal next_proc_term_num s;
                      s = update_screen next_proc_term_num curr_proc_term_num s;
                      s = set_running_proc next_proc_term_num s
                  in execute_shell env (save_sched (get_pcb (ucast curr_proc_term_num) s) s)
                else Some (Resume_stack (resume_sched next_proc_term_num nxt (save_sched curr s))))"

text \<open>The keyboard handler with the calls it makes.\<close>

definition keyboard_irq :: "'a kernel_scheme env \<Rightarrow> 'a kernel_scheme \<Rightarrow> (unit, 'a kernel_scheme) flow option" where
  "keyboard_irq env s = handle_keypress (halt env) (context_switch env) s"

end
