(* ===== verification/Filecalls.thy ===== *)
theory Filecalls
  imports Syscall
begin

text \<open>
  What the file calls of \<^verbatim>\<open>src/kernel/syscall.c\<close> promise a program: \<^verbatim>\<open>open\<close> hands out the lowest
  free descriptor, reads of it go on where the last one ended, \<^verbatim>\<open>close\<close> gives it back; and what
  the error paths do.
\<close>

section \<open>Opening, reading and closing\<close>

lemma flags_restored [simp]:
  "snd (cli_and_save s) = s\<lparr>int_flag := False\<rparr>" "restore_flags b (s\<lparr>int_flag := c\<rparr>) = s\<lparr>int_flag := b\<rparr>"
  by (simp_all add: cli_and_save_def restore_flags_def)

lemma descriptor_word:
  assumes "i < 8"
  shows "sint (of_nat i :: i32) = int i" and "unat (of_nat i :: i32) = i" and "(of_nat i :: i32) = 1 \<longleftrightarrow> i = 1"
proof -
  have "i \<in> {0, 1, 2, 3, 4, 5, 6, 7}" using assms by auto
  then show "sint (of_nat i :: i32) = int i" and "unat (of_nat i :: i32) = i" and "(of_nat i :: i32) = 1 \<longleftrightarrow> i = 1"
    by auto
qed

lemma find_in: "find P xs = Some i \<Longrightarrow> i \<in> set xs \<and> P i"
  by (auto simp: find_Some_iff)

lemma alloc_fd_bounds: "find (\<lambda>i. fd_flags (fds p i) = 0) [2..<MAX_FILES] = Some i \<Longrightarrow> 2 \<le> i \<and> i < 8"
  by (drule find_in) (auto simp only: set_upt atLeastLessThan_iff MAX_FILES_def)

text \<open>What \<^verbatim>\<open>open\<close> writes to the descriptor.\<close>

definition opened :: "ops_table \<Rightarrow> u32 \<Rightarrow> u8 list \<Rightarrow> file_array \<Rightarrow> file_array" where
  "opened table inode f d = d\<lparr>operations_pointer := Some table, fd_inode := inode, file_position := 0,
     fd_file_name := f @ 0 # drop (Suc (length f)) (fd_file_name d), fd_flags := 1\<rparr>"

lemma cur_pcb_eq: "curr_proc s (running s) \<noteq> 0 \<Longrightarrow> cur_pcb s = Some (pcbs s (curr_proc s (running s)))"
  by (simp add: cur_pcb_def)

lemma running_simps [simp]: "running (s\<lparr>int_flag := b\<rparr>) = running s" "running (s\<lparr>mem := m\<rparr>) = running s"
  "running (set_cur_fd i f s) = running s" "curr_proc (set_cur_fd i f s) = curr_proc s"
  "mem (set_cur_fd i f s) = mem s"
  by (simp_all add: running_def set_cur_fd_def set_pcb_def)

lemma set_cur_fd_comp: "set_cur_fd i f (set_cur_fd i g s) = set_cur_fd i (f \<circ> g) s"
  by (simp add: set_cur_fd_def set_pcb_def set_fd_def running_def)

lemma sys_open_finds:
  fixes s :: "'a kernel_scheme"
  assumes "filename \<noteq> 0" and "cstr (view (mem s) filename) f" "f \<noteq> []" and "directory s names" "dir_find names f 0 = Some k"
    and "dentry_type k s = 1 \<or> dentry_type k s = 2" and "curr_proc s (running s) \<noteq> 0"
    and "p = pcbs s (curr_proc s (running s))" and "\<And>i. i < 8 \<Longrightarrow> length (fd_file_name (fds p i)) = 32" "length f < 32"
  shows "sys_open env filename s =
    (case alloc_fd p of
       None \<Rightarrow> Some (-1, s)
     | Some (i, _) \<Rightarrow> Some (of_nat i, set_cur_fd i (\<lambda>_. opened (if dentry_type k s = 1 then Dir_ops else Files_ops)
         (if dentry_type k s = 1 then 0 else get_inode (dentry_inode k s) s) f (fds p i)) s))"
proof -
  let ?s0 = "s\<lparr>int_flag := False\<rparr>"
  have len: "strlen (view (mem s) filename) = Some (length f)" by (rule strlen_cstr [OF assms(2)])
  have ld: "length (file_name local_dentry) = 32" by (simp add: local_dentry_def)
  have dir0: "directory ?s0 names" using assms(4) by (simp add: directory_def dentry_name_def dentry_addr_def)
  have dent: "read_dentry_by_name (view (mem s) filename) local_dentry ?s0 = Some (0, entry_result f local_dentry ?s0 k)"
    using read_dentry_finds [OF assms(2) dir0 ld] assms(5) by simp
  have er: "file_type (entry_result f local_dentry ?s0 k) = dentry_type k s" "inode_num (entry_result f local_dentry ?s0 k) = dentry_inode k s"
    by (simp_all add: entry_result_def dentry_type_def dentry_inode_def dentry_addr_def)
  have pcb: "cur_pcb ?s0 = Some p" using assms(7,8) by (simp add: cur_pcb_def)
  show ?thesis
  proof (cases "find (\<lambda>i. fd_flags (fds p i) = 0) [2..<MAX_FILES]")
    case None
    then show ?thesis
      using assms(1,3) by (simp add: sys_open_def case_prod_beta Let_def len dent pcb alloc_fd_def)
  next
    case (Some i)
    then have i: "i < 8" using alloc_fd_bounds by blast
    have cp: "strcpy arr_put (fd_file_name (fds p i)) (view (mem s) filename)
        = Some (f @ 0 # drop (Suc (length f)) (fd_file_name (fds p i)))"
      using strcpy_arr [OF assms(2)] assms(9) [OF i] assms(10) by simp
    have inode: "get_inode n ?s0 = get_inode n s" for n by (simp add: get_inode_def)
    have fold: "restore_flags (int_flag s) (set_cur_fd i g ?s0) = set_cur_fd i g s" for g
      by (simp add: set_cur_fd_def set_pcb_def restore_flags_def running_def)
    have slot: "open_slot env filename (entry_result f local_dentry ?s0 k) i ?s0 =
        Some (set_cur_fd i (\<lambda>d. d\<lparr>operations_pointer := Some (if dentry_type k s = 1 then Dir_ops else Files_ops),
          fd_inode := (if dentry_type k s = 1 then 0 else get_inode (dentry_inode k s) s), file_position := 0,
          fd_file_name := f @ 0 # drop (Suc (length f)) (fd_file_name (fds p i))\<rparr>) ?s0)"
      using assms(6) by (auto simp: open_slot_def Let_def er pcb cp inode)
    define G :: "file_array \<Rightarrow> file_array" where "G = (\<lambda>d. d\<lparr>operations_pointer := Some (if dentry_type k s = 1 then Dir_ops else Files_ops),
          fd_inode := (if dentry_type k s = 1 then 0 else get_inode (dentry_inode k s) s), file_position := 0,
          fd_file_name := f @ 0 # drop (Suc (length f)) (fd_file_name (fds p i)), fd_flags := 1\<rparr>)"
    have "sys_open env filename s = Some (of_nat i, set_cur_fd i G s)"
      using Some assms(1,3)
      by (simp add: sys_open_def case_prod_beta Let_def len dent er pcb slot set_cur_fd_comp fold G_def comp_def)
    moreover have "set_cur_fd i G s = set_cur_fd i (\<lambda>_. G (fds p i)) s"
      using assms(8) by (simp add: set_cur_fd_def set_pcb_def set_fd_def)
    ultimately show ?thesis using Some by (simp add: alloc_fd_def opened_def G_def)
  qed
qed


lemma sys_read_dispatch:
  assumes "buf \<noteq> 0" "i < 8" "i \<noteq> 1" "curr_proc s (running s) \<noteq> 0" "fd_flags (fds (pcbs s (curr_proc s (running s))) i) = 1"
  shows "sys_read env (of_nat i) buf nbytes s = call_read env i buf nbytes s"
  using assms descriptor_word [OF assms(2)]
  by (simp add: sys_read_def case_prod_beta Let_def cur_pcb_def)

lemma call_read_file:
  assumes "curr_proc s (running s) \<noteq> 0" and "f = fds (pcbs s (curr_proc s (running s))) i"
    and "operations_pointer f = Some Files_ops"
  shows "call_read env i buf nbytes s =
    map_option (\<lambda>(r, f, s). (r, set_cur_fd i (\<lambda>_. f) s)) (fs_read f buf nbytes s)"
  using assms by (simp add: call_read_def cur_pcb_def Let_def)

lemma sys_close_dispatch:
  assumes "2 \<le> i" "i < 8" "curr_proc s (running s) \<noteq> 0" "fd_flags (fds (pcbs s (curr_proc s (running s))) i) = 1"
  shows "sys_close env (of_nat i) s = call_close env i (set_cur_fd i (\<lambda>f. f\<lparr>fd_flags := 0, file_position := 0\<rparr>) s)"
proof -
  have "restore_flags (int_flag s) (set_cur_fd i g (s\<lparr>int_flag := False\<rparr>)) = set_cur_fd i g s" for g
    by (simp add: set_cur_fd_def set_pcb_def restore_flags_def running_def)
  then show ?thesis
    using assms descriptor_word [OF assms(2)]
    by (simp add: sys_close_def case_prod_beta Let_def cur_pcb_def set_cur_fd_comp comp_def)
qed

text \<open>Closing a descriptor that was just opened.\<close>

lemma pcb_set_cur_fd [simp]:
  "fds (pcbs (set_cur_fd i g s) (curr_proc s (running s))) j =
     (if j = i then g (fds (pcbs s (curr_proc s (running s))) i) else fds (pcbs s (curr_proc s (running s))) j)"
  by (simp add: set_cur_fd_def set_pcb_def set_fd_def)

lemma sys_close_open:
  assumes "2 \<le> i" "i < 8" "curr_proc s (running s) \<noteq> 0" and "operations_pointer d \<in> {Some Dir_ops, Some Files_ops}"
    and "fd_flags d = 1"
  shows "sys_close env (of_nat i) (set_cur_fd i (\<lambda>_. d) s) =
    Some (0, set_cur_fd i (\<lambda>_. d\<lparr>fd_flags := 0, file_position := 0\<rparr>) s)"
  using assms by (auto simp: sys_close_dispatch call_close_def cur_pcb_def set_cur_fd_comp comp_def dir_close_def fs_close_def)

lemma fs_read_frame:
  assumes "fs_read f buf n s = Some (r, f', s')"
  shows "\<exists>m. s' = s\<lparr>mem := m\<rparr>"
proof -
  have "\<exists>m. s = s\<lparr>mem := m\<rparr>" by (rule exI [of _ "mem s"]) simp
  moreover have "\<exists>m. s' = s\<lparr>mem := m\<rparr>" if "read_data i o' b l s = (r, s')" for i o' b l
    using read_data_mem [of i o' b l s] that by auto
  ultimately show ?thesis using assms
    by (auto simp: fs_read_def bind_eq_Some_conv split: if_splits prod.splits)
qed

text \<open>Reads of the file system do not see the control blocks.\<close>

lemma read_loop_pcbs:
  "read_loop n offset buf len k bp cb loc pos (s\<lparr>pcbs := X\<rparr>) = apsnd (pcbs_update (\<lambda>_. X)) (read_loop n offset buf len k bp cb loc pos s)"
proof (induction "unat len - unat k" arbitrary: k bp cb loc pos s)
  case 0
  then have "\<not> k < len" by (simp add: word_less_nat_alt)
  then show ?case by (subst (1 2) read_loop.simps) simp
next
  case (Suc j)
  then have "k < len" by (simp add: word_less_nat_alt)
  then have u: "j = unat len - unat (k + 1)" using Suc.hyps(2) unat_Suc_less [of k len] by (simp add: word_less_nat_alt)
  have p: "poke a v (s\<lparr>pcbs := X\<rparr>) = (poke a v s)\<lparr>pcbs := X\<rparr>" for a v by (simp add: poke_def)
  have f: "inode_size n (s\<lparr>pcbs := X\<rparr>) = inode_size n s" "inode_block n m (s\<lparr>pcbs := X\<rparr>) = inode_block n m s" for s :: "'a kernel_scheme" and m
    by (simp_all add: inode_size_def inode_block_def)
  show ?case by (subst (1 2) read_loop.simps) (simp add: Let_def \<open>k < len\<close> p f Suc.hyps(1) [OF u])
qed

lemma read_data_pcbs:
  "read_data n offset buf len (s\<lparr>pcbs := X\<rparr>) = apsnd (pcbs_update (\<lambda>_. X)) (read_data n offset buf len s)"
  by (simp add: read_data_def Let_def read_loop_pcbs inode_size_def inode_block_def)

lemma read_dentry_pcbs: "read_dentry_by_name v d (s\<lparr>pcbs := X\<rparr>) = read_dentry_by_name v d s"
proof -
  have e: "dentry_name j (s\<lparr>pcbs := X\<rparr>) = dentry_name j s" "dentry_type j (s\<lparr>pcbs := X\<rparr>) = dentry_type j s"
    "dentry_inode j (s\<lparr>pcbs := X\<rparr>) = dentry_inode j s" for j and s :: "'a kernel_scheme"
    by (simp_all add: dentry_name_def dentry_addr_def dentry_type_def dentry_inode_def)
  have "dentry_search v l d (s\<lparr>pcbs := X\<rparr>) i = dentry_search v l d s i" for l i
    by (induction v l d s i rule: dentry_search.induct, subst (1 2) dentry_search.simps)
      (auto simp: e intro!: bind_option_cong)
  then show ?thesis by (simp add: read_dentry_by_name_def)
qed

lemma fs_read_pcbs:
  "fs_read f buf n (s\<lparr>pcbs := X\<rparr>) = map_option (\<lambda>(r, f, s). (r, f, s\<lparr>pcbs := X\<rparr>)) (fs_read f buf n s)"
  by (cases "read_dentry_by_name (arr (fd_file_name f)) local_dentry s")
    (auto simp: fs_read_def read_dentry_pcbs read_data_pcbs case_prod_beta)

lemma fs_read_set_cur_fd:
  assumes "fs_read f buf n s = Some (r, f', s')"
  shows "fs_read f buf n (set_cur_fd i g s) = Some (r, f', set_cur_fd i g s')"
proof -
  obtain m where "s' = s\<lparr>mem := m\<rparr>" using fs_read_frame [OF assms] by blast
  then have w: "set_cur_fd i g s' = s'\<lparr>pcbs := pcbs (set_cur_fd i g s)\<rparr>"
    and u: "set_cur_fd i g s = s\<lparr>pcbs := pcbs (set_cur_fd i g s)\<rparr>"
    by (simp_all add: set_cur_fd_def set_pcb_def running_def)
  show ?thesis
    using assms unfolding w by (subst u) (simp add: fs_read_pcbs)
qed

text \<open>Reading an open file: what \<^verbatim>\<open>fs_read\<close> does to the descriptor is stored in the control block.\<close>

lemma sys_read_open:
  assumes "fs_read f0 buf n s = Some (r, f1, t)" and "2 \<le> i" "i < 8" "curr_proc s (running s) \<noteq> 0" "buf \<noteq> 0"
    and "operations_pointer f0 = Some Files_ops" "fd_flags f0 = 1"
  shows "sys_read env (of_nat i) buf n (set_cur_fd i (\<lambda>_. f0) s) = Some (r, set_cur_fd i (\<lambda>_. f1) t)"
    and "operations_pointer f1 = Some Files_ops \<and> fd_flags f1 = 1 \<and> curr_proc t (running t) \<noteq> 0"
proof -
  let ?s = "set_cur_fd i (\<lambda>_. f0) s"
  have "fds (pcbs ?s (curr_proc ?s (running ?s))) i = f0" using pcb_set_cur_fd [of i "\<lambda>_. f0" s i] by simp
  then have "sys_read env (of_nat i) buf n ?s = call_read env i buf n ?s"
    using assms(2-5,7) by (intro sys_read_dispatch) auto
  also have "\<dots> = Some (r, set_cur_fd i (\<lambda>_. f1) (set_cur_fd i (\<lambda>_. f0) t))"
    using assms(4) fs_read_set_cur_fd [OF assms(1), of i "\<lambda>_. f0"] \<open>fds (pcbs ?s _) i = f0\<close>
    by (subst call_read_file [OF _ refl]) (simp_all add: assms(6))
  finally show "sys_read env (of_nat i) buf n ?s = Some (r, set_cur_fd i (\<lambda>_. f1) t)"
    by (simp add: set_cur_fd_comp comp_def)
  obtain m where "t = s\<lparr>mem := m\<rparr>" using fs_read_frame [OF assms(1)] by blast
  moreover have "operations_pointer f1 = operations_pointer f0 \<and> fd_flags f1 = fd_flags f0"
    using assms(1) by (auto simp: fs_read_def bind_eq_Some_conv split: if_splits prod.splits)
  ultimately show "operations_pointer f1 = Some Files_ops \<and> fd_flags f1 = 1 \<and> curr_proc t (running t) \<noteq> 0"
    using assms(4,6,7) by simp
qed

section \<open>A sample kernel\<close>

text \<open>
  One process runs, in slot 0 at the first terminal. The file system holds the program \<^verbatim>\<open>hi\<close>, 32
  bytes of which the header is that of an executable with entry \<^verbatim>\<open>0x08048020\<close>; \<^verbatim>\<open>0x9000\<close> has the
  command \<^verbatim>\<open>hi x\<close> and \<^verbatim>\<open>0xA000\<close> the name of the file.
\<close>

definition demo_image :: memory where
  "demo_image = (\<lambda>_. 0)(0x1000 := 1, 0x1004 := 1, 0x1008 := 1, 0x1040 := chr CHR ''h'', 0x1041 := chr CHR ''i'',
     0x1060 := 2, 0x2000 := 32, 0x3000 := 0x7F, 0x3001 := 0x45, 0x3002 := 0x4C, 0x3003 := 0x46,
     0x3018 := 0x20, 0x3019 := 0x80, 0x301A := 4, 0x301B := 8,
     0x9000 := chr CHR ''h'', 0x9001 := chr CHR ''i'', 0x9002 := chr CHR '' '', 0x9003 := chr CHR ''x'',
     0xA000 := chr CHR ''h'', 0xA001 := chr CHR ''i'')"

definition demo_fds :: "nat \<Rightarrow> file_array" where
  "demo_fds = (\<lambda>_. \<lparr>operations_pointer = None, fd_inode = 0, file_position = 0, fd_flags = 0, fd_file_name = replicate 32 0\<rparr>)
     (0 := \<lparr>operations_pointer = Some Stdin_ops, fd_inode = 0, file_position = 0, fd_flags = 1, fd_file_name = replicate 32 0\<rparr>,
      1 := \<lparr>operations_pointer = Some Stdout_ops, fd_inode = 0, file_position = 0, fd_flags = 1, fd_file_name = replicate 32 0\<rparr>)"

definition demo_pcb :: pcb where
  "demo_pcb = \<lparr>fds = demo_fds, pcb_args = replicate 64 0, proc_num = 0, pcb_base = ucast (process_frame 0), p_ksp = 0, p_kbp = 0,
     p_sched_ksp = 0, p_sched_kbp = 0, pcb_prev = 0\<rparr>"

definition demo_kernel :: kernel where
  "demo_kernel = kbd.extend (demo_kbd\<lparr>mem := demo_image, window := Some (process_frame 0)\<rparr>)
     \<lparr>curr_proc = (\<lambda>_. 0)(0 := pcb_addr 0), prev_proc = \<lambda>_. 0, curr_proc_id_mask = 0x80, first_program_run = 1, g_status = 0,
      pcbs = \<lambda>_. demo_pcb, tss_esp0 = esp0_of 0, cpu_esp = 0x7FFF00, cpu_ebp = 0x7FFF80, heap_ptr = 0,
      strtok_buf = replicate 32 0\<rparr>"

definition demo_env :: "kernel env" where
  "demo_env = \<lparr>rounding = \<lambda>x. x, irqs = \<lambda>_ s. Some s, f_init_data = 0xC000, temp_arg = 0xB000, shell_literal = 0xA000,
     stale_cmd_len = 0\<rparr>"

lemma demo_kernel_fields [simp]:
  "mem demo_kernel = demo_image" "boot_blk demo_kernel = \<lparr>n_dentries = 1, n_inodes = 1, n_data_blocks = 1\<rparr>"
  "b_block_addrs demo_kernel = 0x1000" "dentries demo_kernel = 0x1040" "inodes demo_kernel = 0x2000"
  "data_blocks demo_kernel = 0x3000" "curr_active_term demo_kernel = 0" "running demo_kernel = 0"
  "curr_proc demo_kernel = (\<lambda>_. 0)(0 := pcb_addr 0)" "prev_proc demo_kernel = (\<lambda>_. 0)" "curr_proc_id_mask demo_kernel = 0x80"
  "pcbs demo_kernel = (\<lambda>_. demo_pcb)" "heap_ptr demo_kernel = 0" "strtok_buf demo_kernel = replicate 32 0"
  "int_flag demo_kernel" "active_terminal demo_kernel = 0" "window demo_kernel = Some (process_frame 0)"
  by (simp_all add: demo_kernel_def kbd.defs running_def demo_kbd_parts)
    (simp_all add: demo_fs_def fs_init_def Let_def load_boot_block_def load32_def demo_mem_def BOOT_BLOCK_SIZE_def BLOCK_SIZE_def)

lemma demo_kernel_inode [simp]:
  "inode_size 0 demo_kernel = 32" "inode_block 0 0 demo_kernel = 0" "dentry_inode 0 demo_kernel = 0" "dentry_type 0 demo_kernel = 2"
  by (simp_all add: inode_size_def inode_block_def dentry_inode_def dentry_type_def dentry_addr_def load32_def demo_image_def)

lemma demo_kernel_fs: "fs_wf demo_kernel" "inode_ok 0 demo_kernel" "directory demo_kernel [str ''hi'']"
  "cstr (view (mem demo_kernel) 0xA000) (str ''hi'')"
proof -
  have h: "chr CHR ''h'' \<noteq> 0" "chr CHR ''i'' \<noteq> 0" by code_simp+
  show "fs_wf demo_kernel" "inode_ok 0 demo_kernel"
    by (simp_all add: fs_wf_def image_size_def inode_ok_def)
  show "directory demo_kernel [str ''hi'']"
    using h by (simp add: directory_def cstr_def dentry_name_def view_def dentry_addr_def str_def demo_image_def less_Suc_eq)
  show "cstr (view (mem demo_kernel) 0xA000) (str ''hi'')"
    using h by (simp add: cstr_def view_def str_def demo_image_def less_Suc_eq)
qed

lemma demo_kernel_buffer: "n \<le> 4096 \<Longrightarrow> rng 0x8000 n \<inter> image_rng demo_kernel = {}"
  unfolding image_rng_def image_size_def by (subst Int_commute, rule rng_disjoint) simp_all

lemma demo_alloc_fd: "alloc_fd demo_pcb = Some (2, set_fd 2 (\<lambda>f. f\<lparr>fd_flags := 1\<rparr>) demo_pcb)"
  by (simp add: alloc_fd_def MAX_FILES_def demo_pcb_def demo_fds_def upt_rec)

section \<open>Properties\<close>




text \<open>C31: a directory entry whose type is none of the three known ones is opened all the same: its
  descriptor is marked used, keeps the NULL table of operations, and the first \<^verbatim>\<open>read\<close> of it calls
  through a NULL pointer.\<close>

theorem open_unknown_type_faults:
  fixes s :: "'a kernel_scheme"
  assumes "filename \<noteq> 0" and "cstr (view (mem s) filename) f" "f \<noteq> []" and "directory s names"
    and "dir_find names f 0 = Some k" "dentry_type k s \<notin> {0, 1, 2}"
    and "curr_proc s (running s) \<noteq> 0" and p: "p = pcbs s (curr_proc s (running s))"
    and "alloc_fd p = Some (i, p')" and "operations_pointer (fds p i) = None" and "buf \<noteq> 0"
  shows "\<exists>s'. sys_open env filename s = Some (of_nat i, s') \<and> sys_read env (of_nat i) buf n s' = None"
proof -
  let ?s0 = "s\<lparr>int_flag := False\<rparr>"
  have len: "strlen (view (mem s) filename) = Some (length f)" by (rule strlen_cstr [OF assms(2)])
  have dir0: "directory ?s0 names" using assms(4) by (simp add: directory_def dentry_name_def dentry_addr_def)
  have dent: "read_dentry_by_name (view (mem s) filename) local_dentry ?s0 = Some (0, entry_result f local_dentry ?s0 k)"
    using read_dentry_finds [OF assms(2) dir0, of local_dentry] assms(5) by (simp add: local_dentry_def)
  have ty: "file_type (entry_result f local_dentry ?s0 k) \<notin> {0, 1, 2}"
    using assms(6) by (simp add: entry_result_def dentry_type_def dentry_addr_def)
  have fnd: "find (\<lambda>i. fd_flags (fds p i) = 0) [2..<MAX_FILES] = Some i" using assms(9) by (auto simp: alloc_fd_def)
  then have i: "2 \<le> i" "i < 8" using alloc_fd_bounds [of p i] by auto
  define s' where "s' = set_cur_fd i (\<lambda>f. f\<lparr>fd_flags := 1\<rparr>) s"
  have "restore_flags (int_flag s) (set_cur_fd i g ?s0) = set_cur_fd i g s" for g
    by (simp add: set_cur_fd_def set_pcb_def restore_flags_def running_def)
  then have "sys_open env filename s = Some (of_nat i, s')"
    using assms(1,3,7) ty fnd
    by (simp add: sys_open_def case_prod_beta Let_def len dent cur_pcb_eq p [symmetric] open_slot_def s'_def)
  moreover have "fds (pcbs s' (curr_proc s' (running s'))) i = (fds p i)\<lparr>fd_flags := 1\<rparr>"
    unfolding s'_def p by simp
  then have "sys_read env (of_nat i) buf n s' = None"
    using assms(7,10,11) i by (subst sys_read_dispatch) (auto simp: call_read_def cur_pcb_def s'_def)
  ultimately show ?thesis by blast
qed

theorem open_unknown_type_faults_witness:
  "\<exists>s'. sys_open demo_env 0xA000 (demo_kernel\<lparr>mem := demo_image(0x1060 := 3)\<rparr>) = Some (2, s') \<and>
     sys_read demo_env 2 0x8000 4 s' = None"
proof -
  have h: "chr CHR ''h'' \<noteq> 0" "chr CHR ''i'' \<noteq> 0" by code_simp+
  let ?s = "demo_kernel\<lparr>mem := demo_image(0x1060 := 3)\<rparr>"
  have d: "directory ?s [str ''hi'']" "cstr (view (mem ?s) 0xA000) (str ''hi'')"
    using h by (simp_all add: directory_def cstr_def dentry_name_def view_def dentry_addr_def str_def demo_image_def less_Suc_eq)
  have "dentry_type 0 ?s \<notin> {0, 1, 2}" by (simp add: dentry_type_def dentry_addr_def load32_def demo_image_def)
  moreover have "dir_find [str ''hi''] (str ''hi'') 0 = Some 0" by (simp add: dir_find_def)
  moreover have "operations_pointer (fds demo_pcb 2) = None" by (simp add: demo_pcb_def demo_fds_def)
  moreover have "pcb_addr 0 \<noteq> 0" by (simp add: pcb_addr_def)
  ultimately show ?thesis
    using open_unknown_type_faults [OF _ d(2) _ d(1), of 0 demo_pcb 2 "set_fd 2 (\<lambda>f. f\<lparr>fd_flags := 1\<rparr>) demo_pcb"
        "0x8000" demo_env 4] demo_alloc_fd
    by (simp add: str_def)
qed

text \<open>
  The heap of \<^verbatim>\<open>sbrk\<close> starts at the end of the kernel's image, which is linked above 4 MB, and may
  grow up to 1 MB: no request ever succeeds.
\<close>

lemma sint_low: "0 \<le> sint (w :: u32) \<Longrightarrow> unat w < 2 ^ 31"
proof -
  assume "0 \<le> sint w"
  then have b: "\<not> bit (uint w) 31" by (simp add: sint_uint)
  have "uint w = take_bit (Suc 31) (uint w)"
    using take_bit_int_eq_self_iff [of 32 "uint w"] unsigned_less [of w, where 'a = int] by simp
  also have "\<dots> = take_bit 31 (uint w)" by (subst take_bit_Suc_from_most) (simp add: b)
  finally have "uint w < 2 ^ 31" by (metis take_bit_int_less_exp)
  then show ?thesis unfolding unat_eq_nat_uint by (subst nat_less_iff) (simp_all only: uint_ge_0 of_nat_power of_nat_numeral)
qed

lemma sbrk_out_of_memory:
  assumes "heap_ptr s = 0 \<or> heap_ptr s = e" and "0x100000 < e" "e \<le> 0x80000000"
  shows "sbrk e nbytes s = (-1, s\<lparr>heap_ptr := e\<rparr>)"
proof -
  have "\<not> 0 \<le> sint (0x100000 - e)"
  proof
    assume "0 \<le> sint (0x100000 - e)"
    moreover define w where "w = 0x100000 - e"
    ultimately have "unat w < 2 ^ 31" by (blast intro: sint_low)
    moreover have b: "unat e \<le> 2147483648" "1048576 < unat e"
      using assms(2,3) by (simp_all add: word_le_nat_alt word_less_nat_alt)
    ultimately have "unat w + unat e < 2 ^ LENGTH(32)" by simp
    then have "unat (w + e) = unat w + unat e" by (rule iffD1 [OF unat_add_lem])
    moreover have "w + e = 0x100000" by (simp add: w_def)
    ultimately show False using b by simp
  qed
  then show ?thesis using assms(1) by (auto simp: sbrk_def Let_def)
qed

end
