(* ===== verification/Loader.thy ===== *)
theory Loader
  imports Process Filecalls
begin

text \<open>
  That \<^verbatim>\<open>execute\<close> starts the program its command names: the argument string, the image in memory,
  the entry point, the descriptors and the registers of the new process.
\<close>

section \<open>The command line\<close>

lemma cstr_no_NUL: "cstr v xs \<Longrightarrow> 0 \<notin> set xs"
  by (auto simp: cstr_def in_set_conv_nth)

lemma split_command_word:
  assumes "cstr (view (mem s) c) (w @ chr CHR '' '' # args)" and "chr CHR '' '' \<notin> set w" "length w \<le> 32"
  shows "k \<le> length w \<Longrightarrow> split_command c ta (of_nat k) False cl s =
    split_command c ta (of_nat (Suc (length w))) True (of_nat (length w)) s"
proof (induction "length w - k" arbitrary: k)
  case 0
  then have k: "k = length w" by simp
  have c: "mem s (c + of_nat k) = chr CHR '' ''"
    using cstr_nth [OF assms(1), of k] k by (simp add: view_def)
  have "chr CHR '' '' \<noteq> 0" by code_simp
  moreover have "(ucast (of_nat k :: u32) :: u8) = of_nat k"
    by (rule bit_word_eqI) (simp add: bit_simps)
  ultimately show ?case using k c by (subst split_command.simps) (simp add: Let_def add.commute)
next
  case (Suc n)
  then have k: "k < length w" by simp
  then have "cstr (view (mem s) c) (w @ chr CHR '' '' # args)" "(w @ chr CHR '' '' # args) ! k = w ! k"
    using assms(1) by (simp_all add: nth_append)
  then have c: "mem s (c + of_nat k) = w ! k" "w ! k \<noteq> 0"
    using k by (auto simp: cstr_def view_def)
  have "w ! k \<noteq> chr CHR '' ''" using assms(2) k nth_mem by metis
  moreover have "\<not> of_nat k \<ge> (32 :: u32)"
    using k assms(3) by (simp add: word_le_nat_alt)
  ultimately show ?case
    using c Suc.hyps(1) [of "Suc k"] Suc.hyps(2) by (subst split_command.simps) (simp add: Let_def add.commute)
qed

lemma split_command_args:
  assumes "cstr (view (mem s) c) (w @ chr CHR '' '' # args)" and "length w \<le> 32"
    and "length w + length args + 2 \<le> 4294967296"
    and "rng ta (length args) \<inter> rng c (length w + length args + 2) = {}"
  shows "j \<le> length args \<Longrightarrow>
    split_command c ta (of_nat (Suc (length w) + j)) True (of_nat (length w)) (s\<lparr>mem := store_bytes (mem s) ta (take j args)\<rparr>) =
    Some (Some (of_nat (Suc (length w) + length args), of_nat (length w), s\<lparr>mem := store_bytes (mem s) ta args\<rparr>))"
proof (induction "length args - j" arbitrary: j)
  case 0
  then have j: "j = length args" by simp
  let ?k = "Suc (length w) + j"
  have "c + of_nat ?k \<notin> rng ta (length args)"
    using assms(3,4) j nth_in_rng [of ?k "length w + length args + 2" c] by auto
  then have "store_bytes (mem s) ta (take j args) (c + of_nat ?k) = 0"
    using assms(1,3) j by (subst store_bytes_outside) (auto simp: cstr_def view_def)
  then show ?case using j by (subst split_command.simps) (simp add: Let_def)
next
  case (Suc n)
  then have j: "j < length args" by simp
  let ?k = "Suc (length w) + j" and ?m = "store_bytes (mem s) ta (take j args)"
  have "c + of_nat ?k \<notin> rng ta (length args)"
    using assms(3,4) j nth_in_rng [of ?k "length w + length args + 2" c] by auto
  then have "?m (c + of_nat ?k) = mem s (c + of_nat ?k)"
    using assms(3) j by (intro store_bytes_outside) auto
  then have c: "?m (c + of_nat ?k) = args ! j" "args ! j \<noteq> 0"
    using assms(1) j by (auto simp: cstr_def view_def nth_append dest!: spec [of _ ?k])
  have u: "(ucast (of_nat (length w) :: u8) :: u32) = of_nat (length w)"
    using assms(2) by (simp add: unsigned_of_nat take_bit_nat_eq_self)
  have "poke (ta + (of_nat ?k - of_nat (length w) - 1)) (args ! j) (s\<lparr>mem := ?m\<rparr>) =
      s\<lparr>mem := store_bytes (mem s) ta (take (Suc j) args)\<rparr>"
    using j by (simp add: poke_def take_Suc_conv_app_nth store_bytes_append)
  then show ?case
    using c j Suc.hyps(1) [of "Suc j"] Suc.hyps(2)
    by (subst split_command.simps) (simp add: Let_def u add_ac)
qed

section \<open>Files are not changed\<close>

text \<open>Two states with the same image of the file system, at the same place.\<close>

definition same_files :: "'a fs_scheme \<Rightarrow> 'a fs_scheme \<Rightarrow> bool" where
  "same_files s s' \<longleftrightarrow> boot_blk s' = boot_blk s \<and> b_block_addrs s' = b_block_addrs s \<and> dentries s' = dentries s
     \<and> inodes s' = inodes s \<and> data_blocks s' = data_blocks s \<and> image_same s (mem s')"

lemma same_files_trans: "same_files s s' \<Longrightarrow> same_files s' s'' \<Longrightarrow> same_files s s''"
  by (auto simp: same_files_def image_same_def image_rng_def image_size_def)

lemma same_files_store:
  assumes "length bs \<le> 4294967296" and "rng a (length bs) \<inter> image_rng s = {}"
  shows "same_files s (s\<lparr>mem := store_bytes (mem s) a bs\<rparr>)"
proof -
  have "store_bytes (mem s) a bs x = mem s x" if "x \<in> image_rng s" for x
    using that assms by (intro store_bytes_outside) blast+
  then show ?thesis by (simp add: same_files_def image_same_def)
qed

lemma same_files_keeps:
  assumes "same_files s s'" and "fs_wf s"
  shows "fs_wf s'" and "image_rng s' = image_rng s"
    and "directory s names \<Longrightarrow> directory s' names"
    and "i < unat (n_dentries (boot_blk s)) \<Longrightarrow> dentry_inode i s' = dentry_inode i s"
    and "inode_ok n s \<Longrightarrow> inode_ok n s'" and "inode_ok n s \<Longrightarrow> inode_size n s' = inode_size n s"
    and "inode_ok n s \<Longrightarrow> off + k \<le> unat (inode_size n s) + 1 \<Longrightarrow> file_slice s' n off k = file_slice s n off k"
proof -
  let ?t = "s\<lparr>mem := mem s'\<rparr>"
  have m: "image_same s (mem s')" using assms(1) by (simp add: same_files_def)
  note f = assms(1) [unfolded same_files_def]
  show "fs_wf s'" "image_rng s' = image_rng s"
    using assms(2) f by (simp_all add: fs_wf_def image_size_def image_rng_def)
  show "directory s names \<Longrightarrow> directory s' names"
    using directory_same [OF assms(2) _ m, of names] f by (simp add: directory_def dentry_name_def dentry_addr_def)
  show "i < unat (n_dentries (boot_blk s)) \<Longrightarrow> dentry_inode i s' = dentry_inode i s"
    using dentry_inode_same [OF assms(2) _ m, of i] f by (simp add: dentry_inode_def dentry_addr_def)
  have e: "inode_size n s' = inode_size n ?t" "inode_block n b s' = inode_block n b ?t" for b
    using f by (simp_all add: inode_size_def inode_block_def)
  show "inode_ok n s \<Longrightarrow> inode_ok n s'"
    using inode_ok_same [OF assms(2) _ m, of n] f e by (simp add: inode_ok_def)
  show "inode_ok n s \<Longrightarrow> inode_size n s' = inode_size n s"
    using inode_size_same [OF assms(2) _ m, of n] e by (simp add: inode_ok_def)
  assume n: "inode_ok n s" "off + k \<le> unat (inode_size n s) + 1"
  have "file_byte s' n j = file_byte ?t n j" for j
    using f e by (simp add: file_byte_def)
  then have "file_byte s' n (off + j) = file_byte s n (off + j)" if "j < k" for j
    using file_byte_image [OF assms(2) n(1) m, of "off + j"] n(2) that by simp
  then show "file_slice s' n off k = file_slice s n off k" by (simp add: file_slice_def)
qed

section \<open>Executable files\<close>

text \<open>File \<open>w\<close> has inode \<open>n\<close> and is an executable with the given entry point: an ELF header with it at offset 24.\<close>

definition runnable :: "'a fs_scheme \<Rightarrow> u8 list list \<Rightarrow> u8 list \<Rightarrow> u32 \<Rightarrow> u32 \<Rightarrow> bool" where
  "runnable s names w n entry \<longleftrightarrow> fs_wf s \<and> directory s names \<and> map_option (\<lambda>k. dentry_inode k s) (dir_find names w 0) = Some n
     \<and> inode_ok n s \<and> 32 \<le> unat (inode_size n s) \<and> file_slice s n 0 4 = [0x7F, 0x45, 0x4C, 0x46]
     \<and> load32 (\<lambda>a. file_slice s n 0 32 ! unat a) 24 = entry"

lemma runnable_same:
  assumes "runnable s names w n entry" and "same_files s s'"
  shows "runnable s' names w n entry"
proof -
  have wf: "fs_wf s" "inode_ok n s" "32 \<le> unat (inode_size n s)" using assms(1) by (simp_all add: runnable_def)
  obtain k where k: "dir_find names w 0 = Some k" "dentry_inode k s = n" using assms(1) by (auto simp: runnable_def)
  have "k < unat (n_dentries (boot_blk s))"
    using k(1) assms(1) by (auto simp: runnable_def dir_find_def directory_def find_Some_iff)
  note same_files_keeps [OF assms(2) wf(1)]
  note this(1) this(3) [of names] this(4) [OF \<open>k < _\<close>] this(5,6) [OF wf(2)] this(7) [OF wf(2), of 0 4] this(7) [OF wf(2), of 0 32]
  then show ?thesis using assms(1) wf k by (simp add: runnable_def)
qed

lemma entrypoint_load: "entrypoint h s = load32 (mem s) (h + 24)"
proof -
  have b: "\<not> bit (x :: u8) n" if "8 \<le> n" for x n using that bit_imp_le_length [of x n] by auto
  define p q r :: u32 where "p = push_bit 24 (ucast (mem s (h + 27)))" and "q = push_bit 16 (ucast (mem s (h + 26)))"
    and "r = push_bit 8 (ucast (mem s (h + 25)))"
  have pq: "p + q = p OR q" unfolding p_def q_def by (rule disjunctive_add) (auto simp: bit_simps b)
  have pqr: "(p OR q) + r = (p OR q) OR r" unfolding p_def q_def r_def by (rule disjunctive_add) (auto simp: bit_simps b)
  have "((p OR q) OR r) + ucast (mem s (h + 24)) = ((p OR q) OR r) OR ucast (mem s (h + 24))"
    unfolding p_def q_def r_def by (rule disjunctive_add) (auto simp: bit_simps b)
  then show ?thesis
    unfolding entrypoint_def load32_def Let_def p_def [symmetric] q_def [symmetric] r_def [symmetric]
    by (simp add: p_def [symmetric] q_def [symmetric] r_def [symmetric] pq pqr add.assoc or.assoc [symmetric])
       (simp add: or.commute or.left_commute p_def q_def r_def)
qed

lemma read_header_runnable:
  assumes "runnable s names w n entry" and "cstr f_name w" and "rng (f_init_data env) 32 \<inter> image_rng s = {}"
  defines "t \<equiv> s\<lparr>mem := store_bytes (mem s) (f_init_data env) (file_slice s n 0 32)\<rparr>"
  shows "read_header env f_name s = Some (32, t)" and "magic_ok (f_init_data env) t"
    and "entrypoint (f_init_data env) t = entry" and "same_files s t"
proof -
  let ?h = "f_init_data env" and ?bs = "file_slice s n 0 32"
  obtain k where k: "dir_find names w 0 = Some k" "dentry_inode k s = n" using assms(1) by (auto simp: runnable_def)
  have wf: "fs_wf s" "directory s names" "inode_ok n s" "32 \<le> unat (inode_size n s)" using assms(1) by (simp_all add: runnable_def)
  have "length w \<le> 31" using k(1) wf(2) by (auto simp: dir_find_def directory_def find_Some_iff)
  then have "strcpy arr_put (replicate 32 0) f_name = Some (w @ 0 # drop (Suc (length w)) (replicate 32 0))"
    using strcpy_arr [OF assms(2)] by simp
  moreover have "cstr (arr (w @ 0 # drop (Suc (length w)) (replicate 32 0))) w"
    using assms(2) by (intro cstr_arr) (rule cstr_no_NUL)
  moreover have "read_data n 0 ?h 32 s = (32, t)"
    using read_data_exact [OF wf(1,3), of 0 32 ?h] wf(4) assms(3) by (simp add: t_def)
  ultimately show "read_header env f_name s = Some (32, t)"
    using wf(2) k by (simp add: read_header_def exec_read_def fs_read_known)
  have at: "mem t (?h + of_nat j) = ?bs ! j" if "j < 32" for j
    using that by (simp add: t_def store_bytes_nth)
  have "take 4 ?bs = file_slice s n 0 4" by (rule nth_equalityI) (simp_all add: nth_file_slice)
  then have "take 4 ?bs = [0x7F, 0x45, 0x4C, 0x46]" using assms(1) by (simp add: runnable_def)
  then have "?bs ! 0 = 0x7F" "?bs ! 1 = 0x45" "?bs ! 2 = 0x4C" "?bs ! 3 = 0x46"
    using nth_take [of 0 4 ?bs] nth_take [of 1 4 ?bs] nth_take [of 2 4 ?bs] nth_take [of 3 4 ?bs] by simp_all
  then show "magic_ok ?h t" using at [of 0] at [of 1] at [of 2] at [of 3] by (simp add: magic_ok_def)
  show "entrypoint ?h t = entry"
    using at [of 24] at [of 25] at [of 26] at [of 27] assms(1) by (simp add: entrypoint_load load32_def runnable_def add.assoc)
  show "same_files s t" unfolding t_def by (rule same_files_store) (simp_all add: assms(3))
qed

section \<open>The new process\<close>

lemma cstr_cong: "cstr v xs \<Longrightarrow> (\<And>i. i \<le> length xs \<Longrightarrow> v' i = v i) \<Longrightarrow> cstr v' xs"
  by (auto simp: cstr_def)

lemma cstr_region:
  assumes "cstr (view m a) xs" and "\<And>y. y \<in> rng a (length xs + 1) \<Longrightarrow> m' y = m y" and "length xs < 4294967295"
  shows "cstr (view m' a) xs"
proof (rule cstr_cong [OF assms(1)])
  fix j assume "j \<le> length xs"
  then have "a + of_nat j \<in> rng a (length xs + 1)" using assms(3) by (intro nth_in_rng) simp_all
  then show "view m' a j = view m a j" by (simp only: view_def assms(2))
qed

text \<open>Only the terminal is open.\<close>

definition std_open :: "pcb \<Rightarrow> bool" where
  "std_open p \<longleftrightarrow> (\<forall>j<8. fd_flags (fds p j) = (if j < 2 then 1 else 0) \<and> operations_pointer (fds p j) =
     (if j = 0 then Some Stdin_ops else if j = 1 then Some Stdout_ops else None) \<and> file_position (fds p j) = 0)"

lemma open_std_opens: "std_open (open_std p)"
proof -
  have "j \<in> {0, 1, 2, 3, 4, 5, 6, 7}" if "j < 8" for j :: nat using that by auto
  then show ?thesis by (auto simp: std_open_def open_std_def Let_def set_fd_def upt_rec)
qed

lemma open_std_keeps [simp]:
  "pcb_args (open_std p) = pcb_args p" "p_ksp (open_std p) = p_ksp p" "p_kbp (open_std p) = p_kbp p"
proof -
  have "pcb_args (fold (\<lambda>i. set_fd i (g i)) is p) = pcb_args p \<and> p_ksp (fold (\<lambda>i. set_fd i (g i)) is p) = p_ksp p
      \<and> p_kbp (fold (\<lambda>i. set_fd i (g i)) is p) = p_kbp p" for g "is"
    by (induction "is" arbitrary: p) (simp_all add: set_fd_def)
  from this [of "\<lambda>_ f. f\<lparr>operations_pointer := None, fd_inode := 0, file_position := 0, fd_flags := 0\<rparr>" "[0..<8]"]
  show "pcb_args (open_std p) = pcb_args p" "p_ksp (open_std p) = p_ksp p" "p_kbp (open_std p) = p_kbp p"
    by (simp_all add: open_std_def Let_def) (simp_all add: set_fd_def)
qed

lemma program_in_window:
  assumes "j < 0x3B8000"
  shows "in_window (PROGRAM_EXEC_ADDR + of_nat j)"
proof -
  have "PROGRAM_EXEC_ADDR + of_nat j - user_base = of_nat (0x48000 + j)"
    by (simp add: PROGRAM_EXEC_ADDR_def user_base_def)
  then show ?thesis using assms unfolding in_window_def by (subst \<open>_ = of_nat _\<close>, subst unat_of_nat32) simp_all
qed

text \<open>What \<^verbatim>\<open>execute\<close> promises of the state it enters the program in.\<close>

definition started :: "nat \<Rightarrow> u32 \<Rightarrow> u8 list \<Rightarrow> 'a kernel_scheme \<Rightarrow> 'a kernel_scheme \<Rightarrow> bool" where
  "started i n args s s' \<longleftrightarrow> (let a = pcb_addr (of_nat i) in
     load_bytes (mem s') PROGRAM_EXEC_ADDR (unat (inode_size n s)) = file_slice s n 0 (unat (inode_size n s))
   \<and> curr_proc s' (running s') = a \<and> running s' = running s \<and> cstr (arr (pcb_args (pcbs s' a))) args \<and> std_open (pcbs s' a)
   \<and> window s' = Some (process_frame (of_nat i)) \<and> tss_esp0 s' = esp0_of (of_nat i) \<and> int_flag s'
   \<and> p_ksp (pcbs s' a) = cpu_esp s \<and> p_kbp (pcbs s' a) = cpu_ebp s
   \<and> (\<forall>f b. in_window b \<longrightarrow> frames s' f (b - user_base) = saved_frames s f (b - user_base)))"

lemma start_process_starts:
  assumes run: "runnable s names w n entry" and "cstr f_name w" and "i < 7"
    and out: "\<And>a. a \<in> image_rng s \<Longrightarrow> \<not> in_window a" and size: "unat (inode_size n s) \<le> 0x3B8000"
    and "cstr (view (mem s) (temp_arg env)) args" and arg: "\<And>j. j \<le> length args \<Longrightarrow> \<not> in_window (temp_arg env + of_nat j)"
    and "length args < length (pcb_args (pcbs s (pcb_addr (of_nat i))))"
  shows "\<exists>s'. start_process env f_name entry (of_nat i) flags s = Some (Enter_user entry s') \<and> started i n args s s'"
proof -
  let ?a = "pcb_addr (of_nat i)" and ?z = "unat (inode_size n s)"
  define s1 where "s1 = install_frame (process_frame (of_nat i)) s"
  have f1: "boot_blk s1 = boot_blk s" "b_block_addrs s1 = b_block_addrs s" "dentries s1 = dentries s" "inodes s1 = inodes s"
    "data_blocks s1 = data_blocks s" "pcbs s1 = pcbs s" "cpu_esp s1 = cpu_esp s" "cpu_ebp s1 = cpu_ebp s" "curr_proc s1 = curr_proc s"
    "curr_active_term s1 = curr_active_term s"
    by (simp_all add: s1_def install_frame_def load_cr3_def set_pde_def Let_def)
  have m1: "mem s1 a = mem s a" if "\<not> in_window a" for a using that by (simp add: s1_def)
  have "same_files s s1" using f1 m1 out by (simp add: same_files_def image_same_def)
  from runnable_same [OF run this] have run1: "runnable s1 names w n entry" .
  have wf: "fs_wf s" "inode_ok n s" using run by (simp_all add: runnable_def)
  note k = same_files_keeps [OF \<open>same_files s s1\<close> wf(1)]
  obtain d where d: "dir_find names w 0 = Some d" "dentry_inode d s1 = n" using run1 by (auto simp: runnable_def)
  have z: "inode_size n s1 = inode_size n s" "file_slice s1 n 0 ?z = file_slice s n 0 ?z"
    using k(6,7) [OF wf(2)] by auto
  have "rng PROGRAM_EXEC_ADDR ?z \<inter> image_rng s1 = {}"
  proof -
    have "in_window x" if "x \<in> rng PROGRAM_EXEC_ADDR ?z" for x
      using rng_nth [OF that] size program_in_window by auto
    then show ?thesis using out k(2) by blast
  qed
  then have cp: "copy_file_to_addr f_name PROGRAM_EXEC_ADDR s1 =
      Some (0, s1\<lparr>mem := store_bytes (mem s1) PROGRAM_EXEC_ADDR (file_slice s n 0 ?z)\<rparr>)"
    using copy_file_copies [OF _ assms(2), of s1 names d PROGRAM_EXEC_ADDR] run1 d z by (simp add: runnable_def)
  define m where "m = store_bytes (mem s1) PROGRAM_EXEC_ADDR (file_slice s n 0 ?z)"
  have m: "m a = mem s a" if "\<not> in_window a" for a
  proof -
    have "a \<notin> rng PROGRAM_EXEC_ADDR ?z"
      using that rng_nth [of a PROGRAM_EXEC_ADDR ?z] size program_in_window by auto
    then show ?thesis using size m1 [OF that] by (simp add: m_def store_bytes_outside del: in_rng)
  qed
  have args: "cstr (view m (temp_arg env)) args"
    by (rule cstr_cong [OF assms(6)]) (simp add: view_def m arg)
  define argv where "argv = args @ 0 # drop (Suc (length args)) (pcb_args (pcbs s ?a))"
  have sc: "strcpy arr_put (pcb_args (pcbs s ?a)) (view m (temp_arg env)) = Some argv"
    using strcpy_arr [OF args] assms(8) by (simp add: argv_def)
  have av: "cstr (arr argv) args"
    unfolding argv_def using args by (intro cstr_arr) (rule cstr_no_NUL)
  have "load_bytes m PROGRAM_EXEC_ADDR ?z = file_slice s n 0 ?z"
    using size by (simp add: m_def load_store_bytes)
  then show ?thesis
    using av open_std_opens
    by (simp add: start_process_def init_new_process_eq s1_def [symmetric] Let_def cp m_def [symmetric] set_pcb_def f1 sc
        jmp_usr_exec_def started_def running_def restore_flags_def cli_def sti_def) (simp add: s1_def std_open_def)
qed

section \<open>execute\<close>

text \<open>
  The places of the code's local arrays: they overlap neither each other nor the command nor
  the file system, and the user window shows none of them.
\<close>

definition exec_layout :: "'a kernel_scheme env \<Rightarrow> u32 \<Rightarrow> nat \<Rightarrow> nat \<Rightarrow> 'a kernel_scheme \<Rightarrow> bool" where
  "exec_layout env command l k s \<longleftrightarrow>
     rng (temp_arg env) (k + 1) \<inter> (rng command (l + 1) \<union> image_rng s \<union> rng (f_init_data env) 32) = {} \<and>
     rng (f_init_data env) 32 \<inter> image_rng s = {} \<and> Collect in_window \<inter> (image_rng s \<union> rng (temp_arg env) (k + 1) \<union> rng (f_init_data env) 32) = {}"

lemma find_slot_of_next:
  assumes "procs s st" and "next_slot st = Some i"
  shows "\<exists>tm. find_slot 0 PROGRAM_LOCATION_MASK (curr_proc_id_mask s) = Some (i, tm)"
proof (cases "find_slot 0 PROGRAM_LOCATION_MASK (curr_proc_id_mask s)")
  case None
  then show ?thesis using no_slot_next [OF assms(1)] assms(2) by simp
next
  case (Some p)
  then show ?thesis using find_slot_next(1) [OF assms(1)] assms(2) by (cases p) auto
qed

lemma started_cong:
  assumes "started i n args t s'" and "same_files s t" "fs_wf s" "inode_ok n s"
    and "running t = running s" "cpu_esp t = cpu_esp s" "cpu_ebp t = cpu_ebp s" "frames t = frames s" "window t = window s"
    and m: "\<And>b. in_window b \<Longrightarrow> mem t b = mem s b"
  shows "started i n args s s'"
proof -
  have "saved_frames t f (b - user_base) = saved_frames s f (b - user_base)" if "in_window b" for f b
    using m [OF that] assms(8,9) by (simp add: saved_frames_def split: option.split)
  then show ?thesis using assms(1,5-7) same_files_keeps(6,7) [OF assms(2,3,4)] by (simp add: started_def)
qed

lemma store_outside_window:
  assumes "Collect in_window \<inter> rng a (length bs) = {}" and "in_window b" and "length bs \<le> 4294967296"
  shows "store_bytes m a bs b = m b"
  using assms by (intro store_bytes_outside) blast+

lemma run_file_starts:
  assumes run: "runnable s names w n entry" and "cstr f_name w" and inv: "procs s st" "next_slot st = Some i"
    and "rng (f_init_data env) 32 \<inter> image_rng s = {}" and out: "\<And>a. a \<in> image_rng s \<Longrightarrow> \<not> in_window a"
    and size: "unat (inode_size n s) \<le> 0x3B8000"
    and arg: "cstr (view (mem s) (temp_arg env)) args" "rng (temp_arg env) (length args + 1) \<inter> rng (f_init_data env) 32 = {}"
    and "\<And>j. j \<le> length args \<Longrightarrow> \<not> in_window (temp_arg env + of_nat j)"
    and "length args < length (pcb_args (pcbs s (pcb_addr (of_nat i))))" "length args < 4294967295"
    and h_out: "Collect in_window \<inter> rng (f_init_data env) 32 = {}"
  shows "\<exists>s'. run_file env f_name flags s = Some (Enter_user entry s') \<and> started i n args s s'"
proof -
  define t where "t = s\<lparr>mem := store_bytes (mem s) (f_init_data env) (file_slice s n 0 32)\<rparr>"
  note h = read_header_runnable [OF run assms(2,5), folded t_def]
  have wf: "fs_wf s" "inode_ok n s" using run by (simp_all add: runnable_def)
  obtain tm where tm: "find_slot 0 PROGRAM_LOCATION_MASK (curr_proc_id_mask s) = Some (i, tm)"
    using find_slot_of_next [OF inv] by blast
  define u where "u = t\<lparr>curr_proc_id_mask := curr_proc_id_mask s OR ucast tm\<rparr>"
  have "same_files t u" by (simp add: u_def same_files_def image_same_def)
  then have su: "same_files s u" using h(4) same_files_trans by blast
  note keep = same_files_keeps [OF su wf(1)]
  have "cstr (view (mem u) (temp_arg env)) args"
  proof (rule cstr_cong [OF arg(1)])
    fix j assume "j \<le> length args"
    then have "temp_arg env + of_nat j \<in> rng (temp_arg env) (length args + 1)"
      using assms(12) by (intro nth_in_rng) simp_all
    then have "temp_arg env + of_nat j \<notin> rng (f_init_data env) 32" using arg(2) by blast
    then show "view (mem u) (temp_arg env) j = view (mem s) (temp_arg env) j"
      by (simp add: u_def t_def view_def store_bytes_outside del: in_rng)
  qed
  moreover have "pcbs u = pcbs s" "running u = running s" "cpu_esp u = cpu_esp s" "cpu_ebp u = cpu_ebp s"
    by (simp_all add: u_def t_def running_def)
  ultimately obtain s' where s': "start_process env f_name entry (of_nat i) flags u = Some (Enter_user entry s')"
    "started i n args u s'"
    using start_process_starts [OF runnable_same [OF run su] assms(2) find_slot_next(2) [OF inv(1) tm], of env args flags]
      out size assms(10,11) keep(2) keep(6) [OF wf(2)] by auto
  have "curr_proc_id_mask t = curr_proc_id_mask s" by (simp add: t_def)
  then have "run_file env f_name flags s = Some (Enter_user entry s')"
    using s'(1) by (simp add: run_file_def h(1-3) tm u_def Let_def)
  moreover have "started i n args s s'"
    by (rule started_cong [OF s'(2) su wf]) (simp_all add: u_def t_def running_def store_outside_window h_out)
  ultimately show ?thesis by blast
qed

lemma first_word_blank:
  assumes "chr CHR '' '' \<notin> set w" "10 \<notin> set w"
  shows "first_word (w @ chr CHR '' '' # args) = w"
proof -
  have "takeWhile (\<lambda>c. c \<noteq> chr CHR '' '' \<and> c \<noteq> 10) w = w" using assms by (auto simp: takeWhile_eq_all_conv)
  then show ?thesis unfolding first_word_def by (subst takeWhile_append2) (use assms in auto)
qed

text \<open>The name of the file is the first word of the command.\<close>

lemma run_command_file:
  fixes s :: "'a kernel_scheme" and env :: "'a kernel_scheme env" and k :: u32 and cl :: u8
  defines "s2 \<equiv> poke (temp_arg env + (k - ucast cl - 1)) 0 s"
  assumes cmd: "cstr (view (mem s2) command) c" "first_word c = w" "hd c \<noteq> chr CHR '' ''" "c \<noteq> []"
    and w: "take 5 w \<noteq> str ''clear''" and buf: "length w < length (strtok_buf s2)"
  shows "\<exists>out. run_command env command flags k cl s = run_file env (arr out) flags (s2\<lparr>strtok_buf := out\<rparr>) \<and> cstr (arr out) w"
proof -
  define out where "out = w @ 0 # drop (Suc (length w)) (strtok_buf s2)"
  have wn: "0 \<notin> set w" using cstr_no_NUL [OF cmd(1)] cmd(2) by (auto simp: first_word_def dest: set_takeWhileD)
  have tok: "strtok (view (mem s2) command) (strtok_buf s2) = Some (Some (out, length w))"
    using strtok_first_word [OF cmd(1), of "strtok_buf s2"] cmd(2-4) buf by (auto simp: out_def)
  have cw: "cstr (arr out) w" unfolding out_def using wn by (intro cstr_arr) simp
  have "0 \<notin> set (str ''clear'')" by code_simp
  then have ncl: "strncmp (arr out) (lit ''clear'') 5 \<noteq> 0"
    using strncmp_cstr [OF cw cstr_lit, of "''clear''" 5] w by (simp add: str_def)
  have "run_command env command flags k cl s = run_file env (arr out) flags (s2\<lparr>strtok_buf := out\<rparr>)"
    using tok ncl by (simp add: run_command_def Let_def s2_def [symmetric])
  with cw show ?thesis by blast
qed

lemma run_command_starts:
  fixes s :: "'a kernel_scheme" and env :: "'a kernel_scheme env" and k :: u32 and cl :: u8
  defines "s2 \<equiv> poke (temp_arg env + (k - ucast cl - 1)) 0 s"
  assumes cmd: "cstr (view (mem s2) command) c" "first_word c = w" "hd c \<noteq> chr CHR '' ''" "c \<noteq> []"
    and w: "take 5 w \<noteq> str ''clear''"
    and run: "runnable s2 names w n entry" "unat (inode_size n s2) \<le> 0x3B8000"
    and inv: "procs s2 st" "next_slot st = Some i"
    and lay: "rng (f_init_data env) 32 \<inter> image_rng s2 = {}" "Collect in_window \<inter> image_rng s2 = {}"
      "rng (temp_arg env) (length args + 1) \<inter> rng (f_init_data env) 32 = {}"
      "Collect in_window \<inter> rng (temp_arg env) (length args + 1) = {}" "Collect in_window \<inter> rng (f_init_data env) 32 = {}"
      "length args < 4294967000"
    and args: "cstr (view (mem s2) (temp_arg env)) args"
    and buf: "length w < length (strtok_buf s2)" "length args < length (pcb_args (pcbs s2 (pcb_addr (of_nat i))))"
  shows "\<exists>s'. run_command env command flags k cl s = Some (Enter_user entry s') \<and> started i n args s2 s'"
proof -
  obtain out where out: "run_command env command flags k cl s = run_file env (arr out) flags (s2\<lparr>strtok_buf := out\<rparr>)"
    and cw: "cstr (arr out) w"
    using run_command_file [where s = s and env = env and k = k and cl = cl and flags = flags, folded s2_def, OF cmd w buf(1)] by blast
  define s3 where "s3 = s2\<lparr>strtok_buf := out\<rparr>"
  have sf: "same_files s2 s3" by (simp add: same_files_def image_same_def s3_def)
  have wf: "fs_wf s2" "inode_ok n s2" using run(1) by (simp_all add: runnable_def)
  note keep = same_files_keeps [OF sf wf(1)]
  have s3: "mem s3 = mem s2" "pcbs s3 = pcbs s2" "proc_view s3 = proc_view s2" by (simp_all add: s3_def)
  have "\<not> in_window (temp_arg env + of_nat j)" if "j \<le> length args" for j
  proof -
    have "temp_arg env + of_nat j \<in> rng (temp_arg env) (length args + 1)" using that lay(6) by (intro nth_in_rng) simp_all
    then show ?thesis using lay(4) by blast
  qed
  moreover have "\<not> in_window a" if "a \<in> image_rng s2" for a using lay(2) that by auto
  ultimately obtain s' where s': "run_file env (arr out) flags s3 = Some (Enter_user entry s')" "started i n args s3 s'"
    using run_file_starts [OF runnable_same [OF run(1) sf] cw, of st i env args flags] procs_cong [OF s3(3)] inv args
      lay keep(2) keep(6) [OF wf(2)] run(2) buf(2) by (auto simp: s3)
  have "run_command env command flags k cl s = Some (Enter_user entry s')"
    using out s'(1) by (simp add: s3_def)
  moreover have "started i n args s2 s'"
    by (rule started_cong [OF s'(2) sf wf]) (simp_all add: s3_def running_def)
  ultimately show ?thesis by blast
qed

text \<open>The rest of \<^verbatim>\<open>execute\<close>, from the state in which the arguments are terminated.\<close>

lemma execute_after_split:
  fixes s :: "'a kernel_scheme"
  defines "s0 \<equiv> s\<lparr>int_flag := False\<rparr>"
  assumes split: "split_command command (temp_arg env) 0 False (stale_cmd_len env) s0 = Some (Some (k, cl, s1))"
    and s2: "poke (temp_arg env + (k - ucast cl - 1)) 0 s1 = s0\<lparr>mem := m\<rparr>"
    and cmd: "command \<noteq> 0" "cstr (view (mem s) command) c" "cstr (view m command) c" "first_word c = w"
    and w: "hd c \<noteq> chr CHR '' ''" "c \<noteq> []" "take 5 w \<noteq> str ''clear''"
    and run: "runnable s names w n entry" "unat (inode_size n s) \<le> 0x3B8000"
    and inv: "procs s st" "next_slot st = Some i"
    and img: "\<And>a. a \<in> image_rng s \<Longrightarrow> m a = mem s a" "\<And>a. in_window a \<Longrightarrow> m a = mem s a"
    and lay: "rng (f_init_data env) 32 \<inter> image_rng s = {}" "Collect in_window \<inter> image_rng s = {}"
      "rng (temp_arg env) (length args + 1) \<inter> rng (f_init_data env) 32 = {}"
      "Collect in_window \<inter> rng (temp_arg env) (length args + 1) = {}" "Collect in_window \<inter> rng (f_init_data env) 32 = {}"
      "length args < 4294967000"
    and args: "cstr (view m (temp_arg env)) args"
    and buf: "length w < length (strtok_buf s)" "length args < length (pcb_args (pcbs s (pcb_addr (of_nat i))))"
  shows "\<exists>s'. execute env command s = Some (Enter_user entry s') \<and> started i n args s s'
    \<and> procs s' (push_proc (running s) i st)"
proof -
  define t where "t = s0\<lparr>mem := m\<rparr>"
  have wf: "fs_wf s" "inode_ok n s" using run(1) by (simp_all add: runnable_def)
  have t: "mem t = m" "proc_view t = proc_view s" "pcbs t = pcbs s" "strtok_buf t = strtok_buf s" by (simp_all add: t_def s0_def)
  have sf: "same_files s t" using img(1) by (simp add: same_files_def image_same_def t_def s0_def)
  note keep = same_files_keeps [OF sf wf(1)]
  have "\<exists>s'. run_command env command (int_flag s) k cl s1 = Some (Enter_user entry s') \<and> started i n args t s'"
    by (rule run_command_starts [where s = s1 and env = env and k = k and cl = cl and c = c and w = w and st = st,
          unfolded s2 t_def [symmetric]])
      (use cmd w run inv args lay buf keep(2) keep(6) [OF wf(2)] runnable_same [OF run(1) sf] procs_cong [OF t(2)] in
        \<open>simp_all add: t del: in_rng\<close>)
  then obtain s' where s': "run_command env command (int_flag s) k cl s1 = Some (Enter_user entry s')" "started i n args t s'" by blast
  then have "execute env command s = Some (Enter_user entry s')"
    using cmd(1) w(2) strlen_cstr [OF cmd(2)] split
    by (simp add: execute_def cli_and_save_def Let_def s0_def [symmetric]) (simp add: s0_def)
  moreover have "started i n args s s'"
    by (rule started_cong [OF s'(2) sf wf]) (simp_all add: t_def s0_def running_def img(2))
  moreover have "procs s' (push_proc (running s) i st)"
    using execute_executed [OF inv(1) calculation(1)] inv(2) by (simp add: executed_def)
  ultimately show ?thesis by blast
qed

lemma execute_starts:
  fixes s :: "'a kernel_scheme"
  assumes cmd: "command \<noteq> 0" "cstr (view (mem s) command) (w @ chr CHR '' '' # args)"
    and w: "w \<noteq> []" "chr CHR '' '' \<notin> set w" "10 \<notin> set w" "take 5 w \<noteq> str ''clear''"
    and run: "runnable s names w n entry" "unat (inode_size n s) \<le> 0x3B8000"
    and inv: "procs s st" "next_slot st = Some i"
    and lay: "exec_layout env command (length w + 1 + length args) (length args) s" "length args < 4294967000"
    and buf: "length w < length (strtok_buf s)" "length args < length (pcb_args (pcbs s (pcb_addr (of_nat i))))"
  shows "\<exists>s'. execute env command s = Some (Enter_user entry s') \<and> started i n args s s'
    \<and> procs s' (push_proc (running s) i st)"
proof -
  let ?ta = "temp_arg env" and ?c = "w @ chr CHR '' '' # args" and ?k = "of_nat (length w + 1 + length args) :: u32"
  have lw: "length w \<le> 31" using run(1) by (auto simp: runnable_def dir_find_def directory_def find_Some_iff)
  note l = lay(1) [unfolded exec_layout_def]
  define s0 where "s0 = s\<lparr>int_flag := False\<rparr>"
  define s1 where "s1 = s0\<lparr>mem := store_bytes (mem s) ?ta args\<rparr>"
  define m where "m = store_bytes (mem s) ?ta (args @ [0])"
  have m: "m b = mem s b" if "b \<notin> rng ?ta (length args + 1)" for b
    using that lay(2) by (simp add: m_def store_bytes_outside del: in_rng)
  have split: "split_command command ?ta 0 False (stale_cmd_len env) s0 = Some (Some (?k, of_nat (length w), s1))"
  proof -
    have "rng ?ta (length args) \<subseteq> rng ?ta (length args + 1)" by (rule rng_mono) simp
    then have "rng ?ta (length args) \<inter> rng command (length w + length args + 2) = {}"
      using l by (auto simp: add.commute add.left_commute simp del: in_rng)
    moreover have "s0\<lparr>mem := mem s0\<rparr> = s0" by simp
    ultimately show ?thesis
      using split_command_word [of s0 command w args 0 ?ta "stale_cmd_len env"] cmd(2) w(2) lw lay(2)
        split_command_args [of s0 command w args ?ta 0]
      by (simp add: s0_def [symmetric] s1_def) (simp add: s0_def)
  qed
  have s2: "poke (?ta + (?k - ucast (of_nat (length w) :: u8) - 1)) 0 s1 = s0\<lparr>mem := m\<rparr>"
  proof -
    have "(ucast (of_nat (length w) :: u8) :: u32) = of_nat (length w)"
      using lw by (simp add: unsigned_of_nat take_bit_nat_eq_self)
    then show ?thesis by (simp add: poke_def s1_def m_def store_bytes_append)
  qed
  have cmd2: "cstr (view m command) ?c"
    by (rule cstr_region [OF cmd(2)]) (use l lw lay(2) in \<open>auto intro!: m simp del: in_rng\<close>)
  have args: "cstr (view m ?ta) args"
    using cstr_no_NUL [OF cmd(2)] lay(2)
    by (auto simp: cstr_def view_def m_def store_bytes_nth nth_append in_set_conv_nth)
  have hd: "hd ?c \<noteq> chr CHR '' ''" using w(1,2) by (cases w) auto
  show ?thesis
    by (rule execute_after_split [OF split [unfolded s0_def] s2 [unfolded s0_def] cmd cmd2 first_word_blank [OF w(2,3)] hd _ w(4) run inv])
      (use l lay(2) args buf in \<open>auto simp: Int_Un_distrib intro!: m simp del: in_rng\<close>)
qed

text \<open>A command without arguments leaves \<^verbatim>\<open>cmd_len\<close> as it was.\<close>

lemma split_command_bare:
  assumes "cstr (view (mem s) c) w" and "chr CHR '' '' \<notin> set w" "length w \<le> 32"
  shows "k \<le> length w \<Longrightarrow> split_command c ta (of_nat k) False cl s = Some (Some (of_nat (length w), cl, s))"
proof (induction "length w - k" arbitrary: k)
  case 0
  then have "mem s (c + of_nat k) = 0" using assms(1) by (auto simp: cstr_def view_def)
  then show ?case using 0 by (subst split_command.simps) (simp add: Let_def)
next
  case (Suc n)
  then have k: "k < length w" by simp
  then have c: "mem s (c + of_nat k) = w ! k" "w ! k \<noteq> 0" using assms(1) by (auto simp: cstr_def view_def)
  have "w ! k \<noteq> chr CHR '' ''" using assms(2) k nth_mem by metis
  moreover have "\<not> of_nat k \<ge> (32 :: u32)" using k assms(3) by (simp add: word_le_nat_alt)
  ultimately show ?case
    using c Suc.hyps(1) [of "Suc k"] Suc.hyps(2) by (subst split_command.simps) (simp add: Let_def add.commute)
qed

text \<open>
  The terminating byte of the arguments goes to a place that the uninitialised \<^verbatim>\<open>cmd_len\<close>
  determines, and the arguments are what the array \<^verbatim>\<open>temp_arg\<close> then has.
\<close>

definition stale_end :: "'a kernel_scheme env \<Rightarrow> nat \<Rightarrow> u32" where
  "stale_end env l = temp_arg env + (of_nat l - ucast (stale_cmd_len env) - 1)"

definition bare_layout :: "'a kernel_scheme env \<Rightarrow> u32 \<Rightarrow> nat \<Rightarrow> nat \<Rightarrow> 'a kernel_scheme \<Rightarrow> bool" where
  "bare_layout env command l k s \<longleftrightarrow>
     stale_end env l \<notin> rng command (l + 1) \<union> image_rng s \<union> Collect in_window \<and>
     rng (temp_arg env) (k + 1) \<inter> rng (f_init_data env) 32 = {} \<and>
     rng (f_init_data env) 32 \<inter> image_rng s = {} \<and> Collect in_window \<inter> (image_rng s \<union> rng (temp_arg env) (k + 1) \<union> rng (f_init_data env) 32) = {}"

lemma execute_bare:
  fixes s :: "'a kernel_scheme"
  assumes cmd: "command \<noteq> 0" "cstr (view (mem s) command) w"
    and w: "w \<noteq> []" "chr CHR '' '' \<notin> set w" "10 \<notin> set w" "take 5 w \<noteq> str ''clear''"
    and run: "runnable s names w n entry" "unat (inode_size n s) \<le> 0x3B8000"
    and inv: "procs s st" "next_slot st = Some i"
    and lay: "bare_layout env command (length w) (length args) s" "length args < 4294967000"
    and args: "cstr (view ((mem s)(stale_end env (length w) := 0)) (temp_arg env)) args"
    and buf: "length w < length (strtok_buf s)" "length args < length (pcb_args (pcbs s (pcb_addr (of_nat i))))"
  shows "\<exists>s'. execute env command s = Some (Enter_user entry s') \<and> started i n args s s'
    \<and> procs s' (push_proc (running s) i st)"
proof -
  let ?p = "stale_end env (length w)" and ?s0 = "s\<lparr>int_flag := False\<rparr>"
  have lw: "length w \<le> 31" using run(1) by (auto simp: runnable_def dir_find_def directory_def find_Some_iff)
  note l = lay(1) [unfolded bare_layout_def]
  have split: "split_command command (temp_arg env) 0 False (stale_cmd_len env) ?s0 =
      Some (Some (of_nat (length w), stale_cmd_len env, ?s0))"
    using split_command_bare [of ?s0 command w 0] cmd(2) w(2) lw by simp
  have s2: "poke (temp_arg env + (of_nat (length w) - ucast (stale_cmd_len env) - 1)) 0 ?s0 = ?s0\<lparr>mem := (mem s)(?p := 0)\<rparr>"
    by (simp add: stale_end_def poke_def)
  have m: "((mem s)(?p := 0)) b = mem s b" if "b \<noteq> ?p" for b using that by simp
  have cmd2: "cstr (view ((mem s)(?p := 0)) command) w"
    by (rule cstr_region [OF cmd(2)]) (use l lw in \<open>auto simp del: in_rng\<close>)
  have fw: "first_word w = w" using w(2,3) by (auto simp: first_word_def takeWhile_eq_all_conv)
  have hd: "hd w \<noteq> chr CHR '' ''" using w(1,2) by (cases w) auto
  show ?thesis
    by (rule execute_after_split [OF split s2 cmd cmd2 fw hd w(1,4) run inv])
      (use l lay(2) args buf in \<open>auto simp: Int_Un_distrib simp del: in_rng\<close>)
qed

section \<open>halt returns\<close>

text \<open>The process's open files can be closed.\<close>

definition closable :: "pcb \<Rightarrow> bool" where
  "closable p \<longleftrightarrow> (\<forall>j<8. 2 \<le> j \<longrightarrow> fd_flags (fds p j) = 1 \<longrightarrow>
     operations_pointer (fds p j) \<in> {Some Rtc_ops, Some Dir_ops, Some Files_ops})"

lemma std_open_closable: "std_open p \<Longrightarrow> closable p"
  by (auto simp: std_open_def closable_def)

lemma rtc_close_keeps:
  "frames (snd (rtc_close rnd s)) = frames s" "window (snd (rtc_close rnd s)) = window s" "mem (snd (rtc_close rnd s)) = mem s"
  "pcbs (snd (rtc_close rnd s)) = pcbs s" "curr_proc (snd (rtc_close rnd s)) = curr_proc s"
  "curr_active_term (snd (rtc_close rnd s)) = curr_active_term s" "int_flag (snd (rtc_close rnd s)) = int_flag s"
  by (simp_all add: rtc_close_def rtc_set_frequency_def Let_def cli_and_save_def restore_flags_def outb_def inb_def)

text \<open>What closing files leaves alone.\<close>

definition close_keeps :: "'a kernel_scheme \<Rightarrow> 'a kernel_scheme \<Rightarrow> bool" where
  "close_keeps s s' \<longleftrightarrow> frames s' = frames s \<and> window s' = window s \<and> mem s' = mem s \<and> running s' = running s
     \<and> curr_proc s' = curr_proc s \<and> int_flag s' = int_flag s"

lemma sys_close_closable:
  assumes "curr_proc s (running s) \<noteq> 0" and "closable (pcbs s (curr_proc s (running s)))" and "2 \<le> j" "j < 8"
  shows "\<exists>r s'. sys_close env (of_nat j) s = Some (r, s') \<and> close_keeps s s' \<and> closable (pcbs s' (curr_proc s' (running s')))"
proof (cases "fd_flags (fds (pcbs s (curr_proc s (running s))) j) = 1")
  case True
  define u where "u = set_cur_fd j (\<lambda>f. f\<lparr>fd_flags := 0, file_position := 0\<rparr>) s"
  have u: "frames u = frames s" "window u = window s" "mem u = mem s" "running u = running s" "curr_proc u = curr_proc s"
    "int_flag u = int_flag s"
    by (simp_all add: u_def set_cur_fd_def set_pcb_def running_def)
  have c: "closable (pcbs u (curr_proc u (running u)))"
    using assms(2) by (auto simp: u_def set_cur_fd_def set_pcb_def set_fd_def closable_def running_def)
  have op: "operations_pointer (fds (pcbs u (curr_proc u (running u))) j) = operations_pointer (fds (pcbs s (curr_proc s (running s))) j)"
    by (simp add: u_def)
  have t: "operations_pointer (fds (pcbs s (curr_proc s (running s))) j) \<in> {Some Rtc_ops, Some Dir_ops, Some Files_ops}"
    using assms(2-4) True by (simp add: closable_def)
  have "sys_close env (of_nat j) s = call_close env j u"
    using sys_close_dispatch [OF assms(3,4,1) True, of env] by (simp add: u_def)
  moreover have "\<exists>r s'. call_close env j u = Some (r, s') \<and> (s' = u \<or> s' = snd (rtc_close (rounding env) u))"
    using t op assms(1) u by (cases "rtc_close (rounding env) u") (auto simp: call_close_def cur_pcb_def)
  moreover have "close_keeps s (snd (rtc_close (rounding env) u))" "close_keeps s u"
    using u by (simp_all add: close_keeps_def rtc_close_keeps running_def)
  moreover have "closable (pcbs (snd (rtc_close (rounding env) u)) (curr_proc (snd (rtc_close (rounding env) u)) (running (snd (rtc_close (rounding env) u)))))"
    using c by (simp add: rtc_close_keeps running_def)
  ultimately show ?thesis using c by metis
next
  case False
  then have "sys_close env (of_nat j) s = Some (-1, s)"
    using assms descriptor_word [OF assms(4)]
    by (simp add: sys_close_def case_prod_beta Let_def cur_pcb_def)
  then show ?thesis using assms(2) by (simp add: close_keeps_def)
qed

lemma close_files_closable:
  assumes "curr_proc s (running s) \<noteq> 0" and "closable (pcbs s (curr_proc s (running s)))" and "\<forall>j\<in>set is. 2 \<le> j \<and> j < 8"
  shows "\<exists>s'. close_files env is s = Some s' \<and> close_keeps s s'"
  using assms
proof (induction "is" arbitrary: s)
  case Nil
  then show ?case by (simp add: close_keeps_def)
next
  case (Cons j "is")
  obtain r t where t: "sys_close env (of_nat j) s = Some (r, t)" "close_keeps s t" "closable (pcbs t (curr_proc t (running t)))"
    using sys_close_closable [OF Cons.prems(1,2), of j env] Cons.prems(3) by auto
  then have "curr_proc t (running t) \<noteq> 0" using Cons.prems(1) by (simp add: close_keeps_def)
  from Cons.IH [OF this t(3)] Cons.prems(3) obtain s' where "close_files env is t = Some s'" "close_keeps t s'" by auto
  with t show ?case by (auto simp: close_keeps_def)
qed

lemma leave_process_returns:
  assumes "curr_proc s (running s) \<noteq> 0" and "closable (pcbs s (curr_proc s (running s)))"
  shows "\<exists>s'. leave_process env status flags s = Some (Resume_stack s') \<and>
    (\<forall>f b. window s' = Some f \<longrightarrow> in_window b \<longrightarrow> mem s' b = saved_frames s f (b - user_base))"
proof -
  let ?c = "curr_proc s (running s)"
  define s2 where "s2 = set_pcb ?c (set_fd 1 (\<lambda>f. f\<lparr>operations_pointer := None, fd_inode := 0, fd_flags := 0\<rparr>))
    (set_pcb ?c (set_fd 0 (\<lambda>f. f\<lparr>operations_pointer := None, fd_flags := 0\<rparr>))
      (s\<lparr>g_status := ucast status, curr_proc_id_mask := curr_proc_id_mask (s\<lparr>g_status := ucast status\<rparr>) XOR
          ucast (drop_bit (unat (proc_num (pcbs s ?c))) PROGRAM_LOCATION_MASK)\<rparr>))"
  have s2: "curr_proc s2 = curr_proc s" "running s2 = running s" "frames s2 = frames s" "window s2 = window s" "mem s2 = mem s"
    by (simp_all add: s2_def set_pcb_def running_def)
  have "closable (pcbs s2 (curr_proc s2 (running s2)))"
    using assms(2) unfolding s2(1,2) by (auto simp: s2_def set_pcb_def set_fd_def closable_def)
  then obtain s3 where s3: "close_files env [2..<8] s2 = Some s3" "close_keeps s2 s3"
    using close_files_closable [of s2 "[2..<8]" env] assms(1) by (auto simp: s2(1,2))
  have fr: "saved_frames s3 = saved_frames s" using s3(2) s2 by (simp add: close_keeps_def saved_frames_def split: option.split)
  show ?thesis
    unfolding leave_process_def Let_def s2_def [symmetric] s3(1)
    by (auto simp: switch_pd_eq fr restore_flags_def)
qed

text \<open>\<^const>\<open>halt\<close> of a process with a parent.\<close>

lemma halt_pops:
  assumes inv: "procs s st" and top: "st (running s) = i # j # js" and cl: "closable (pcbs s (curr_proc s (running s)))"
  shows "\<exists>s'. halt env v s = Some (Resume_stack s') \<and> procs s' (pop_proc (running s) st) \<and> g_status s' = ucast v
    \<and> window s' = Some (process_frame (of_nat j)) \<and> tss_esp0 s' = esp0_of (of_nat j) \<and> cpu_esp s' = p_ksp (pcbs s (pcb_addr (of_nat i)))
    \<and> (\<forall>a. in_window a \<longrightarrow> mem s' a = saved_frames s (process_frame (of_nat j)) (a - user_base))"
proof -
  define s3 where "s3 = s\<lparr>int_flag := False\<rparr>"
  have inv3: "procs s3 st" using inv procs_cong [of s3 s] by (simp add: s3_def)
  have r: "running s3 = running s" "curr_proc s3 = curr_proc s" "prev_proc s3 = prev_proc s" "pcbs s3 = pcbs s" "saved_frames s3 = saved_frames s"
    by (simp_all add: s3_def running_def saved_frames_def split: option.split)
  have t: "running s < 3" using inv by (simp add: procs_def)
  note f = procs_fields [OF inv t]
  have "i < 7" "j < 7" using f(3) top by simp_all
  then have nz: "curr_proc s (running s) \<noteq> 0" "prev_proc s (running s) \<noteq> 0"
    using f(1,2) top pcb_addr_nonzero by (simp_all add: head_addr_def)
  from leave_process_returns [of s3, unfolded r, OF nz(1) cl, of env v "int_flag s"] obtain s' where
    s': "leave_process env v (int_flag s) s3 = Some (Resume_stack s')"
    "\<And>f b. window s' = Some f \<Longrightarrow> in_window b \<Longrightarrow> mem s' b = saved_frames s f (b - user_base)" by blast
  have "st (running s3) = i # j # js" using top r by simp
  from leave_process_halted [OF inv3 s'(1) this] have h: "procs s' (pop_proc (running s) st)"
    "window s' = Some (process_frame (of_nat j))" "g_status s' = ucast v" "tss_esp0 s' = esp0_of (of_nat j)"
    "cpu_esp s' = p_ksp (pcbs s (pcb_addr (of_nat i)))"
    by (auto simp: r)
  have "halt env v s = Some (Resume_stack s')"
    using nz s'(1) r by (simp add: halt_def cli_and_save_def Let_def s3_def [symmetric])
  with h s'(2) show ?thesis by blast
qed

text \<open>The frames of two processes of a stack differ.\<close>

lemma stack_frames:
  assumes "procs s st" "t < 3" "st t = i # j # js"
  shows "process_frame (of_nat j) \<noteq> process_frame (of_nat i)" "process_frame (of_nat i) \<noteq> process_frame (of_nat j)"
proof -
  have b: "i < 7" "j < 7" using procs_fields(3) [OF assms(1,2)] assms(3) by simp_all
  have "distinct (all_procs st)" using assms(1) by (simp add: procs_def)
  then have "distinct (st t)" using terminal_index [OF assms(2)] by (auto simp: all_procs_def)
  then have "i \<noteq> j" using assms(3) by auto
  show neq: "process_frame (of_nat j) \<noteq> process_frame (of_nat i)"
  proof
    assume "process_frame (of_nat j) = process_frame (of_nat i)"
    then have "(of_nat j :: u32) = of_nat i" using b by (intro process_frame_inj) (simp_all add: word_less_nat_alt)
    then have "unat (of_nat j :: u32) = unat (of_nat i :: u32)" by simp
    then show False using b \<open>i \<noteq> j\<close> by simp
  qed
  then show "process_frame (of_nat i) \<noteq> process_frame (of_nat j)" by simp
qed

lemma execute_halt:
  fixes s :: "'a kernel_scheme"
  assumes "command \<noteq> 0" "cstr (view (mem s) command) (w @ chr CHR '' '' # args)"
    and "w \<noteq> []" "chr CHR '' '' \<notin> set w" "10 \<notin> set w" "take 5 w \<noteq> str ''clear''"
    and "runnable s names w n entry" "unat (inode_size n s) \<le> 0x3B8000"
    and inv: "procs s st" "next_slot st = Some i"
    and "exec_layout env command (length w + 1 + length args) (length args) s" "length args < 4294967000"
    and "length w < length (strtok_buf s)" "length args < length (pcb_args (pcbs s (pcb_addr (of_nat i))))"
    and parent: "st (running s) = j # js" "window s = Some (process_frame (of_nat j))"
  shows "\<exists>s1. execute env command s = Some (Enter_user entry s1) \<and>
    (\<forall>s2 status. proc_view s2 = proc_view s1 \<and> frames s2 = frames s1 \<and> window s2 = window s1 \<and>
        closable (pcbs s2 (curr_proc s2 (running s2))) \<longrightarrow>
      (\<exists>s'. halt env status s2 = Some (Resume_stack s') \<and> procs s' st \<and> (\<forall>a. in_window a \<longrightarrow> mem s' a = mem s a) \<and>
        window s' = window s \<and> tss_esp0 s' = esp0_of (of_nat j) \<and> cpu_esp s' = cpu_esp s \<and> g_status s' = ucast status))"
proof -
  let ?t = "running s" and ?a = "pcb_addr (of_nat i)" and ?st = "push_proc (running s) i st"
  obtain s1 where s1: "execute env command s = Some (Enter_user entry s1)" "started i n args s s1" "procs s1 ?st"
    using execute_starts [OF assms(1-14)] by blast
  have t: "?t < 3" using inv(1) by (simp add: procs_def)
  have st: "?st ?t = i # j # js" by (simp add: push_proc_def parent(1))
  have undo: "pop_proc ?t ?st = st" by (simp add: pop_proc_def push_proc_def fun_eq_iff)
  have returns: "\<exists>s'. halt env status s2 = Some (Resume_stack s') \<and> procs s' st \<and> (\<forall>a. in_window a \<longrightarrow> mem s' a = mem s a) \<and>
        window s' = window s \<and> tss_esp0 s' = esp0_of (of_nat j) \<and> cpu_esp s' = cpu_esp s \<and> g_status s' = ucast status"
    if v: "proc_view s2 = proc_view s1" and fr: "frames s2 = frames s1" "window s2 = window s1"
      and cl: "closable (pcbs s2 (curr_proc s2 (running s2)))" for s2 status
  proof -
    have r: "running s2 = ?t" "p_ksp (pcbs s2 ?a) = p_ksp (pcbs s1 ?a)"
      using v s1(2) by (auto simp: proc_view_def started_def Let_def running_def fun_eq_iff)
    have inv2: "procs s2 ?st" using s1(3) procs_cong [OF v] by simp
    from halt_pops [OF inv2 _ cl, of i j js env status] st r(1) obtain s' where
      s': "halt env status s2 = Some (Resume_stack s')" "procs s' st" "g_status s' = ucast status"
      "window s' = Some (process_frame (of_nat j))" "tss_esp0 s' = esp0_of (of_nat j)" "cpu_esp s' = p_ksp (pcbs s2 ?a)"
      "\<forall>a. in_window a \<longrightarrow> mem s' a = saved_frames s2 (process_frame (of_nat j)) (a - user_base)"
      by (auto simp: undo)
    have "mem s' b = mem s b" if "in_window b" for b
      using s'(7) s1(2) that stack_frames(1) [OF s1(3) t st] parent(2) fr
      by (simp add: saved_frames_def started_def Let_def)
    moreover have "cpu_esp s' = cpu_esp s" using s'(6) r(2) s1(2) by (simp add: started_def Let_def)
    ultimately show ?thesis using s' parent(2) by auto
  qed
  with s1(1) show ?thesis by blast
qed

section \<open>The sample kernel runs its program\<close>

definition demo_stacks :: "nat \<Rightarrow> nat list" where
  "demo_stacks = (\<lambda>_. [])(0 := [0])"

lemma demo_procs: "procs demo_kernel demo_stacks" "next_slot demo_stacks = Some 1"
proof -
  have "\<forall>j\<in>set [0..<7]. bit (0x80 :: u8) (7 - j) \<longleftrightarrow> j = 0" by code_simp
  then have "process_slots.in_use 0x80 = {0}" by (auto simp: process_slots.in_use_def slot_used_def)
  moreover have "t \<in> {0, 1, 2}" if "t < 3" for t :: nat using that by auto
  ultimately show "procs demo_kernel demo_stacks"
    by (auto simp: procs_def demo_stacks_def all_procs_def pcb_view_def demo_pcb_def head_addr_def)
  show "next_slot demo_stacks = Some 1"
    by (simp add: next_slot_def demo_stacks_def all_procs_def upt_rec)
qed

lemma demo_runnable: "runnable demo_kernel [str ''hi''] (str ''hi'') 0 0x08048020"
proof -
  have "file_byte demo_kernel 0 j = demo_image (0x3000 + of_nat j)" if "j < 32" for j
    using that by (simp add: file_byte_def)
  then have "file_slice demo_kernel 0 0 4 = [0x7F, 0x45, 0x4C, 0x46]"
    "load32 (\<lambda>a. file_slice demo_kernel 0 0 32 ! unat a) 24 = 0x08048020"
    by (simp_all add: file_slice_def upt_rec load32_def nth_file_slice demo_image_def)
  then show ?thesis using demo_kernel_fs by (simp add: runnable_def dir_find_def)
qed

lemma demo_layout:
  "exec_layout demo_env 0x9000 (length (str ''hi'') + 1 + length (str ''x'')) (length (str ''x'')) demo_kernel"
proof -
  have im: "image_rng demo_kernel = rng 0x1000 12288" by (simp add: image_rng_def image_size_def)
  have w: "Collect in_window = rng user_base 4194304" by (auto simp: in_window_def)
  have "rng 0xB000 2 \<inter> rng 0x9000 5 = {}" "rng 0xB000 2 \<inter> rng 0x1000 12288 = {}" "rng 0xC000 32 \<inter> rng 0x1000 12288 = {}"
    "rng user_base 4194304 \<inter> rng 0x1000 12288 = {}" "rng user_base 4194304 \<inter> rng 0xB000 2 = {}"
    "rng user_base 4194304 \<inter> rng 0xC000 32 = {}"
    by (subst Int_commute, rule rng_disjoint, simp_all add: user_base_def)+
  moreover have "rng 0xB000 2 \<inter> rng 0xC000 32 = {}" by (rule rng_disjoint) simp_all
  moreover have "length (str ''hi'') + 1 + length (str ''x'') + 1 = 5" "length (str ''x'') + 1 = 2" by simp_all
  ultimately show ?thesis unfolding exec_layout_def im w
    by (simp only: demo_env_def env.simps Int_Un_distrib Un_empty simp_thms)
qed

lemma demo_command:
  "cstr (view (mem demo_kernel) 0x9000) (str ''hi'' @ chr CHR '' '' # str ''x'')" "chr CHR '' '' \<notin> set (str ''hi'')"
  "10 \<notin> set (str ''hi'')" "take 5 (str ''hi'') \<noteq> str ''clear''" "str ''hi'' \<noteq> []"
proof -
  have h: "chr CHR ''h'' \<noteq> 0" "chr CHR ''i'' \<noteq> 0" "chr CHR '' '' \<noteq> 0" "chr CHR ''x'' \<noteq> 0" by code_simp+
  then show "cstr (view (mem demo_kernel) 0x9000) (str ''hi'' @ chr CHR '' '' # str ''x'')"
    by (simp add: cstr_def view_def str_def demo_image_def less_Suc_eq)
  show "chr CHR '' '' \<notin> set (str ''hi'')" "10 \<notin> set (str ''hi'')" by code_simp+
  show "take 5 (str ''hi'') \<noteq> str ''clear''" "str ''hi'' \<noteq> []" by (simp_all add: str_def)
qed

section \<open>Properties\<close>

text \<open>C5: \<^verbatim>\<open>execute\<close> of a command with arguments, naming an executable of the file system, starts
  it: the image is at \<^verbatim>\<open>0x8048000\<close> in the frame of the lowest free slot, the control block has
  the arguments and only the terminal open, the kernel stack is that of the slot, the entry
  is the one of the header, and the slot is pushed on the stack of the terminal.\<close>

theorem execute_starts_program:
  fixes s :: "'a kernel_scheme"
  assumes "command \<noteq> 0" "cstr (view (mem s) command) (w @ chr CHR '' '' # args)"
    and "w \<noteq> []" "chr CHR '' '' \<notin> set w" "10 \<notin> set w" "take 5 w \<noteq> str ''clear''"
    and "runnable s names w n entry" "unat (inode_size n s) \<le> 0x3B8000"
    and "procs s st" "next_slot st = Some i"
    and "exec_layout env command (length w + 1 + length args) (length args) s" "length args < 4294967000"
    and "length w < length (strtok_buf s)" "length args < length (pcb_args (pcbs s (pcb_addr (of_nat i))))"
  shows "\<exists>s'. execute env command s = Some (Enter_user entry s') \<and> started i n args s s'
    \<and> procs s' (push_proc (running s) i st)"
  by (rule execute_starts [OF assms])

theorem execute_starts_program_witness:
  "\<exists>s'. execute demo_env 0x9000 demo_kernel = Some (Enter_user 0x08048020 s')
    \<and> load_bytes (mem s') 0x08048000 32 = file_slice demo_kernel 0 0 32"
  using execute_starts_program [OF _ demo_command(1,5,2-4) demo_runnable _ demo_procs demo_layout]
  by (auto simp: started_def Let_def PROGRAM_EXEC_ADDR_def demo_pcb_def)


lemma demo_runs:
  "\<exists>s'. execute demo_env 0x9000 demo_kernel = Some (Enter_user 0x08048020 s') \<and> started 1 0 (str ''x'') demo_kernel s'"
  using execute_starts [OF _ demo_command(1,5,2-4) demo_runnable _ demo_procs demo_layout]
  by (auto simp: demo_pcb_def)


text \<open>A program that asks for its arguments gets those of its command line.\<close>

theorem getargs_returns_arguments:
  assumes "started i n args s s'" and "i < 7" and "buf \<noteq> 0" and "length args < k" "k \<le> 64"
  shows "\<exists>s''. getargs buf (of_nat k) s' = Some (0, s'') \<and> cstr (view (mem s'') buf) args \<and> int_flag s''"
proof -
  have c: "curr_proc s' (running s') = pcb_addr (of_nat i)" using assms(1) by (auto simp: started_def Let_def)
  have p: "cur_pcb s' = Some (pcbs s' (pcb_addr (of_nat i)))" "cstr (arr (pcb_args (pcbs s' (pcb_addr (of_nat i))))) args" "int_flag s'"
    using c assms(1) pcb_addr_nonzero [OF assms(2)] by (simp_all add: cur_pcb_def) (simp_all add: started_def Let_def)
  obtain m where m: "strncpy (mem_put buf) (mem s') (arr (pcb_args (pcbs s' (pcb_addr (of_nat i))))) k = Some m"
    "\<And>j. j < k \<Longrightarrow> view m buf j = (if j < length args then args ! j else 0)"
    by (rule ram.strncpy_spec [OF p(2), where n = k and d = "mem s'" and p = buf]) (use assms(5) in auto)
  have "sint (of_nat k :: u32) = int k"
    using assms(5) by (simp add: signed_of_nat signed_take_bit_int_eq_self)
  then have "getargs buf (of_nat k) s' = Some (0, s'\<lparr>mem := m, int_flag := True\<rparr>)"
    using assms(3,5) p m(1) by (simp add: getargs_def cli_and_save_def Let_def cur_pcb_def restore_flags_def running_def split: if_splits)
  moreover have "cstr (view m buf) args"
    using m(2) assms(4) cstr_no_NUL [OF p(2)] by (auto simp: cstr_def in_set_conv_nth)
  ultimately show ?thesis by simp
qed

theorem getargs_returns_arguments_witness:
  "\<exists>s' s''. execute demo_env 0x9000 demo_kernel = Some (Enter_user 0x08048020 s') \<and> getargs 0x8000 2 s' = Some (0, s'')
     \<and> cstr (view (mem s'') 0x8000) (str ''x'')"
  using demo_runs getargs_returns_arguments [of 1 0 "str ''x''" demo_kernel _ "0x8000" 2] by fastforce

end
