(* ===== verification/System.thy ===== *)
theory System
  imports Pit Loader
begin

text \<open>
  The kernel as a transition system: what a running process and the devices can make it do.
  Every step keeps the processes organised as one stack for each terminal, and starts or ends
  at the top of a stack.
\<close>

section \<open>Interrupts\<close>

text \<open>A routine that returns in a state with \<open>I\<close>, or leaves for another one in a state with \<open>P\<close>.\<close>

definition ends :: "('s \<Rightarrow> bool) \<Rightarrow> ('s \<Rightarrow> bool) \<Rightarrow> ('r, 's) flow option \<Rightarrow> bool" where
  "ends I P x \<longleftrightarrow> (case x of None \<Rightarrow> True | Some (Ret _ s) \<Rightarrow> I s | Some (Enter_user _ s) \<Rightarrow> P s | Some (Resume_stack s) \<Rightarrow> P s)"

lemma ends_simps:
  "ends I P None" "ends I P (Some (Ret v s)) = I s" "ends I P (Some (Enter_user e s)) = P s" "ends I P (Some (Resume_stack s)) = P s"
  "ends I P (map_option (Ret v) x) = (\<forall>s. x = Some s \<longrightarrow> I s)"
  by (auto simp: ends_def split: option.split)

lemma leaves_ends: "leaves P x = ends P P x"
  by (auto simp: leaves_def ends_def split: option.split flow.split)

text \<open>A view of the state that the devices' handlers do not touch either.\<close>

locale device_view = call_view +
  assumes V_keys [simp]: "V (s\<lparr>cntrl_l_on := b\<rparr>) = V s" "V (s\<lparr>cntrl_r_on := b\<rparr>) = V s" "V (s\<lparr>shift_l_on := b\<rparr>) = V s"
      "V (s\<lparr>shift_r_on := b\<rparr>) = V s" "V (s\<lparr>caps_on := b\<rparr>) = V s" "V (s\<lparr>alt_l_on := b\<rparr>) = V s" "V (s\<lparr>alt_r_on := b\<rparr>) = V s"
      "V (s\<lparr>special_key_enabled := b\<rparr>) = V s"
    and V_mouse_fields [simp]: "V (s\<lparr>mouse_x := x\<rparr>) = V s" "V (s\<lparr>mouse_y := x\<rparr>) = V s" "V (s\<lparr>prev_char := c\<rparr>) = V s"
      "V (s\<lparr>mouse_flags := fl\<rparr>) = V s" "V (s\<lparr>mouse_byte_1 := c\<rparr>) = V s"
    and V_color [simp]: "V (s\<lparr>text_color := tc\<rparr>) = V s"
begin

lemma V_screen [simp]:
  "V (set_color col s) = V s" "V (update_cursor ux uy s) = V s" "V (test_interrupts s) = V s" "V (draw_full_block bx by v s) = V s"
proof -
  show "V (set_color col s) = V s" by (simp add: set_color_eq)
  show "V (update_cursor ux uy s) = V s" by (rule frame_keeps) (rule console_frame_steps)
  have "V (fold (\<lambda>i s. poke (a i) (g i s) s) is s) = V s" for a g and "is" :: "nat list"
    by (induction "is" arbitrary: s) simp_all
  then show "V (test_interrupts s) = V s" by (simp add: test_interrupts_def)
  show "V (draw_full_block bx by v s) = V s" by (simp add: draw_full_block_def put_cell_mem)
qed

lemma V_update_screen [simp]: "V (update_screen dest src s) = V s"
  by (simp add: update_screen_def Let_def)

lemma V_mouse [simp]: "V (mouse_handle_interrupt s) = V s"
  by (simp add: mouse_handle_interrupt_def mouse_ack_def mouse_move_def Let_def case_prod_beta)

lemma rtc_interrupt_keeps:
  assumes "rtc_handle_interrupt s = Some s'"
  shows "V s' = V s"
proof -
  have "(0 :: u8) \<notin> set (str ''RTC Interrupt!'' @ [10])" "chr CHR ''%'' \<notin> set (str ''RTC Interrupt!'' @ [10])"
    by code_simp+
  then show ?thesis
    using assms printf_keeps [of "\<lambda>_. 0" "str ''RTC Interrupt!'' @ [10]"]
    by (auto simp: rtc_handle_interrupt_def Let_def cli_and_save_def rtc_special_eoi_def split: if_splits)
qed

lemma V_row [simp]:
  "V (reset_term s) = V s" "V (handle_enter s) = V s" "V (handle_backspace s) = V s" "V (reset_curr_command s) = V s"
proof -
  have f: "V (fold (\<lambda>i s. set_buf (t i s) (k i) v s) is s) = V s" for t k v and "is" :: "nat list"
    by (induction "is" arbitrary: s) simp_all
  show "V (reset_term s) = V s" "V (handle_enter s) = V s"
    by (simp_all add: reset_term_def handle_enter_def Let_def f)
  show "V (handle_backspace s) = V s" by (simp add: handle_backspace_def erase_char_def Let_def)
  show "V (reset_curr_command s) = V s"
  proof (induction s rule: reset_curr_command.induct)
    case (1 s)
    then show ?case by (subst reset_curr_command.simps) (simp add: erase_char_def Let_def)
  qed
qed

lemma handle_tab_keeps: "handle_tab s = Some s' \<Longrightarrow> V s' = V s"
proof -
  have "V (fold (\<lambda>i s. snd (add_char_to_buffer (mem s (a + of_nat i)) (active_terminal s) s)) is s) = V s" for a "is" s
    by (induction "is" arbitrary: s) simp_all
  then show "handle_tab s = Some s' \<Longrightarrow> V s' = V s"
    by (auto simp: handle_tab_def fill_curr_command_def bind_eq_Some_conv split: if_splits)
qed

lemma kbd_led_keeps: "kbd_led_handling a b c s = Some s' \<Longrightarrow> V s' = V s"
  by (auto simp: kbd_led_handling_def kbd_ack_def bind_eq_Some_conv Let_def dest!: inb_until_keeps)

text \<open>
  What the keyboard's handler keeps (\<open>I\<close>, or \<open>P\<close> where it does not return), when ending the program
  and switching the terminal keep it and \<open>I\<close> does not depend on anything but the view.
\<close>

lemma handle_keypress_ends:
  assumes cong: "\<And>s s'. V s' = V s \<Longrightarrow> I s \<Longrightarrow> I s'" and "I s"
    and h: "\<And>v s. I s \<Longrightarrow> ends I P (h v s)" and sw: "\<And>d f s. unat d < 3 \<Longrightarrow> I s \<Longrightarrow> ends I P (switch_terminal cs d f s)"
  shows "ends I P (handle_keypress h cs s)"
proof -
  define s1 where "s1 = s\<lparr>int_flag := False, in_count := Suc (in_count s)\<rparr>"
  have I: "I s'" if "V s' = V s" for s' using cong [OF that assms(2)] .
  have s1: "V s1 = V s" by (simp add: s1_def)
  have "ends I P (key_print h k f s1)" for k f
    using h [OF I, of "restore_flags f (send_eoi 1 s1)" "-2"] s1
    by (auto simp: key_print_def Let_def I ends_def split: option.splits flow.splits)
  moreover have "ends I P (key_control cs k f s1)" for k f
    using s1 by (auto simp: key_control_def Let_def I ends_simps intro!: sw dest: kbd_led_keeps handle_tab_keeps)
  moreover have "I (key_special s1)" "I (key_break k s1)" for k
    using s1 by (simp_all add: I key_special_def key_break_def Let_def case_prod_beta)
  moreover have tail: "ends I P (case r of Some (Ret _ s) \<Rightarrow> Some (Ret () (restore_flags f (send_eoi 1 s))) | _ \<Rightarrow> r)"
    if "ends I P r" for r :: "(unit, _) flow option" and f
    using that cong by (auto simp: ends_def split: option.splits flow.splits)
  ultimately show ?thesis
    unfolding handle_keypress_def cli_and_save_def inb_def Let_def prod.case
    by (intro tail) (use s1 in \<open>auto simp: s1_def [symmetric] I ends_simps\<close>)
qed

lemma handle_keypress_keeps:
  assumes "\<And>s s'. V s' = V s \<Longrightarrow> P s \<Longrightarrow> P s'" and "P s"
    and "\<And>v s. P s \<Longrightarrow> leaves P (h v s)" and "\<And>d f s. unat d < 3 \<Longrightarrow> P s \<Longrightarrow> leaves P (switch_terminal cs d f s)"
  shows "leaves P (handle_keypress h cs s)"
  using handle_keypress_ends [where I = P and P = P, folded leaves_ends, OF assms] .

end

text \<open>A view that does not say which terminal is shown.\<close>

locale hidden_view = device_view +
  assumes V_terminals [simp]: "V (s\<lparr>prev_terminal := d\<rparr>) = V s" "V (s\<lparr>active_terminal := d\<rparr>) = V s"
begin

lemma switch_terminal_keeps:
  assumes cong: "\<And>s s'. V s' = V s \<Longrightarrow> P s \<Longrightarrow> P s'" and "P s" "unat d < 3"
    and cs: "\<And>a b s. unat b < 3 \<Longrightarrow> P s \<Longrightarrow> leaves P (cs a b s)"
  shows "leaves P (switch_terminal cs d f s)"
proof -
  have at: "active_terminal (restore_flags f (send_eoi 1 u)) = active_terminal u" for f and u :: "'a kernel_scheme"
    using send_eoi_ports [of 1 u] by (auto simp: restore_flags_def)
  show ?thesis
    unfolding switch_terminal_def Let_def by (rule cs) (use assms(3) cong [OF _ assms(2)] in \<open>simp_all add: at\<close>)
qed

end

interpretation proc: hidden_view proc_view
  by unfold_locales (auto simp: proc_view_def)

lemmas rtc_interrupt_view = proc.rtc_interrupt_keeps

section \<open>Switching\<close>

lemma resume_sched_view:
  "proc_view (resume_sched trm a s) = proc_view (s\<lparr>curr_active_term := trm\<rparr>)"
  by (simp add: resume_sched_def set_running_proc_def switch_pd_eq Let_def)

lemma save_sched_view [simp]: "proc_view (save_sched a s) = proc_view s"
  by (auto simp: save_sched_def set_pcb_def proc_view_def)

lemma procs_running:
  assumes "procs s st" and "unat trm < 3"
  shows "procs (s\<lparr>curr_active_term := trm\<rparr>) st"
proof -
  have "pcb_view (s\<lparr>curr_active_term := trm\<rparr>) = pcb_view s" by (simp add: pcb_view_def fun_eq_iff)
  then show ?thesis using assms by (simp add: procs_def running_def)
qed

section \<open>Steps of the abstract system\<close>

text \<open>A terminal starts a process in the lowest free slot, or ends one that has a parent.\<close>

inductive stack_step :: "(nat \<Rightarrow> nat list) \<Rightarrow> (nat \<Rightarrow> nat list) \<Rightarrow> bool" where
  start: "t < 3 \<Longrightarrow> next_slot st = Some i \<Longrightarrow> stack_step st (push_proc t i st)"
| stop: "t < 3 \<Longrightarrow> length (st t) > 1 \<Longrightarrow> stack_step st (pop_proc t st)"

inductive_cases stack_stepE: "stack_step st st'"

text \<open>The kernel's processes are those of a state that the abstract system can reach.\<close>

definition runs :: "(nat \<Rightarrow> nat list) \<Rightarrow> 'a kernel_scheme \<Rightarrow> bool" where
  "runs st s \<longleftrightarrow> (\<exists>st'. stack_step\<^sup>*\<^sup>* st st' \<and> procs s st')"

lemma runs_cong: "proc_view s' = proc_view s \<Longrightarrow> runs st s \<Longrightarrow> runs st s'"
  using procs_cong [of s' s] by (auto simp: runs_def)

lemma runs_running: "runs st s \<Longrightarrow> unat trm < 3 \<Longrightarrow> runs st (s\<lparr>curr_active_term := trm\<rparr>)"
  using procs_running by (auto simp: runs_def)

lemma runs_terminal: "runs st s \<Longrightarrow> running s < 3"
  by (auto simp: runs_def procs_def)

lemma runs_execute: "runs st s \<Longrightarrow> leaves (runs st) (execute env command s)"
proof -
  assume "runs st s"
  then obtain st' where st': "stack_step\<^sup>*\<^sup>* st st'" "procs s st'" by (auto simp: runs_def)
  have "runs st (flow_state r)" if ex: "execute env command s = Some r" for r
  proof (cases r)
    case (Ret v s')
    then show ?thesis using execute_executed [OF st'(2) ex] st'(1) by (auto simp: executed_def runs_def)
  next
    case (Enter_user e s')
    then obtain i where "next_slot st' = Some i" "procs s' (push_proc (running s) i st')"
      using execute_executed [OF st'(2) ex] by (auto simp: executed_def)
    then show ?thesis
      using Enter_user st' stack_step.start [of "running s" st' i]
      by (auto simp: runs_def procs_def intro: rtranclp.rtrancl_into_rtrancl)
  next
    case (Resume_stack s')
    then show ?thesis using execute_executed [OF st'(2) ex] by (simp add: executed_def)
  qed
  then show ?thesis by (simp add: leaves_def)
qed

lemma runs_halt: "runs st s \<Longrightarrow> leaves (runs st) (halt env status s)"
proof -
  assume "runs st s"
  then obtain st' where st': "stack_step\<^sup>*\<^sup>* st st'" "procs s st'" by (auto simp: runs_def)
  have "runs st (flow_state r)" if "halt env status s = Some r" for r
    using halt_halted [OF st'(2) that] st' stack_step.stop [of "running s" st']
    by (cases r) (auto simp: halted_def runs_def procs_def intro: rtranclp.rtrancl_into_rtrancl)
  then show ?thesis by (simp add: leaves_def)
qed

lemma runs_execute_shell: "runs st s \<Longrightarrow> leaves (runs st) (execute_shell env s)"
  using runs_execute [of st s env "shell_literal env"]
  by (cases "execute env (shell_literal env) s") (auto simp: execute_shell_def split: flow.split)

lemma runs_resume:
  "runs st s \<Longrightarrow> unat trm < 3 \<Longrightarrow> runs st (resume_sched trm a (save_sched b s))"
  by (rule runs_cong [OF resume_sched_view]) (rule runs_running, rule runs_cong [OF save_sched_view])

lemma runs_start_terminal: "runs st s \<Longrightarrow> leaves (runs st) (start_terminal env c s)"
  by (auto simp: start_terminal_def Let_def intro!: runs_execute_shell elim: runs_cong [OF save_sched_view])

lemma runs_first_start:
  assumes "runs st s" and "unat b < 3"
  shows "runs st (set_second_term_start (set_running_proc b s))" and "runs st (set_third_term_start (set_running_proc b s))"
proof -
  have r: "runs st (set_running_proc b s)" using assms by (simp add: set_running_proc_def runs_running)
  show "runs st (set_second_term_start (set_running_proc b s))" "runs st (set_third_term_start (set_running_proc b s))"
    by (rule runs_cong [OF _ r], simp add: set_second_term_start_def set_third_term_start_def proc_view_def)+
qed

lemma runs_context_switch: "runs st s \<Longrightarrow> unat b < 3 \<Longrightarrow> leaves (runs st) (context_switch env a b s)"
  by (simp add: context_switch_def Let_def SCHED_ENABLED_def runs_resume runs_start_terminal runs_first_start)

lemma runs_keyboard: "runs st s \<Longrightarrow> leaves (runs st) (keyboard_irq env s)"
  unfolding keyboard_irq_def
  by (rule proc.handle_keypress_keeps [where P = "runs st"])
    (auto intro: runs_cong runs_halt runs_context_switch proc.switch_terminal_keeps [where P = "runs st"])

lemma next_terminal: "running s < 3 \<Longrightarrow> unat (get_next_running_term_proc s) < 3"
proof -
  assume "running s < 3"
  then have "unat (curr_active_term s) \<in> {0, 1, 2}" by (auto simp: running_def)
  then have "curr_active_term s \<in> {0, 1, 2}" by (auto simp: word_unat_eq_iff)
  then show ?thesis by (auto simp: get_next_running_term_proc_def)
qed

lemma runs_timer: "runs st s \<Longrightarrow> leaves (runs st) (pit_handle_interrupt sched env s)"
proof -
  assume r: "runs st s"
  define s1 where "s1 = send_eoi 0 s"
  have r1: "runs st s1" by (rule runs_cong [OF _ r]) (simp add: s1_def)
  have n: "unat (get_next_running_term_proc s1) < 3" by (rule next_terminal [OF runs_terminal [OF r1]])
  have "runs st (save_sched b (set_running_proc (get_next_running_term_proc s1)
      (update_screen x y (set_active_terminal z s1))))" for b x y z
    unfolding set_running_proc_def set_active_terminal_def
    by (rule runs_cong [OF save_sched_view], rule runs_running [OF _ n], rule runs_cong [OF _ r1]) simp
  then show ?thesis
    using r1 runs_resume [OF r1 n]
    by (auto simp: pit_handle_interrupt_def Let_def s1_def [symmetric] runs_execute_shell)
qed

section \<open>The kernel's steps\<close>

lemma runs_read:
  assumes "sys_read env fd buf n s = Some (v, s')" and "runs st s"
    and irq: "\<And>n s s'. irqs env n s = Some s' \<Longrightarrow> runs st s \<Longrightarrow> runs st s'"
  shows "runs st s'"
proof -
  have q: "(\<exists>t :: 'a kernel_scheme. proc_view t = proc_view u \<and> runs st t) \<longleftrightarrow> runs st u" for u :: "'a kernel_scheme"
    using runs_cong [of u] by metis
  show ?thesis
    using proc.sys_read_keeps [where Q = "\<lambda>v. \<exists>t :: 'a kernel_scheme. proc_view t = v \<and> runs st t" and s = s and s' = s' and env = env, unfolded q, OF assms(1,2) irq] .
qed

text \<open>
  A system call of the running process, a store of its program into its own memory or the text
  pages, which are open to user code, or an interrupt of the keyboard, the mouse, the clock or the timer.
\<close>

inductive sys_step :: "bool \<Rightarrow> 'a kernel_scheme env \<Rightarrow> 'a kernel_scheme \<Rightarrow> 'a kernel_scheme \<Rightarrow> bool" for sched env where
  reads: "sys_read env fd buf n s = Some (v, s') \<Longrightarrow> sys_step sched env s s'"
| writes: "sys_write env fd buf n s = Some (v, s') \<Longrightarrow> sys_step sched env s s'"
| opens: "sys_open env f s = Some (v, s') \<Longrightarrow> sys_step sched env s s'"
| closes: "sys_close env fd s = Some (v, s') \<Longrightarrow> sys_step sched env s s'"
| args: "getargs buf n s = Some (v, s') \<Longrightarrow> sys_step sched env s s'"
| video: "sys_step sched env s (snd (vidmap a s))"
| exec: "execute env command s = Some r \<Longrightarrow> sys_step sched env s (flow_state r)"
| exits: "halt env status s = Some r \<Longrightarrow> sys_step sched env s (flow_state r)"
| user: "\<forall>a. \<not> in_window a \<and> \<not> kernel_video_page a \<longrightarrow> m a = mem s a \<Longrightarrow> sys_step sched env s (s\<lparr>mem := m\<rparr>)"
| keyboard: "keyboard_irq env s = Some r \<Longrightarrow> sys_step sched env s (flow_state r)"
| timer: "pit_handle_interrupt sched env s = Some r \<Longrightarrow> sys_step sched env s (flow_state r)"
| rtc_irq: "rtc_handle_interrupt s = Some s' \<Longrightarrow> sys_step sched env s s'"
| mouse_irq: "sys_step sched env s (mouse_handle_interrupt s)"

lemma sys_step_runs:
  assumes "sys_step sched env s s'" and "runs st s" and "\<And>n s s'. irqs env n s = Some s' \<Longrightarrow> runs st s \<Longrightarrow> runs st s'"
  shows "runs st s'"
  using assms(1)
proof cases
  case (reads fd buf n v)
  then show ?thesis using runs_read assms(2,3) by blast
next
  case (exec command r)
  then show ?thesis using runs_execute [OF assms(2), of env command] by simp
next
  case (exits status r)
  then show ?thesis using runs_halt [OF assms(2), of env status] by simp
next
  case (keyboard r)
  then show ?thesis using runs_keyboard [OF assms(2), of env] by simp
next
  case (timer r)
  then show ?thesis using runs_timer [OF assms(2), of sched env] by simp
qed (auto intro!: runs_cong [OF _ assms(2)]
    dest: sys_write_view sys_open_view sys_close_view getargs_view rtc_interrupt_view simp: vidmap_view)

text \<open>What the abstract steps keep: the shell at the bottom of a stack, and the number of slots.\<close>

lemma stack_step_last:
  assumes "stack_step st st'" and "st t \<noteq> []"
  shows "st' t \<noteq> [] \<and> last (st' t) = last (st t)"
  using assms(1)
proof cases
  case (start u i)
  then show ?thesis using assms(2) by (auto simp: push_proc_def)
next
  case (stop u)
  then obtain x y ys where "st u = x # y # ys" by (cases "st u"; cases "tl (st u)") auto
  then show ?thesis using assms(2) stop(1) by (auto simp: pop_proc_def)
qed

lemma stack_steps_last: "stack_step\<^sup>*\<^sup>* st st' \<Longrightarrow> st t \<noteq> [] \<Longrightarrow> st' t \<noteq> [] \<and> last (st' t) = last (st t)"
  by (induction rule: rtranclp_induct) (use stack_step_last in \<open>fastforce+\<close>)

lemma sys_steps_runs:
  assumes "(sys_step sched env)\<^sup>*\<^sup>* s s'" and "runs st s" and "\<And>n s s'. irqs env n s = Some s' \<Longrightarrow> runs st s \<Longrightarrow> runs st s'"
  shows "runs st s'"
  using assms(1)
proof (induction rule: rtranclp_induct)
  case (step t u)
  from sys_step_runs [OF step(2,3) assms(3)] show ?case by simp
qed (rule assms(2))

lemma procs_runs: "procs s st \<Longrightarrow> runs st s"
  by (auto simp: runs_def)

text \<open>After boot there is no process.\<close>

lemma boot_procs:
  assumes "curr_proc s = (\<lambda>_. 0)" "prev_proc s = (\<lambda>_. 0)" "curr_proc_id_mask s = 0" "curr_active_term s = 0"
  shows "procs s (\<lambda>_. [])"
  using assms by (simp add: procs_def running_def all_procs_def head_addr_def process_slots.in_use_def slot_used_def)

lemma demo_steps: "\<exists>s'. (sys_step sched demo_env)\<^sup>*\<^sup>* demo_kernel s' \<and> curr_proc s' 0 = pcb_addr 1"
proof -
  obtain s' where "execute demo_env 0x9000 demo_kernel = Some (Enter_user 0x08048020 s')"
    "started 1 0 (str ''x'') demo_kernel s'"
    using demo_runs by blast
  moreover have "sys_step sched demo_env demo_kernel s'"
    using sys_step.exec [OF calculation(1), of sched] by simp
  ultimately show ?thesis by (auto simp: started_def Let_def)
qed

section \<open>Properties\<close>





end
