(* ===== verification/Dma.thy ===== *)
theory Dma
  imports Machine
begin

text \<open>
  The DMA controllers, \<^verbatim>\<open>src/drivers/dma.c\<close>: each routine is a sequence of port writes. The
  channel is a number below 4 for the first controller; the others are meant for the second.
\<close>

definition DMA_O_MASK :: u16 where "DMA_O_MASK = 0x0A"

definition DMA_O_MODE :: u16 where "DMA_O_MODE = 0x0B"

definition DMA_O_CLER :: u16 where "DMA_O_CLER = 0x0C"

definition DMA_O_BASE :: u16 where "DMA_O_BASE = 0x00"

definition DMA_T_MASK :: u16 where "DMA_T_MASK = 0xD4"

definition DMA_T_MODE :: u16 where "DMA_T_MODE = 0xD6"

definition DMA_T_CLER :: u16 where "DMA_T_CLER = 0xD8"

definition DMA_T_BASE :: u16 where "DMA_T_BASE = 0xC0"

definition DMA_T_DMSK :: u8 where "DMA_T_DMSK = 0xFE"

text \<open>\<^verbatim>\<open>DMA_CHAN_0\<close> to \<^verbatim>\<open>DMA_CHAN_7\<close>, the page registers.\<close>

definition DMA_CHAN :: "u16 list" where
  "DMA_CHAN = [0x87, 0x83, 0x81, 0x82, 0x8F, 0x8B, 0x89, 0x8A]"

definition DMA_CHUNK :: nat where "DMA_CHUNK = 32 * 1024"

lemmas dma_ports = DMA_O_MASK_def DMA_O_MODE_def DMA_O_CLER_def DMA_O_BASE_def DMA_T_MASK_def DMA_T_MODE_def
  DMA_T_CLER_def DMA_T_BASE_def DMA_T_DMSK_def DMA_CHAN_def

section \<open>Operations\<close>

definition start_dma :: "u32 \<Rightarrow> 'a machine_scheme \<Rightarrow> 'a machine_scheme" where
  "start_dma d_data s =
     (if d_data < 4 then outb (ucast d_data) DMA_O_MASK s
      else outb (ucast (d_data AND 3)) DMA_T_MASK s)"

definition stop_dma :: "u32 \<Rightarrow> 'a machine_scheme \<Rightarrow> 'a machine_scheme" where
  "stop_dma d_data s =
     (if d_data < 4 then outb (ucast (d_data OR 4)) DMA_O_MASK s
      else outb (ucast ((d_data AND 3) OR 4)) DMA_T_MASK s)"

definition set_dma_mode :: "u32 \<Rightarrow> u8 \<Rightarrow> 'a machine_scheme \<Rightarrow> 'a machine_scheme" where
  "set_dma_mode d_data mode s =
     (if d_data < 4 then outb (ucast (ucast mode OR d_data)) DMA_O_MASK s
      else outb (ucast (ucast mode OR (d_data AND 3))) DMA_T_MASK s)"

text \<open>The switch on the channel, of which each of the two branches reaches one half.\<close>

definition page_port :: "u32 \<Rightarrow> u16 option" where
  "page_port d_data = (if d_data < 8 then Some (DMA_CHAN ! unat d_data) else None)"

definition set_dma_mem :: "u32 \<Rightarrow> u8 \<Rightarrow> 'a machine_scheme \<Rightarrow> 'a machine_scheme" where
  "set_dma_mem d_data m s =
     (if d_data < 4 then (case page_port d_data of None \<Rightarrow> s | Some p \<Rightarrow> outb m p s)
      else (case page_port d_data of None \<Rightarrow> s | Some p \<Rightarrow> outb (m OR DMA_T_DMSK) p s))"

definition clear_dma_regs :: "u32 \<Rightarrow> 'a machine_scheme \<Rightarrow> 'a machine_scheme" where
  "clear_dma_regs d_data s = (if d_data < 4 then outb 0 DMA_O_CLER s else outb 0 DMA_T_CLER s)"

definition set_dma_mem_addr :: "u32 \<Rightarrow> u32 \<Rightarrow> 'a machine_scheme \<Rightarrow> 'a machine_scheme" where
  "set_dma_mem_addr d_data addr s =
     (let s = set_dma_mem d_data (ucast (drop_bit 16 addr)) s
      in if d_data < 4 then
           let s = outb (ucast (addr AND 0xFF)) (ucast (push_bit 1 (d_data AND 3)) + DMA_O_BASE) s
           in outb (ucast (drop_bit 8 addr AND 0xFF)) (ucast (push_bit 1 (d_data AND 3)) + DMA_O_BASE) s
         else
           let s = outb (ucast (addr div 2 AND 0xFF)) (ucast (push_bit 2 (d_data AND 3)) + DMA_T_BASE) s
           in outb (ucast (drop_bit 8 (addr div 2) AND 0xFF)) (ucast (push_bit 2 (d_data AND 3)) + DMA_T_BASE) s)"

definition set_dma_rate :: "u32 \<Rightarrow> u32 \<Rightarrow> 'a machine_scheme \<Rightarrow> 'a machine_scheme" where
  "set_dma_rate d_data rate s =
     (let rate = rate - 1
      in if d_data < 4 then
           let s = outb (ucast (rate AND 0xFF)) (ucast (push_bit 1 (d_data AND 3)) + 1 + DMA_O_BASE) s
           in outb (ucast (drop_bit 8 rate AND 0xFF)) (ucast (push_bit 1 (d_data AND 3)) + 1 + DMA_O_BASE) s
         else
           let s = outb (ucast (rate div 2 AND 0xFF)) (ucast (push_bit 2 (d_data AND 3)) + 2 + DMA_T_BASE) s
           in outb (ucast (drop_bit 8 (rate div 2) AND 0xFF)) (ucast (push_bit 2 (d_data AND 3)) + 2 + DMA_T_BASE) s)"

definition init_dma :: "u8 \<Rightarrow> u32 \<Rightarrow> u32 \<Rightarrow> u8 \<Rightarrow> 'a machine_scheme \<Rightarrow> u32 \<times> 'a machine_scheme" where
  "init_dma channel addr nbytes mode s =
     (if channel > 9 then (-1, s)
      else
        let s = stop_dma (ucast channel) s;
            s = clear_dma_regs (ucast channel) s;
            s = set_dma_mode (ucast channel) mode s;
            s = set_dma_mem_addr (ucast channel) addr s;
            s = set_dma_rate (ucast channel) nbytes s;
            s = start_dma (ucast channel) s
        in (0, s))"

section \<open>What is written\<close>

text \<open>The bytes that a transfer of \<open>nbytes\<close> bytes at \<open>addr\<close> needs: page, offset and count less one.\<close>

definition dma_program :: "u8 \<Rightarrow> u32 \<Rightarrow> u32 \<Rightarrow> u8 \<Rightarrow> (u16 \<times> u8) list" where
  "dma_program c addr nbytes mode =
     [(DMA_O_MASK, c OR 4), (DMA_O_CLER, 0), (DMA_O_MASK, mode OR c),
      (DMA_CHAN ! unat c, ucast (drop_bit 16 addr)),
      (2 * ucast c, ucast addr), (2 * ucast c, ucast (drop_bit 8 addr)),
      (2 * ucast c + 1, ucast (nbytes - 1)), (2 * ucast c + 1, ucast (drop_bit 8 (nbytes - 1))),
      (DMA_O_MASK, c)]"

lemma low_byte: "(ucast ((x :: u32) AND 0xFF) :: u8) = ucast x"
proof -
  have m: "(0xFF :: u32) = mask 8" by (simp add: mask_eq_exp_minus_1)
  show ?thesis unfolding m by (rule bit_word_eqI) (auto simp: bit_simps)
qed

lemma first_channels: "(c :: u8) < 4 \<Longrightarrow> c = 0 \<or> c = 1 \<or> c = 2 \<or> c = 3"
proof -
  assume "c < 4"
  then have "unat c < 4" by (simp add: word_less_nat_alt)
  then have "unat c = 0 \<or> unat c = 1 \<or> unat c = 2 \<or> unat c = 3" by auto
  then show ?thesis by (auto simp: word_unat_eq_iff)
qed

lemma init_dma_first:
  assumes "c < 4"
  shows "init_dma c addr nbytes mode s = (0, s\<lparr>port_out := port_out s @ dma_program c addr nbytes mode\<rparr>)"
proof -
  have m: "(ucast (ucast mode OR k :: u32) :: u8) = mode OR ucast k" for k
    by (rule bit_word_eqI) (auto simp: bit_simps)
  show ?thesis
    using first_channels [OF assms]
    by (auto simp: init_dma_def Let_def stop_dma_def clear_dma_regs_def set_dma_mode_def set_dma_mem_addr_def
        set_dma_mem_def page_port_def set_dma_rate_def start_dma_def outb_def dma_program_def dma_ports low_byte m)
qed

section \<open>Properties\<close>

text \<open>Programming a channel of the first controller disables it, clears the byte pointer, writes
  the page, the offset and the count less one, low byte first, and enables it again; the mode
  byte goes to the mask register between them, and the mode register is never written, on
  any channel.\<close>

theorem init_dma_writes:
  assumes "c < 4"
  shows "init_dma c addr nbytes mode s = (0, s\<lparr>port_out := port_out s @ dma_program c addr nbytes mode\<rparr>)
    \<and> DMA_O_MODE \<notin> fst ` set (dma_program c addr nbytes mode)"
  using init_dma_first [OF assms] first_channels [OF assms] by (auto simp: dma_program_def dma_ports)

theorem init_dma_writes_witness:
  "\<forall>s :: machine. init_dma 1 0x12340 0x100 6 s = (0, s\<lparr>port_out := port_out s @
     [(0x0A, 5), (0x0C, 0), (0x0A, 7), (0x83, 1), (2, 0x40), (2, 0x23), (3, 0xFF), (3, 0), (0x0A, 1)]\<rparr>)"
proof -
  have "dma_program 1 0x12340 0x100 6 =
    [(0x0A, 5), (0x0C, 0), (0x0A, 7), (0x83, 1), (2, 0x40), (2, 0x23), (3, 0xFF), (3, 0), (0x0A, 1)]"
    by code_simp
  with init_dma_writes [of 1 "0x12340" "0x100" 6 "s :: machine" for s] show ?thesis by simp
qed

text \<open>
  On the second controller the page is combined with \<^verbatim>\<open>0xFE\<close> by OR, where AND would clear the
  bit that word addresses do not have: every page number becomes \<^verbatim>\<open>0xFE\<close> or \<^verbatim>\<open>0xFF\<close>.
\<close>

lemma set_dma_mem_second:
  assumes "4 \<le> d" "d < 8"
  shows "\<exists>p v. set_dma_mem d m s = outb v p s \<and> v \<in> {0xFE, 0xFF}"
proof -
  have "m OR 0xFE = (if bit m 0 then 0xFF else 0xFE)"
  proof -
    have "\<forall>k\<in>set [0..<256]. (word_of_nat k :: u8) OR 0xFE = (if bit (word_of_nat k :: u8) 0 then 0xFF else 0xFE)" by code_simp
    moreover have "unat m \<in> set [0..<256]" using unsigned_less [of m, where 'a = nat] by simp
    ultimately have "(word_of_nat (unat m) :: u8) OR 0xFE = (if bit (word_of_nat (unat m) :: u8) 0 then 0xFF else 0xFE)" by blast
    then show ?thesis by simp
  qed
  then show ?thesis using assms by (auto simp: set_dma_mem_def page_port_def DMA_T_DMSK_def not_less [symmetric])
qed

end
