(* ===== verification/Sound.thy ===== *)
theory Sound
  imports Dma Loader
begin

text \<open>
  The Sound Blaster driver, \<^verbatim>\<open>src/drivers/sound_blaster_16.c\<close>. Its own variables are a record
  beside the kernel's state; the address of its buffer \<^verbatim>\<open>d_buf\<close> and the value that the
  uninitialised local \<^verbatim>\<open>cmd\<close> of \<^verbatim>\<open>sound_blaster_play\<close> holds are parameters.
\<close>

record sb =
  sb_channel :: u8
  sb_mode :: u8
  sb_status :: u8
  sb_file :: i32
  fd_b_current :: u32

definition PLAYING :: u8 where "PLAYING = 1"

definition STOPPED :: u8 where "STOPPED = 0"

definition PAUSED :: u8 where "PAUSED = 2"

definition SB_PORT_OFFSET :: u16 where "SB_PORT_OFFSET = 0x220"

definition SB_STATUS_8BIT :: u8 where "SB_STATUS_8BIT = 0x2"

definition SB_STATUS_MONO :: u8 where "SB_STATUS_MONO = 0x8"

definition SB_STATUS_WRIT :: u8 where "SB_STATUS_WRIT = 0x80"

definition SB_STATUS_READ :: u8 where "SB_STATUS_READ = 0x80"

definition SB_STATUS_RATE :: u8 where "SB_STATUS_RATE = 0x41"

definition SB_DSP_STOP_8B :: u8 where "SB_DSP_STOP_8B = 0xD0"

definition SB_DSP_STOP_16 :: u8 where "SB_DSP_STOP_16 = 0xD5"

definition SB_DSP_STPA_8B :: u8 where "SB_DSP_STPA_8B = 0xDA"

definition SB_DSP_STPA_16 :: u8 where "SB_DSP_STPA_16 = 0xD9"

definition SB_DSP_PLAY_8B :: u8 where "SB_DSP_PLAY_8B = 0xC0"

definition SB_DSP_PLAY_16 :: u8 where "SB_DSP_PLAY_16 = 0xB0"

definition SB_DSP_PAUS_8B :: u8 where "SB_DSP_PAUS_8B = 0xD0"

definition SB_DSP_PAUS_16 :: u8 where "SB_DSP_PAUS_16 = 0xD5"

definition SB_DSP_RESM_8B :: u8 where "SB_DSP_RESM_8B = 0xD4"

definition SB_DSP_RESM_16 :: u8 where "SB_DSP_RESM_16 = 0xD6"

definition SB_DSP_PLAY_AI :: u8 where "SB_DSP_PLAY_AI = 0x06"

definition SB_DSP_PLAY_SN :: u8 where "SB_DSP_PLAY_SN = 0x10"

definition SB_DSP_PLAY_MN :: u8 where "SB_DSP_PLAY_MN = 0x00"

definition SB_DSP_RSET_PT :: u16 where "SB_DSP_RSET_PT = 0x6"

definition SB_DSP_READ_PT :: u16 where "SB_DSP_READ_PT = 0xA"

definition SB_DSP_WRTE_PT :: u16 where "SB_DSP_WRTE_PT = 0xC"

definition SB_DSP_RDST_PT :: u16 where "SB_DSP_RDST_PT = 0xE"

definition SB_DSP_WRST_PT :: u16 where "SB_DSP_WRST_PT = 0xC"

definition SB_DSP_INT_ACK :: u16 where "SB_DSP_INT_ACK = 0xF"

lemmas sb_ports = SB_PORT_OFFSET_def SB_DSP_RSET_PT_def SB_DSP_READ_PT_def SB_DSP_WRTE_PT_def SB_DSP_RDST_PT_def
  SB_DSP_WRST_PT_def SB_DSP_INT_ACK_def

lemmas sb_values = PLAYING_def STOPPED_def PAUSED_def SB_STATUS_8BIT_def SB_STATUS_MONO_def SB_STATUS_WRIT_def SB_STATUS_READ_def
  SB_STATUS_RATE_def SB_DSP_PLAY_8B_def SB_DSP_PLAY_16_def SB_DSP_PLAY_AI_def SB_DSP_PLAY_SN_def SB_DSP_PLAY_MN_def
  SB_DSP_STPA_8B_def SB_DSP_STPA_16_def

section \<open>The signal processor\<close>

definition dsp_write :: "u8 \<Rightarrow> 'a machine_scheme \<Rightarrow> 'a machine_scheme option" where
  "dsp_write d s =
     map_option (outb d (SB_DSP_WRTE_PT + SB_PORT_OFFSET))
       (inb_until (\<lambda>v. v AND SB_STATUS_WRIT = 0) (SB_DSP_WRST_PT + SB_PORT_OFFSET) s)"

definition dsp_read :: "'a machine_scheme \<Rightarrow> (u8 \<times> 'a machine_scheme) option" where
  "dsp_read s =
     map_option (inb (SB_DSP_READ_PT + SB_PORT_OFFSET))
       (inb_until (\<lambda>v. v AND SB_STATUS_READ \<noteq> 0) (SB_DSP_WRST_PT + SB_PORT_OFFSET) s)"

definition sound_blaster_reset :: "'a console_scheme \<Rightarrow> 'a console_scheme option" where
  "sound_blaster_reset s =
     (let s = outb 1 (SB_PORT_OFFSET + SB_DSP_RSET_PT) s;
          s = outb 0 (SB_PORT_OFFSET + SB_DSP_RSET_PT) s
      in Option.bind (printf (\<lambda>_. 0) (arr (str ''%s'' @ [10, 0])) [Ptr (lit ''WAITING FOR SB CLEAR'')] s) (\<lambda>(_, s).
         Option.bind (inb_until (\<lambda>v. v AND 0x80 \<noteq> 0) (SB_PORT_OFFSET + SB_DSP_RDST_PT) s) (\<lambda>s.
         Option.bind (printf (\<lambda>_. 0) (arr (str ''%s'' @ [10, 0])) [Ptr (lit ''WAITING FOR SB READ'')] s) (\<lambda>(_, s).
         inb_until (\<lambda>v. v = 0xAA) (SB_PORT_OFFSET + SB_DSP_READ_PT) s))))"

definition init_sound_blaster :: "sb \<Rightarrow> 'a console_scheme \<Rightarrow> (sb \<times> 'a console_scheme) option" where
  "init_sound_blaster d s =
     (let d = d\<lparr>sb_channel := 1\<rparr>; d = d\<lparr>sb_mode := 0\<rparr>; d = d\<lparr>sb_status := STOPPED\<rparr>
      in map_option (Pair d) (sound_blaster_reset s))"

section \<open>Playing\<close>

definition sound_blaster_play :: "u8 \<Rightarrow> u32 \<Rightarrow> sb \<Rightarrow> 'a machine_scheme \<Rightarrow> 'a machine_scheme option" where
  "sound_blaster_play cmd nbytes d s =
     (let s_block = ucast nbytes :: u16;
          cmd = (if sb_mode d AND SB_STATUS_8BIT \<noteq> 0 then cmd OR SB_DSP_PLAY_8B else cmd OR SB_DSP_PLAY_16);
          cmd = cmd OR SB_DSP_PLAY_AI
      in Option.bind (dsp_write cmd s) (\<lambda>s.
         let md = 0;
             md = (if sb_mode d AND SB_STATUS_MONO \<noteq> 0 then md OR SB_DSP_PLAY_MN else md OR SB_DSP_PLAY_SN)
         in Option.bind (dsp_write md s) (\<lambda>s.
            let s_block = s_block - 1
            in Option.bind (dsp_write (ucast (s_block AND 0xFF)) s)
                 (dsp_write (ucast (drop_bit 8 s_block AND 0xFF))))))"

definition sound_blaster_pause :: "sb \<Rightarrow> 'a machine_scheme \<Rightarrow> (i32 \<times> 'a machine_scheme) option" where
  "sound_blaster_pause d s =
     (if sb_status d \<noteq> PLAYING then Some (-1, s)
      else map_option (Pair 0)
        (if sb_mode d AND SB_STATUS_8BIT \<noteq> 0 then dsp_write SB_DSP_PAUS_8B s else dsp_write SB_DSP_PAUS_16 s))"

definition sound_blaster_resume :: "sb \<Rightarrow> 'a machine_scheme \<Rightarrow> (i32 \<times> 'a machine_scheme) option" where
  "sound_blaster_resume d s =
     (if sb_status d \<noteq> PAUSED then Some (-1, s)
      else map_option (Pair 0)
        (if sb_mode d AND SB_STATUS_8BIT \<noteq> 0 then dsp_write SB_DSP_RESM_8B s else dsp_write SB_DSP_RESM_16 s))"

definition sound_blaster_stop :: "sb \<Rightarrow> 'a machine_scheme \<Rightarrow> (i32 \<times> 'a machine_scheme) option" where
  "sound_blaster_stop d s =
     (if sb_status d \<noteq> PLAYING \<or> sb_status d \<noteq> PAUSED then Some (-1, s)
      else map_option (Pair 0)
        (if sb_mode d AND SB_STATUS_8BIT \<noteq> 0 then dsp_write SB_DSP_STOP_8B s else dsp_write SB_DSP_STOP_16 s))"

definition sound_blaster_stop_op :: "sb \<Rightarrow> 'a machine_scheme \<Rightarrow> (i32 \<times> 'a machine_scheme) option" where
  "sound_blaster_stop_op d s =
     map_option (Pair 0)
       (if sb_mode d AND SB_STATUS_8BIT \<noteq> 0 then dsp_write SB_DSP_STPA_8B s else dsp_write SB_DSP_STPA_16 s)"

definition sound_blaster_clear_mem ::
  "'a kernel_scheme env \<Rightarrow> u32 \<Rightarrow> sb \<Rightarrow> 'a kernel_scheme \<Rightarrow> (sb \<times> 'a kernel_scheme) option" where
  "sound_blaster_clear_mem env d_buf d s =
     (let d = d\<lparr>sb_status := STOPPED\<rparr>;
          d = d\<lparr>fd_b_current := d_buf\<rparr>;
          s = fold (\<lambda>i. poke (d_buf + of_nat i) 0) [0..<DMA_CHUNK * 2] s
      in map_option (\<lambda>(_, s). (d, s)) (sys_close env (sb_file d) s))"

definition sound_blaster_set_sample_rate :: "u16 \<Rightarrow> 'a machine_scheme \<Rightarrow> (i32 \<times> 'a machine_scheme) option" where
  "sound_blaster_set_sample_rate rate s =
     Option.bind (dsp_write SB_STATUS_RATE s) (\<lambda>s.
     Option.bind (dsp_write (ucast (drop_bit 8 rate AND 0xFF)) s) (\<lambda>s.
     map_option (Pair 0) (dsp_write (ucast (rate AND 0xFF)) s)))"

definition sound_blaster_play_test ::
  "u32 \<Rightarrow> u8 \<Rightarrow> sb \<Rightarrow> 'a console_scheme \<Rightarrow> (sb \<times> 'a console_scheme) option" where
  "sound_blaster_play_test d_buf cmd d s =
     (let d = d\<lparr>sb_status := PLAYING\<rparr>;
          d = d\<lparr>sb_mode := sb_mode d OR SB_STATUS_8BIT\<rparr>;
          d = d\<lparr>sb_channel := 1\<rparr>
      in Option.bind (sound_blaster_set_sample_rate 22050 s) (\<lambda>(_, s).
         let s = fold (\<lambda>i s. let (r, s) = rand s in poke (d_buf + of_nat i) (ucast (r mod 10824 + 1)) s) [0..<DMA_CHUNK * 2] s;
             (_, s) = init_dma (sb_channel d) d_buf (of_nat (DMA_CHUNK * 2)) SB_DSP_PLAY_AI s
         in map_option (Pair d) (sound_blaster_play cmd (ucast (of_nat DMA_CHUNK :: u16)) d s)))"

section \<open>The interrupt handler\<close>

text \<open>Refilling the half of the buffer that was played, from the file.\<close>

definition sound_refill ::
  "'a kernel_scheme env \<Rightarrow> u32 \<Rightarrow> u8 \<Rightarrow> sb \<Rightarrow> 'a kernel_scheme \<Rightarrow> (sb \<times> 'a kernel_scheme) option" where
  "sound_refill env d_buf cmd d s =
     Option.bind (sys_read env (sb_file d) (fd_b_current d) (of_nat DMA_CHUNK) s) (\<lambda>(b_read, s).
       if b_read \<noteq> 0 then
         let fd_b_size = ucast b_read :: u16 in
         Option.bind
           (if b_read < of_nat DMA_CHUNK then
              Option.bind (sound_blaster_stop_op d s) (\<lambda>(_, s). sound_blaster_clear_mem env d_buf d s)
            else Some (d, s)) (\<lambda>(d, s).
         let d = (if fd_b_current d = d_buf then d\<lparr>fd_b_current := d_buf + of_nat DMA_CHUNK\<rparr> else d\<lparr>fd_b_current := d_buf\<rparr>)
         in map_option (Pair d) (sound_blaster_play cmd (ucast fd_b_size) d s))
       else
         Option.bind (sound_blaster_clear_mem env d_buf d s) (\<lambda>(d, s).
           map_option (\<lambda>(_, s). (d, s)) (sound_blaster_stop d s)))"

definition sound_balster_irq_handler ::
  "'a kernel_scheme env \<Rightarrow> u32 \<Rightarrow> u8 \<Rightarrow> sb \<Rightarrow> 'a kernel_scheme \<Rightarrow> (sb \<times> 'a kernel_scheme) option" where
  "sound_balster_irq_handler env d_buf cmd d s =
     (let (flags, s) = cli_and_save s in
      Option.bind (if sb_status d \<noteq> 0 then sound_refill env d_buf cmd d s else Some (d, s)) (\<lambda>(d, s).
        let s = snd (inb (SB_DSP_RDST_PT + SB_PORT_OFFSET) s);
            s = snd (inb (SB_DSP_INT_ACK + SB_PORT_OFFSET) s);
            s = send_eoi 5 s
        in Some (d, restore_flags flags s)))"

section \<open>A card that answers\<close>

text \<open>The write status of the processor is clear again and again.\<close>

definition dsp_ready :: "'a machine_scheme \<Rightarrow> bool" where
  "dsp_ready s \<longleftrightarrow> (\<forall>n. \<exists>k\<ge>n. port_in s k (SB_DSP_WRST_PT + SB_PORT_OFFSET) AND SB_STATUS_WRIT = 0)"

text \<open>Bytes are written after some reads, and nothing else happens.\<close>

definition sent :: "'a machine_scheme \<Rightarrow> (u16 \<times> u8) list \<Rightarrow> 'a machine_scheme \<Rightarrow> bool" where
  "sent s ds t \<longleftrightarrow> (\<exists>k. t = s\<lparr>in_count := k, port_out := port_out s @ ds\<rparr>)"

lemma sent_trans: "sent s ds t \<Longrightarrow> sent t es u \<Longrightarrow> sent s (ds @ es) u"
  by (auto simp: sent_def)

lemma sent_ready: "sent s ds t \<Longrightarrow> dsp_ready s \<Longrightarrow> dsp_ready t"
  by (auto simp: sent_def dsp_ready_def)

lemma dsp_write_sends:
  assumes "dsp_ready s"
  shows "\<exists>t. dsp_write v s = Some t \<and> sent s [(0x22C, v)] t"
proof -
  let ?P = "\<lambda>v. v AND SB_STATUS_WRIT = 0" and ?p = "SB_DSP_WRST_PT + SB_PORT_OFFSET"
  obtain k where "k \<ge> in_count s" "?P (port_in s k ?p)" using assms unfolding dsp_ready_def by blast
  then have "?P (port_in s (in_count s + (k - in_count s)) ?p)" by simp
  from inb_until_returns [where P = ?P and port = ?p, OF this] show ?thesis
    by (auto simp: dsp_write_def sent_def outb_def sb_ports)
qed

lemma dsp_write_then:
  assumes "sent s ds t" and "dsp_ready s"
  shows "\<exists>u. dsp_write v t = Some u \<and> sent s (ds @ [(0x22C, v)]) u"
  using dsp_write_sends [OF sent_ready [OF assms], of v] sent_trans [OF assms(1)] by blast

definition dsp_block :: "u8 \<Rightarrow> u32 \<Rightarrow> sb \<Rightarrow> (u16 \<times> u8) list" where
  "dsp_block cmd nbytes d =
     (let n = ucast nbytes - 1 :: u16 in map (Pair 0x22C)
       [cmd OR (if sb_mode d AND 2 \<noteq> 0 then 0xC6 else 0xB6), if sb_mode d AND 8 \<noteq> 0 then 0 else 0x10,
        ucast n, ucast (drop_bit 8 n)])"

lemma low_byte16: "(ucast ((x :: u16) AND 0xFF) :: u8) = ucast x"
proof -
  have m: "(0xFF :: u16) = mask 8" by (simp add: mask_eq_exp_minus_1)
  show ?thesis unfolding m by (rule bit_word_eqI) (auto simp: bit_simps)
qed

lemma play_sends:
  assumes "dsp_ready s"
  shows "\<exists>t. sound_blaster_play cmd nbytes d s = Some t \<and> sent s (dsp_block cmd nbytes d) t"
proof -
  have "sent s [] s" by (auto simp: sent_def intro: exI [of _ "in_count s"])
  note then_write = dsp_write_then [OF _ assms]
  define c where "c = (if sb_mode d AND SB_STATUS_8BIT \<noteq> 0 then cmd OR SB_DSP_PLAY_8B else cmd OR SB_DSP_PLAY_16) OR SB_DSP_PLAY_AI"
  define m where "m = (if sb_mode d AND SB_STATUS_MONO \<noteq> 0 then 0 OR SB_DSP_PLAY_MN else 0 OR SB_DSP_PLAY_SN)"
  let ?n = "ucast nbytes - 1 :: u16"
  obtain s1 where s1: "dsp_write c s = Some s1" "sent s ([] @ [(0x22C, c)]) s1" using then_write [OF \<open>sent s [] s\<close>] by blast
  obtain s2 where s2: "dsp_write m s1 = Some s2" "sent s (([] @ [(0x22C, c)]) @ [(0x22C, m)]) s2" using then_write [OF s1(2)] by blast
  obtain s3 where s3: "dsp_write (ucast ?n) s2 = Some s3"
    "sent s ((([] @ [(0x22C, c)]) @ [(0x22C, m)]) @ [(0x22C, ucast ?n)]) s3" using then_write [OF s2(2)] by blast
  obtain s4 where s4: "dsp_write (ucast (drop_bit 8 ?n)) s3 = Some s4"
    "sent s (((([] @ [(0x22C, c)]) @ [(0x22C, m)]) @ [(0x22C, ucast ?n)]) @ [(0x22C, ucast (drop_bit 8 ?n))]) s4"
    using then_write [OF s3(2)] by blast
  have "sound_blaster_play cmd nbytes d s = Some s4"
    unfolding sound_blaster_play_def Let_def c_def [symmetric] m_def [symmetric]
    by (simp add: s1(1) s2(1) s3(1) s4(1) low_byte16)
  moreover have "dsp_block cmd nbytes d = (((([] @ [(0x22C, c)]) @ [(0x22C, m)]) @ [(0x22C, ucast ?n)]) @ [(0x22C, ucast (drop_bit 8 ?n))])"
    by (simp add: dsp_block_def Let_def c_def m_def sb_values or.assoc)
  ultimately show ?thesis using s4(2) by simp
qed

section \<open>A card that does not\<close>

lemma inb_until_Some: "inb_until P port s = Some t \<Longrightarrow> \<exists>n. P (port_in s n port)"
proof (rule inb_until.raw_induct [of "\<lambda>((P, port), s) t. \<exists>n. P (port_in s n port)", unfolded split])
  fix r :: "(u8 \<Rightarrow> bool) \<Rightarrow> u16 \<Rightarrow> 'a machine_scheme \<Rightarrow> 'a machine_scheme option" and P p s s'
  assume IH: "\<And>P p s s'. r P p s = Some s' \<Longrightarrow> \<exists>n. P (port_in s n p)"
    and r: "(if P (fst (inb p s)) then Some (snd (inb p s)) else r P p (snd (inb p s))) = Some s'"
  show "\<exists>n. P (port_in s n p)"
  proof (cases "P (fst (inb p s))")
    case True
    then show ?thesis by (auto simp: inb_def)
  next
    case False
    with r IH [of P p "snd (inb p s)" s'] show ?thesis by (simp add: inb_def)
  qed
qed

lemma terminal_wait_ready_after: "terminal_wait q n s = Some s' \<Longrightarrow> read_buf_ready s' (unat (curr_active_term s')) \<noteq> 0"
  by (rule terminal_wait.raw_induct [of "\<lambda>q n s s'. read_buf_ready s' (unat (curr_active_term s')) \<noteq> 0"])
     (auto simp: bind_eq_Some_conv get_curr_running_term_proc_def split: if_splits)

text \<open>With interrupts off no key arrives.\<close>

lemma terminal_wait_stuck:
  assumes "\<And>n s. \<not> int_flag s \<Longrightarrow> q n s = Some s" and "read_buf_ready s (unat (curr_active_term s)) = 0" "\<not> int_flag s"
  shows "terminal_wait q n s = None"
proof (cases "terminal_wait q n s")
  case (Some s')
  have "read_buf_ready s' (unat (curr_active_term s')) = 0 \<and> \<not> int_flag s'"
    by (rule terminal_wait_keeps [OF Some]) (use assms in auto)
  with terminal_wait_ready_after [OF Some] show ?thesis by simp
qed simp

lemma printf_line:
  assumes "cstr p xs"
  shows "\<exists>n t. printf junk (arr (str ''%s'' @ [10, 0])) [Ptr p] s = Some (n, t) \<and> console_frame s t"
proof -
  have c: "str ''%s'' @ [10] = [37, 115, 10]" "0 \<notin> set (str ''%s'' @ [10])" by code_simp+
  have "cstr (arr (str ''%s'' @ [10, 0])) (str ''%s'' @ [10])" using cstr_arr [OF c(2), of "[]"] by simp
  moreover have "format_text None (str ''%s'' @ [10]) [TStr xs] = Some (xs @ [10])"
  proof -
    have "chr CHR ''%'' = 37" "chr CHR ''s'' = 115" "chr CHR ''#'' = 35" "chr CHR ''x'' = 120" "chr CHR ''u'' = 117"
      "chr CHR ''d'' = 100" "chr CHR ''c'' = 99" by code_simp+
    then show ?thesis unfolding c(1) by (simp add: conv_text_def)
  qed
  moreover have "list_all2 denotes [Ptr p] [TStr xs]" using assms by simp
  ultimately show ?thesis using printf_returns [of "arr (str ''%s'' @ [10, 0])" _ "[TStr xs]" _ "[Ptr p]" junk s] by blast
qed

lemma sb_message:
  "\<exists>xs. cstr (lit ''WAITING FOR SB CLEAR'') xs" "\<exists>xs. cstr (lit ''WAITING FOR SB READ'') xs"
proof -
  have "0 \<notin> set (str ''WAITING FOR SB CLEAR'')" "0 \<notin> set (str ''WAITING FOR SB READ'')" by code_simp+
  then show "\<exists>xs. cstr (lit ''WAITING FOR SB CLEAR'') xs" "\<exists>xs. cstr (lit ''WAITING FOR SB READ'') xs"
    using cstr_lit by blast+
qed

lemma reset_needs_card:
  assumes "sound_blaster_reset s = Some t"
  shows "\<exists>n. port_in s n 0x22A = 0xAA"
proof -
  obtain xs ys where m: "cstr (lit ''WAITING FOR SB CLEAR'') xs" "cstr (lit ''WAITING FOR SB READ'') ys"
    using sb_message by blast
  define s0 where "s0 = outb 0 (SB_PORT_OFFSET + SB_DSP_RSET_PT) (outb 1 (SB_PORT_OFFSET + SB_DSP_RSET_PT) s)"
  obtain n1 s1 where s1: "printf (\<lambda>_. 0) (arr (str ''%s'' @ [10, 0])) [Ptr (lit ''WAITING FOR SB CLEAR'')] s0 = Some (n1, s1)"
    "console_frame s0 s1" using printf_line [OF m(1)] by blast
  obtain s2 where s2: "inb_until (\<lambda>v. v AND 0x80 \<noteq> 0) (SB_PORT_OFFSET + SB_DSP_RDST_PT) s1 = Some s2"
    using assms by (auto simp: sound_blaster_reset_def Let_def s0_def [symmetric] s1(1) bind_eq_Some_conv)
  obtain n3 s3 where s3: "printf (\<lambda>_. 0) (arr (str ''%s'' @ [10, 0])) [Ptr (lit ''WAITING FOR SB READ'')] s2 = Some (n3, s3)"
    "console_frame s2 s3" using printf_line [OF m(2)] by blast
  have "inb_until (\<lambda>v. v = 0xAA) 0x22A s3 = Some t"
    using assms by (simp add: sound_blaster_reset_def Let_def s0_def [symmetric] s1(1) s2 s3(1)) (simp add: sb_ports)
  from inb_until_Some [OF this] have "\<exists>n. port_in s3 n 0x22A = 0xAA" .
  moreover have "port_in s3 = port_in s"
    using s1(2) s3(2) inb_until_count [OF s2] by (auto simp: console_frame_def s0_def dest!: arg_cong [of _ _ port_in])
  ultimately show ?thesis by simp
qed

section \<open>The test sound\<close>

text \<open>Only the bytes at \<open>n\<close> offsets from the address of the buffer and the random state change.\<close>

lemma random_fill:
  defines "f \<equiv> \<lambda>p i s. let (r, s) = rand s in poke (p + of_nat i) (ucast (r mod 10824 + 1)) s"
  shows "\<exists>m l b. fold (f p) [0..<n] s = s\<lparr>mem := m, lfsr := l, lfsr_bit := b\<rparr> \<and> (\<forall>a. a \<notin> rng p n \<longrightarrow> m a = mem s a)"
proof (induction n)
  case 0
  show ?case by (auto intro!: exI [of _ "mem s"] exI [of _ "lfsr s"] exI [of _ "lfsr_bit s"])
next
  case (Suc n)
  then obtain m l b where "fold (f p) [0..<n] s = s\<lparr>mem := m, lfsr := l, lfsr_bit := b\<rparr>" "\<forall>a. a \<notin> rng p n \<longrightarrow> m a = mem s a"
    by blast
  moreover have "rng p n \<subseteq> rng p (Suc n)" "p + of_nat n \<in> rng p (Suc n)"
    using rng_mono [of n "Suc n" p] take_bit_nat_less_eq_self [of 32 n] by (auto simp: unsigned_of_nat less_Suc_eq_le)
  moreover obtain v l' b' where "f p n (s\<lparr>mem := m, lfsr := l, lfsr_bit := b\<rparr>) = s\<lparr>mem := m(p + of_nat n := v), lfsr := l', lfsr_bit := b'\<rparr>"
  proof -
    let ?t = "s\<lparr>mem := m, lfsr := l, lfsr_bit := b\<rparr>"
    have "poke a v (?t\<lparr>lfsr_bit := b', lfsr := l'\<rparr>) = s\<lparr>mem := m(a := v), lfsr := l', lfsr_bit := b'\<rparr>" for a v b' l'
      by (cases s) (simp add: poke_def)
    then have "f p n ?t = s\<lparr>mem := m(p + of_nat n := ucast (fst (rand ?t) mod 10824 + 1)),
        lfsr := lfsr (snd (rand ?t)), lfsr_bit := lfsr_bit (snd (rand ?t))\<rparr>"
      unfolding f_def rand_def Let_def prod.case fst_conv snd_conv by simp
    then show ?thesis by (rule that)
  qed
  ultimately show ?case by (intro exI [of _ "m(p + of_nat n := v)"] exI [of _ l'] exI [of _ b']) (auto simp: fun_upd_def)
qed

lemma play_test_sends:
  assumes "dsp_ready s"
  shows "\<exists>t. sound_blaster_play_test d_buf cmd d s = Some (d\<lparr>sb_status := 1, sb_mode := sb_mode d OR 2, sb_channel := 1\<rparr>, t)
    \<and> port_out t = port_out s @ map (Pair 0x22C) [0x41, 0x56, 0x22] @ dma_program 1 d_buf 0x10000 6 @
        dsp_block cmd 0x8000 (d\<lparr>sb_mode := sb_mode d OR 2\<rparr>)
    \<and> (\<forall>a. a \<notin> rng d_buf 65536 \<longrightarrow> mem t a = mem s a)
    \<and> (\<exists>m l b k out. t = s\<lparr>mem := m, lfsr := l, lfsr_bit := b, in_count := k, port_out := out\<rparr>)"
proof -
  let ?d = "d\<lparr>sb_status := 1, sb_mode := sb_mode d OR 2, sb_channel := 1\<rparr>"
  note then_write = dsp_write_then [OF _ assms]
  have "sent s [] s" by (auto simp: sent_def intro: exI [of _ "in_count s"])
  obtain s1 where s1: "dsp_write 0x41 s = Some s1" "sent s ([] @ [(0x22C, 0x41)]) s1" using then_write [OF \<open>sent s [] s\<close>] by blast
  obtain s2 where s2: "dsp_write 0x56 s1 = Some s2" "sent s (([] @ [(0x22C, 0x41)]) @ [(0x22C, 0x56)]) s2" using then_write [OF s1(2)] by blast
  obtain s3 where s3: "dsp_write 0x22 s2 = Some s3" "sent s ((([] @ [(0x22C, 0x41)]) @ [(0x22C, 0x56)]) @ [(0x22C, 0x22)]) s3"
    using then_write [OF s2(2)] by blast
  have "(ucast (drop_bit 8 22050 AND 0xFF :: u16) :: u8) = 0x56" "(ucast (22050 AND 0xFF :: u16) :: u8) = 0x22" by code_simp+
  then have rate: "sound_blaster_set_sample_rate 22050 s = Some (0, s3)"
    by (simp add: sound_blaster_set_sample_rate_def s1(1) s2(1) s3(1) sb_values)
  obtain m l b where fill: "fold (\<lambda>i s. let (r, s) = rand s in poke (d_buf + of_nat i) (ucast (r mod 10824 + 1)) s) [0..<65536] s3 =
      s3\<lparr>mem := m, lfsr := l, lfsr_bit := b\<rparr>" "\<forall>a. a \<notin> rng d_buf 65536 \<longrightarrow> m a = mem s3 a"
    using random_fill [of d_buf 65536 s3] by blast
  define s5 where "s5 = s3\<lparr>mem := m, lfsr := l, lfsr_bit := b, port_out := port_out s3 @ dma_program 1 d_buf 0x10000 6\<rparr>"
  have "(1 :: u8) < 4" by simp
  from init_dma_first [OF this, of d_buf "0x10000" 6 "s3\<lparr>mem := m, lfsr := l, lfsr_bit := b\<rparr>"]
  have dma: "init_dma 1 d_buf 0x10000 6 (s3\<lparr>mem := m, lfsr := l, lfsr_bit := b\<rparr>) = (0, s5)" by (simp add: s5_def)
  have "dsp_ready s5" using sent_ready [OF s3(2) assms] by (simp add: dsp_ready_def s5_def)
  from play_sends [OF this, of cmd "0x8000" ?d] obtain s6 where
    s6: "sound_blaster_play cmd 0x8000 ?d s5 = Some s6" "sent s5 (dsp_block cmd 0x8000 ?d) s6" by blast
  have c: "DMA_CHUNK * 2 = 65536" "of_nat 65536 = (0x10000 :: u32)" "ucast (of_nat DMA_CHUNK :: u16) = (0x8000 :: u32)"
    by (simp_all add: DMA_CHUNK_def)
  have "sound_blaster_play_test d_buf cmd d s = Some (?d, s6)"
    unfolding sound_blaster_play_test_def Let_def PLAYING_def SB_STATUS_8BIT_def SB_DSP_PLAY_AI_def rate c
    using fill(1) dma s6(1) by (simp add: Let_def)
  moreover have "port_out s6 = port_out s @ map (Pair 0x22C) [0x41, 0x56, 0x22] @ dma_program 1 d_buf 0x10000 6 @
      dsp_block cmd 0x8000 (d\<lparr>sb_mode := sb_mode d OR 2\<rparr>)"
    using s3(2) s6(2) by (auto simp: sent_def s5_def dsp_block_def Let_def)
  moreover have "\<forall>a. a \<notin> rng d_buf 65536 \<longrightarrow> mem s6 a = mem s a"
    using s3(2) s6(2) fill(2) by (auto simp: sent_def s5_def)
  moreover have "\<exists>m l b k out. s6 = s\<lparr>mem := m, lfsr := l, lfsr_bit := b, in_count := k, port_out := out\<rparr>"
  proof -
    obtain k out where "s3 = s\<lparr>in_count := k, port_out := out\<rparr>" using s3(2) by (auto simp: sent_def)
    moreover obtain k' out' where "s6 = s5\<lparr>in_count := k', port_out := out'\<rparr>" using s6(2) by (auto simp: sent_def)
    ultimately have "s6 = s\<lparr>mem := m, lfsr := l, lfsr_bit := b, in_count := k', port_out := out'\<rparr>" by (simp add: s5_def)
    then show ?thesis by blast
  qed
  ultimately show ?thesis by blast
qed

section \<open>Properties\<close>

text \<open>With a card that answers, the test sound sets a rate of 22050 (\<^verbatim>\<open>0x5622\<close>), programs channel 1
  for the whole buffer of 64 KB and starts blocks of 32 KB; only the buffer is written. The
  command byte has whatever bits the uninitialised \<^verbatim>\<open>cmd\<close> had.\<close>

theorem sound_test_programs_card:
  assumes "dsp_ready s" and "sb_mode d = 0"
  shows "\<exists>d' t. sound_blaster_play_test d_buf cmd d s = Some (d', t) \<and> sb_status d' = PLAYING
    \<and> port_out t = port_out s @ [(0x22C, 0x41), (0x22C, 0x56), (0x22C, 0x22)] @ dma_program 1 d_buf 0x10000 6 @
        [(0x22C, cmd OR 0xC6), (0x22C, 0x10), (0x22C, 0xFF), (0x22C, 0x7F)]
    \<and> (\<forall>a. a \<notin> rng d_buf 65536 \<longrightarrow> mem t a = mem s a)"
proof -
  have "dsp_block cmd 0x8000 (d\<lparr>sb_mode := sb_mode d OR 2\<rparr>) = [(0x22C, cmd OR 0xC6), (0x22C, 0x10), (0x22C, 0xFF), (0x22C, 0x7F)]"
    using assms(2) by (simp add: dsp_block_def Let_def)
  with play_test_sends [OF assms(1), of d_buf cmd d] show ?thesis by (auto simp: PLAYING_def)
qed

definition demo_card :: console where
  "demo_card = demo_console\<lparr>port_in := \<lambda>_ _. 0\<rparr>"

theorem sound_test_programs_card_witness:
  "\<exists>d' t. sound_blaster_play_test 0x100000 0 \<lparr>sb_channel = 1, sb_mode = 0, sb_status = 0, sb_file = 0, fd_b_current = 0x100000\<rparr>
     demo_card = Some (d', t) \<and> sb_status d' = 1 \<and> last (port_out t) = (0x22C, 0x7F)"
proof -
  have "dsp_ready demo_card" by (auto simp: dsp_ready_def demo_card_def)
  from sound_test_programs_card [OF this, of "\<lparr>sb_channel = 1, sb_mode = 0, sb_status = 0, sb_file = 0, fd_b_current = 0x100000\<rparr>" "0x100000" 0]
  show ?thesis by (auto simp: PLAYING_def)
qed

text \<open>Without a card there is no boot: \<^verbatim>\<open>init_sound_blaster\<close> returns only if the read port gives
  \<^verbatim>\<open>0xAA\<close> at some time.\<close>

theorem init_sound_blaster_needs_card:
  assumes "\<forall>n. port_in s n 0x22A \<noteq> 0xAA"
  shows "init_sound_blaster d s = None"
proof (cases "sound_blaster_reset s")
  case (Some t)
  with reset_needs_card assms show ?thesis by blast
qed (simp add: init_sound_blaster_def)

theorem init_sound_blaster_needs_card_witness:
  "\<forall>d. init_sound_blaster d (demo_console\<lparr>port_in := \<lambda>_ _. 0xFF\<rparr>) = None"
  using init_sound_blaster_needs_card [of "demo_console\<lparr>port_in := \<lambda>_ _. 0xFF\<rparr>"] by simp

text \<open>C33: the variable \<^verbatim>\<open>file\<close> is never assigned, so that the handler refills its buffer from descriptor 0. If
  the running process has its terminal there and no line is ready, the wait for the line is
  with interrupts off, in which no key arrives, and the handler does not return.\<close>

theorem sound_irq_waits_forever:
  assumes "sb_status d = PLAYING" "sb_file d = 0" "fd_b_current d \<noteq> 0"
    and "cur_pcb s = Some p" "fd_flags (fds p 0) = 1" "operations_pointer (fds p 0) = Some Stdin_ops"
    and "read_buf_ready s (unat (curr_active_term s)) = 0"
    and "\<And>n s. \<not> int_flag s \<Longrightarrow> irqs env n s = Some s"
  shows "sound_balster_irq_handler env d_buf cmd d s = None"
proof -
  have "terminal_wait (irqs env) 0 (s\<lparr>int_flag := False\<rparr>) = None"
    using assms(7,8) by (intro terminal_wait_stuck) simp_all
  moreover have "cur_pcb (s\<lparr>int_flag := False\<rparr>) = Some p" using assms(4) by (auto simp: cur_pcb_def running_def split: if_splits)
  ultimately have "sys_read env 0 (fd_b_current d) (of_nat DMA_CHUNK) (s\<lparr>int_flag := False\<rparr>) = None"
    using assms(3,5,6) by (simp add: sys_read_def cli_and_save_def restore_flags_def call_read_def terminal_read_def)
  then show ?thesis
    using assms(1,2) by (simp add: sound_balster_irq_handler_def cli_and_save_def Let_def sound_refill_def PLAYING_def)
qed

theorem sound_irq_waits_forever_witness:
  "sound_balster_irq_handler demo_env 0x100000 0
     \<lparr>sb_channel = 1, sb_mode = 2, sb_status = 1, sb_file = 0, fd_b_current = 0x100000\<rparr>
     (demo_kernel\<lparr>read_buf_ready := \<lambda>_. 0\<rparr>) = None"
proof -
  have "cur_pcb (demo_kernel\<lparr>read_buf_ready := \<lambda>_. 0\<rparr>) = Some demo_pcb"
    by (simp add: cur_pcb_def running_def pcb_addr_def)
  moreover have "fd_flags (fds demo_pcb 0) = 1" "operations_pointer (fds demo_pcb 0) = Some Stdin_ops"
    by (simp_all add: demo_pcb_def demo_fds_def)
  ultimately show ?thesis
    by (intro sound_irq_waits_forever [where p = demo_pcb]) (simp_all add: PLAYING_def demo_env_def)
qed

end
