(* ===== verification/Idt.thy ===== *)
theory Idt
  imports System Sound
begin

text \<open>
  The interrupt descriptor table and the handlers of exceptions, \<^verbatim>\<open>src/kernel/idt.c\<close>, and the
  entry points of \<^verbatim>\<open>src/kernel/irq.S\<close>. The address of an entry point is a parameter.
\<close>

section \<open>Gates\<close>

text \<open>The bit fields of \<^verbatim>\<open>idt_desc_t\<close>, and the two words of \<^verbatim>\<open>val\<close> that they share.\<close>

record idt_desc =
  offset_15_00 :: u16
  seg_selector :: u16
  reserved4 :: u8
  reserved3 :: bool
  reserved2 :: bool
  reserved1 :: bool
  gate_32 :: bool
  reserved0 :: bool
  gate_dpl :: "2 word"
  gate_present :: bool
  offset_31_16 :: u16

definition idt_val :: "idt_desc \<Rightarrow> u32 \<times> u32" where
  "idt_val d =
     (ucast (offset_15_00 d) OR push_bit 16 (ucast (seg_selector d)),
      ucast (reserved4 d) OR push_bit 8 (of_bool (reserved3 d)) OR push_bit 9 (of_bool (reserved2 d))
        OR push_bit 10 (of_bool (reserved1 d)) OR push_bit 11 (of_bool (gate_32 d)) OR push_bit 12 (of_bool (reserved0 d))
        OR push_bit 13 (ucast (gate_dpl d)) OR push_bit 15 (of_bool (gate_present d)) OR push_bit 16 (ucast (offset_31_16 d)))"

definition SET_IDT_ENTRY :: "u32 \<Rightarrow> idt_desc \<Rightarrow> idt_desc" where
  "SET_IDT_ENTRY handler d =
     (let d = d\<lparr>offset_31_16 := ucast (drop_bit 16 (handler AND 0xFFFF0000))\<rparr>
      in d\<lparr>offset_15_00 := ucast (handler AND 0xFFFF)\<rparr>)"

definition KERNEL_CS :: u16 where "KERNEL_CS = 0x0010"

definition NUM_VEC :: nat where "NUM_VEC = 256"

definition NUM_EXCEPTIONS :: nat where "NUM_EXCEPTIONS = 0x20"

definition PIT_IDT :: nat where "PIT_IDT = 0x20"

definition KEYBOARD_IDT :: nat where "KEYBOARD_IDT = 0x21"

definition RTC_IDT :: nat where "RTC_IDT = 0x28"

definition MOUSE_IDT :: nat where "MOUSE_IDT = 0x2C"

definition SB_IDT :: nat where "SB_IDT = 0x25"

definition SYSCALL_IDT :: nat where "SYSCALL_IDT = 0x80"

lemmas idt_numbers = NUM_VEC_def NUM_EXCEPTIONS_def PIT_IDT_def KEYBOARD_IDT_def RTC_IDT_def MOUSE_IDT_def SB_IDT_def SYSCALL_IDT_def

text \<open>The entry points, in the order of \<^verbatim>\<open>src/kernel/irq.S\<close>.\<close>

datatype irq_entry =
    Divide_by_zero_irq | Debug_irq | Nmi_irq | Breakpoint_irq | Overflow_irq | Oob_irq | Opcode_irq
  | No_coproc_irq | Double_fault_irq | Coproc_seg_overrun_irq | Tss_irq | Segment_irq | Stack_irq
  | General_protec_irq | Page_fault_irq | Unknown_interr_irq | Coproc_irq | Align_irq | Machine_chk_irq
  | Pit_irq | Key_irq | Rtc_irq | Mouse_irq | Sb_irq | General_irq | Syscall_irq

definition exception_entries :: "irq_entry list" where
  "exception_entries =
     [Divide_by_zero_irq, Debug_irq, Nmi_irq, Breakpoint_irq, Overflow_irq, Oob_irq,
      Opcode_irq, No_coproc_irq, Double_fault_irq, Coproc_seg_overrun_irq, Tss_irq,
      Segment_irq, Stack_irq, General_protec_irq, Page_fault_irq, Unknown_interr_irq,
      Coproc_irq, Align_irq, Machine_chk_irq]"

section \<open>init\_idt\<close>

text \<open>The bodies of the two loops.\<close>

definition exception_gate :: "nat \<Rightarrow> (nat \<Rightarrow> idt_desc) \<Rightarrow> nat \<Rightarrow> idt_desc" where
  "exception_gate i idt =
     idt(i := idt i\<lparr>gate_present := True, gate_dpl := 0, seg_selector := KERNEL_CS, gate_32 := True,
       reserved4 := 0, reserved3 := True, reserved2 := True, reserved1 := True, reserved0 := False\<rparr>)"

definition interrupt_gate :: "(irq_entry \<Rightarrow> u32) \<Rightarrow> nat \<Rightarrow> (nat \<Rightarrow> idt_desc) \<Rightarrow> nat \<Rightarrow> idt_desc" where
  "interrupt_gate addr i idt =
     (let d = idt i\<lparr>gate_present := True\<rparr>;
          d = (if i = SYSCALL_IDT then d\<lparr>gate_dpl := 3\<rparr> else d\<lparr>gate_dpl := 0\<rparr>);
          d = d\<lparr>seg_selector := KERNEL_CS, gate_32 := True, reserved4 := 0, reserved3 := False,
            reserved2 := True, reserved1 := True, reserved0 := False\<rparr>
      in idt(i :=
           if i = PIT_IDT then SET_IDT_ENTRY (addr Pit_irq) d
           else if i = KEYBOARD_IDT then SET_IDT_ENTRY (addr Key_irq) d
           else if i = RTC_IDT then SET_IDT_ENTRY (addr Rtc_irq) d
           else if i = MOUSE_IDT then SET_IDT_ENTRY (addr Mouse_irq) d
           else if i = SB_IDT then SET_IDT_ENTRY (addr Sb_irq) d
           else if i = SYSCALL_IDT then SET_IDT_ENTRY (addr Syscall_irq) d
           else SET_IDT_ENTRY (addr General_irq) d))"

definition init_idt :: "(irq_entry \<Rightarrow> u32) \<Rightarrow> (nat \<Rightarrow> idt_desc) \<Rightarrow> nat \<Rightarrow> idt_desc" where
  "init_idt addr idt =
     (let idt = fold exception_gate [0..<NUM_EXCEPTIONS] idt;
          idt = fold (\<lambda>(i, e) idt. idt(i := SET_IDT_ENTRY (addr e) (idt i))) (enumerate 0 exception_entries) idt
      in fold (interrupt_gate addr) [NUM_EXCEPTIONS..<NUM_VEC] idt)"

section \<open>Exceptions\<close>

text \<open>\<^verbatim>\<open>halt(-2); restore_flags(flags);\<close>, the end of every handler.\<close>

definition end_exception :: "'a kernel_scheme env \<Rightarrow> bool \<Rightarrow> 'a kernel_scheme \<Rightarrow> (unit, 'a kernel_scheme) flow option" where
  "end_exception env flags s =
     map_option (\<lambda>r. case r of Ret _ s \<Rightarrow> Ret () (restore_flags flags s) | Enter_user e s \<Rightarrow> Enter_user e s
         | Resume_stack s \<Rightarrow> Resume_stack s)
       (halt env (-2) s)"

definition exception_with ::
  "string \<Rightarrow> 'a kernel_scheme env \<Rightarrow> 'a kernel_scheme \<Rightarrow> (unit, 'a kernel_scheme) flow option" where
  "exception_with msg env s =
     (let (flags, s) = cli_and_save s in
      Option.bind (printf (\<lambda>_. 0) (arr ([10] @ str msg @ [10, 0])) [] s) (\<lambda>(_, s). end_exception env flags s))"

definition divide_by_zero_except :: "'a kernel_scheme env \<Rightarrow> 'a kernel_scheme \<Rightarrow> (unit, 'a kernel_scheme) flow option" where
  "divide_by_zero_except = exception_with ''EXCEPTION: Divide by zero!''"

definition debug_except :: "'a kernel_scheme env \<Rightarrow> 'a kernel_scheme \<Rightarrow> (unit, 'a kernel_scheme) flow option" where
  "debug_except = exception_with ''EXCEPTION: Debug!''"

definition nmi_except :: "'a kernel_scheme env \<Rightarrow> 'a kernel_scheme \<Rightarrow> (unit, 'a kernel_scheme) flow option" where
  "nmi_except = exception_with ''EXCEPTION: Non-maskable interrupt!''"

definition breakpoint_except :: "'a kernel_scheme env \<Rightarrow> 'a kernel_scheme \<Rightarrow> (unit, 'a kernel_scheme) flow option" where
  "breakpoint_except = exception_with ''EXCEPTION: Breakpoint!''"

definition overflow_except :: "'a kernel_scheme env \<Rightarrow> 'a kernel_scheme \<Rightarrow> (unit, 'a kernel_scheme) flow option" where
  "overflow_except = exception_with ''EXCEPTION: Into detected overflow!''"

definition oob_except :: "'a kernel_scheme env \<Rightarrow> 'a kernel_scheme \<Rightarrow> (unit, 'a kernel_scheme) flow option" where
  "oob_except = exception_with ''EXCEPTION: Out of bounds!''"

definition opcode_except :: "'a kernel_scheme env \<Rightarrow> 'a kernel_scheme \<Rightarrow> (unit, 'a kernel_scheme) flow option" where
  "opcode_except = exception_with ''EXCEPTION: Invalid opcode!''"

definition no_coproc_except :: "'a kernel_scheme env \<Rightarrow> 'a kernel_scheme \<Rightarrow> (unit, 'a kernel_scheme) flow option" where
  "no_coproc_except = exception_with ''EXCEPTION: No coprocessor!''"

definition double_fault_except :: "'a kernel_scheme env \<Rightarrow> 'a kernel_scheme \<Rightarrow> (unit, 'a kernel_scheme) flow option" where
  "double_fault_except = exception_with ''EXCEPTION: Double fault!''"

definition coproc_seg_overrun_except :: "'a kernel_scheme env \<Rightarrow> 'a kernel_scheme \<Rightarrow> (unit, 'a kernel_scheme) flow option" where
  "coproc_seg_overrun_except = exception_with ''EXCEPTION: Coprocessor segment overrun!''"

definition tss_except :: "'a kernel_scheme env \<Rightarrow> 'a kernel_scheme \<Rightarrow> (unit, 'a kernel_scheme) flow option" where
  "tss_except = exception_with ''EXCEPTION: Bad TSS!''"

definition segment_except :: "'a kernel_scheme env \<Rightarrow> 'a kernel_scheme \<Rightarrow> (unit, 'a kernel_scheme) flow option" where
  "segment_except = exception_with ''EXCEPTION: Segment not present!''"

definition stack_except :: "'a kernel_scheme env \<Rightarrow> 'a kernel_scheme \<Rightarrow> (unit, 'a kernel_scheme) flow option" where
  "stack_except = exception_with ''EXCEPTION: Stack fault!''"

definition general_protec_except :: "'a kernel_scheme env \<Rightarrow> 'a kernel_scheme \<Rightarrow> (unit, 'a kernel_scheme) flow option" where
  "general_protec_except = exception_with ''EXCEPTION: General protection fault!''"

text \<open>The address is in the register \<^verbatim>\<open>cr2\<close>.\<close>

definition page_fault_except ::
  "u32 \<Rightarrow> 'a kernel_scheme env \<Rightarrow> 'a kernel_scheme \<Rightarrow> (unit, 'a kernel_scheme) flow option" where
  "page_fault_except cr2 env s =
     (let (flags, s) = cli_and_save s in
      Option.bind (printf (\<lambda>_. 0) (arr ([10] @ str ''EXCEPTION: Page fault!'' @ [10, 0])) [] s) (\<lambda>(_, s).
      let fault_addr = cr2 in
      Option.bind (printf (\<lambda>_. 0) (arr (str ''Tried to access memory at 0x%#x'' @ [10, 0])) [Num fault_addr] s) (\<lambda>(_, s).
      end_exception env flags s)))"

definition unknown_interr_except :: "'a kernel_scheme env \<Rightarrow> 'a kernel_scheme \<Rightarrow> (unit, 'a kernel_scheme) flow option" where
  "unknown_interr_except = exception_with ''EXCEPTION: Unknown interrupt!''"

definition coproc_except :: "'a kernel_scheme env \<Rightarrow> 'a kernel_scheme \<Rightarrow> (unit, 'a kernel_scheme) flow option" where
  "coproc_except = exception_with ''EXCEPTION: Coprocessor fault!''"

definition align_except :: "'a kernel_scheme env \<Rightarrow> 'a kernel_scheme \<Rightarrow> (unit, 'a kernel_scheme) flow option" where
  "align_except = exception_with ''EXCEPTION: Alignment check!''"

definition machine_chk_except :: "'a kernel_scheme env \<Rightarrow> 'a kernel_scheme \<Rightarrow> (unit, 'a kernel_scheme) flow option" where
  "machine_chk_except = exception_with ''EXCEPTION: Machine check!''"

lemmas except_defs = divide_by_zero_except_def debug_except_def nmi_except_def breakpoint_except_def overflow_except_def oob_except_def opcode_except_def no_coproc_except_def double_fault_except_def coproc_seg_overrun_except_def tss_except_def segment_except_def stack_except_def general_protec_except_def unknown_interr_except_def coproc_except_def align_except_def machine_chk_except_def

definition general_interrupt :: "'a console_scheme \<Rightarrow> 'a console_scheme option" where
  "general_interrupt s =
     (let (flags, s) = cli_and_save s in
      map_option (\<lambda>(_, s). restore_flags flags (send_eoi 0 s))
        (printf (\<lambda>_. 0) (arr (str ''General interrupt recieved!'' @ [10, 0])) [] s))"

section \<open>System calls\<close>

record regs =
  eax :: u32
  ebx :: u32
  ecx :: u32
  edx :: u32

text \<open>Entry 0 of the table is never reached.\<close>

definition syscall_jumptable ::
  "'a kernel_scheme env \<Rightarrow> nat \<Rightarrow> u32 \<Rightarrow> u32 \<Rightarrow> u32 \<Rightarrow> 'a kernel_scheme \<Rightarrow> (i32, 'a kernel_scheme) flow option" where
  "syscall_jumptable env n a b c s =
     (let ret = map_option (\<lambda>(v, s). Ret v s) in
      if n = 1 then halt env (ucast a) s
      else if n = 2 then execute env a s
      else if n = 3 then ret (sys_read env a b c s)
      else if n = 4 then ret (sys_write env a b c s)
      else if n = 5 then ret (sys_open env a s)
      else if n = 6 then ret (sys_close env a s)
      else if n = 7 then ret (getargs a b s)
      else if n = 8 then ret (Some (vidmap a s))
      else if n = 9 then ret (Some (set_handler a b, s))
      else if n = 10 then ret (Some (sigreturn, s))
      else None)"

text \<open>From the gate, which turns interrupts off, to \<^verbatim>\<open>iret\<close>, which restores them; the result is \<^verbatim>\<open>eax\<close>.\<close>

definition syscall_irq ::
  "'a kernel_scheme env \<Rightarrow> regs \<Rightarrow> 'a kernel_scheme \<Rightarrow> (u32, 'a kernel_scheme) flow option" where
  "syscall_irq env r s =
     (let flags = int_flag s; s = cli s in
      if sint (eax r) < 1 \<or> sint (eax r) > 10 then Some (Ret (-1) (restore_flags flags s))
      else
        let s = sti s in
        map_option (\<lambda>f. case f of Ret v s \<Rightarrow> Ret v (restore_flags flags s) | Enter_user e s \<Rightarrow> Enter_user e s
            | Resume_stack s \<Rightarrow> Resume_stack s)
          (syscall_jumptable env (unat (eax r)) (ebx r) (ecx r) (edx r) s))"

section \<open>Entry points\<close>

text \<open>What is outside a handler: whether the timer schedules, the sound driver's buffer and
  uninitialised local, and the register \<^verbatim>\<open>cr2\<close>.\<close>

record irq_context =
  sched_on :: bool
  sound_buf :: u32
  sound_cmd :: u8
  fault_cr2 :: u32

definition call_result :: "sb \<Rightarrow> u32 \<Rightarrow> (unit, 's) flow option \<Rightarrow> (sb \<times> (u32, 's) flow) option" where
  "call_result d v = map_option (\<lambda>f. (d, case f of Ret _ s \<Rightarrow> Ret v s | Enter_user e s \<Rightarrow> Enter_user e s
      | Resume_stack s \<Rightarrow> Resume_stack s))"

text \<open>The wrappers save the registers, call the C function, and restore them; here their result is \<^verbatim>\<open>eax\<close>.\<close>

definition run_irq ::
  "irq_context \<Rightarrow> 'a kernel_scheme env \<Rightarrow> regs \<Rightarrow> irq_entry \<Rightarrow> sb \<times> 'a kernel_scheme
     \<Rightarrow> (sb \<times> (u32, 'a kernel_scheme) flow) option" where
  "run_irq c env r e = (\<lambda>(d, s).
     let call = call_result d (eax r);
         plain = map_option (\<lambda>s. (d, Ret (eax r) s))
     in case e of
         Divide_by_zero_irq \<Rightarrow> call (divide_by_zero_except env s)
       | Debug_irq \<Rightarrow> call (debug_except env s)
       | Nmi_irq \<Rightarrow> call (nmi_except env s)
       | Breakpoint_irq \<Rightarrow> call (breakpoint_except env s)
       | Overflow_irq \<Rightarrow> call (overflow_except env s)
       | Oob_irq \<Rightarrow> call (oob_except env s)
       | Opcode_irq \<Rightarrow> call (opcode_except env s)
       | No_coproc_irq \<Rightarrow> call (no_coproc_except env s)
       | Double_fault_irq \<Rightarrow> call (double_fault_except env s)
       | Coproc_seg_overrun_irq \<Rightarrow> call (coproc_seg_overrun_except env s)
       | Tss_irq \<Rightarrow> call (tss_except env s)
       | Segment_irq \<Rightarrow> call (segment_except env s)
       | Stack_irq \<Rightarrow> call (stack_except env s)
       | General_protec_irq \<Rightarrow> call (general_protec_except env s)
       | Page_fault_irq \<Rightarrow> call (page_fault_except (fault_cr2 c) env s)
       | Unknown_interr_irq \<Rightarrow> call (unknown_interr_except env s)
       | Coproc_irq \<Rightarrow> call (coproc_except env s)
       | Align_irq \<Rightarrow> call (align_except env s)
       | Machine_chk_irq \<Rightarrow> call (machine_chk_except env s)
       | Pit_irq \<Rightarrow> call (pit_handle_interrupt (sched_on c) env s)
       | Key_irq \<Rightarrow> call (keyboard_irq env s)
       | Rtc_irq \<Rightarrow> plain (rtc_handle_interrupt s)
       | Mouse_irq \<Rightarrow> plain (Some (mouse_handle_interrupt s))
       | Sb_irq \<Rightarrow> map_option (\<lambda>(d, s). (d, Ret (eax r) s)) (sound_balster_irq_handler env (sound_buf c) (sound_cmd c) d s)
       | General_irq \<Rightarrow> plain (general_interrupt s)
       | Syscall_irq \<Rightarrow> map_option (Pair d) (syscall_irq env r s))"

section \<open>What the processor reads\<close>

definition read_offset :: "u32 \<times> u32 \<Rightarrow> u32" where
  "read_offset v = (snd v AND 0xFFFF0000) OR (fst v AND 0xFFFF)"

definition read_selector :: "u32 \<times> u32 \<Rightarrow> u16" where
  "read_selector v = ucast (drop_bit 16 (fst v))"

definition read_dpl :: "u32 \<times> u32 \<Rightarrow> 2 word" where
  "read_dpl v = ucast (drop_bit 13 (snd v))"

definition read_type :: "u32 \<times> u32 \<Rightarrow> 5 word" where
  "read_type v = ucast (drop_bit 8 (snd v))"

definition read_present :: "u32 \<times> u32 \<Rightarrow> bool" where
  "read_present v \<longleftrightarrow> bit (snd v) 15"

lemma offset_halves: "(0xFFFF0000 :: u32) = push_bit 16 (mask 16)" "(0xFFFF :: u32) = mask 16"
  by (simp_all add: mask_eq_exp_minus_1)

lemma small_bits: "8 \<le> n \<Longrightarrow> \<not> bit (x :: u8) n" "16 \<le> n \<Longrightarrow> \<not> bit (y :: u16) n" "2 \<le> n \<Longrightarrow> \<not> bit (z :: 2 word) n"
  using bit_imp_le_length [of x n] bit_imp_le_length [of y n] bit_imp_le_length [of z n] by auto

lemma one_bit: "bit (of_bool b :: u32) n \<longleftrightarrow> b \<and> n = 0"
  by (cases b) (simp_all add: bit_1_iff)

lemma push_one: "n < 32 \<Longrightarrow> bit (push_bit k (of_bool b :: u32)) n \<longleftrightarrow> b \<and> n = k"
  unfolding bit_push_bit_iff one_bit by auto

lemma idt_val_low: "n < 16 \<Longrightarrow> bit (fst (idt_val d)) n = bit (offset_15_00 d) n"
  by (simp add: idt_val_def bit_simps)

lemma idt_val_selector: "n < 16 \<Longrightarrow> bit (fst (idt_val d)) (16 + n) = bit (seg_selector d) n"
  using small_bits(2) [of "16 + n" "offset_15_00 d"] by (simp add: idt_val_def bit_simps)

lemma idt_val_high: "16 \<le> n \<Longrightarrow> n < 32 \<Longrightarrow> bit (snd (idt_val d)) n = bit (offset_31_16 d) (n - 16)"
  using small_bits(1) [of n "reserved4 d"] small_bits(3) [of "n - 13" "gate_dpl d"]
  by (auto simp: idt_val_def bit_or_iff bit_push_bit_iff bit_unsigned_iff one_bit)

lemma idt_val_middle: "n < 16 \<Longrightarrow> bit (snd (idt_val d)) n = (if n < 8 then bit (reserved4 d) n else
    n = 8 \<and> reserved3 d \<or> n = 9 \<and> reserved2 d \<or> n = 10 \<and> reserved1 d \<or> n = 11 \<and> gate_32 d \<or> n = 12 \<and> reserved0 d
    \<or> n = 13 \<and> bit (gate_dpl d) 0 \<or> n = 14 \<and> bit (gate_dpl d) 1 \<or> n = 15 \<and> gate_present d)"
proof -
  assume n: "n < 16"
  have "bit (gate_dpl d) (n - 13) \<and> 13 \<le> n \<longleftrightarrow> n = 13 \<and> bit (gate_dpl d) 0 \<or> n = 14 \<and> bit (gate_dpl d) 1"
  proof -
    have "n = 13 \<or> n = 14 \<or> n = 15" if "13 \<le> n" using n that by arith
    then show ?thesis using small_bits(3) [of 2 "gate_dpl d"] by auto
  qed
  then have dpl: "bit (push_bit 13 (ucast (gate_dpl d)) :: u32) n \<longleftrightarrow> n = 13 \<and> bit (gate_dpl d) 0 \<or> n = 14 \<and> bit (gate_dpl d) 1"
    using n unfolding bit_push_bit_iff bit_unsigned_iff by auto
  have high: "\<not> bit (push_bit 16 (ucast (offset_31_16 d)) :: u32) n" using n by (simp add: bit_push_bit_iff)
  have r4: "bit (ucast (reserved4 d) :: u32) n \<longleftrightarrow> n < 8 \<and> bit (reserved4 d) n"
    using n small_bits(1) [of n "reserved4 d"] by (cases "n < 8") (simp_all add: bit_unsigned_iff)
  have p: "bit (push_bit k (of_bool b :: u32)) n \<longleftrightarrow> b \<and> n = k" for k b using n by (simp add: push_one)
  have "bit (snd (idt_val d)) n \<longleftrightarrow> n < 8 \<and> bit (reserved4 d) n \<or> reserved3 d \<and> n = 8 \<or> reserved2 d \<and> n = 9 \<or> reserved1 d \<and> n = 10
      \<or> gate_32 d \<and> n = 11 \<or> reserved0 d \<and> n = 12 \<or> (n = 13 \<and> bit (gate_dpl d) 0 \<or> n = 14 \<and> bit (gate_dpl d) 1) \<or> gate_present d \<and> n = 15"
    unfolding idt_val_def snd_conv bit_or_iff r4 dpl p using high by blast
  then show ?thesis by (cases "n < 8") auto
qed

lemma read_SET_IDT_ENTRY: "read_offset (idt_val (SET_IDT_ENTRY a d)) = a"
proof (rule bit_word_eqI)
  fix n assume "n < LENGTH(32)"
  then have n: "n < 32" by simp
  have m: "bit (push_bit 16 (mask 16) :: u32) n \<longleftrightarrow> 16 \<le> n" "bit (mask 16 :: u32) n \<longleftrightarrow> n < 16"
    using n by (auto simp: bit_push_bit_iff bit_mask_iff)
  let ?d = "SET_IDT_ENTRY a d"
  have o: "k < 16 \<Longrightarrow> bit (offset_31_16 ?d) k = bit a (16 + k)" "k < 16 \<Longrightarrow> bit (offset_15_00 ?d) k = bit a k" for k
    unfolding SET_IDT_ENTRY_def Let_def offset_halves by (simp_all add: bit_simps)
  show "bit (read_offset (idt_val ?d)) n = bit a n"
    using n o(1) [of "n - 16"] o(2) [of n]
    unfolding read_offset_def offset_halves bit_or_iff bit_and_iff m by (cases "n < 16") (simp_all add: idt_val_low idt_val_high)
qed

lemma SET_IDT_ENTRY_fields [simp]:
  "seg_selector (SET_IDT_ENTRY a d) = seg_selector d" "gate_dpl (SET_IDT_ENTRY a d) = gate_dpl d"
  "gate_present (SET_IDT_ENTRY a d) = gate_present d" "gate_32 (SET_IDT_ENTRY a d) = gate_32 d"
  "reserved0 (SET_IDT_ENTRY a d) = reserved0 d" "reserved1 (SET_IDT_ENTRY a d) = reserved1 d"
  "reserved2 (SET_IDT_ENTRY a d) = reserved2 d" "reserved3 (SET_IDT_ENTRY a d) = reserved3 d"
  by (simp_all add: SET_IDT_ENTRY_def Let_def)

lemma read_fields:
  "read_selector (idt_val d) = seg_selector d" "read_dpl (idt_val d) = gate_dpl d" "read_present (idt_val d) = gate_present d"
  "reserved0 d = False \<Longrightarrow> reserved1 d \<Longrightarrow> reserved2 d \<Longrightarrow> gate_32 d \<Longrightarrow> read_type (idt_val d) = (if reserved3 d then 0xF else 0xE)"
proof -
  show "read_selector (idt_val d) = seg_selector d"
    by (rule bit_word_eqI) (simp add: read_selector_def bit_unsigned_iff bit_drop_bit_eq idt_val_selector)
  show "read_dpl (idt_val d) = gate_dpl d"
  proof (rule bit_word_eqI)
    fix n assume "n < LENGTH(2)"
    then have "n = 0 \<or> n = 1" by auto
    then show "bit (read_dpl (idt_val d)) n = bit (gate_dpl d) n"
      by (auto simp: read_dpl_def bit_unsigned_iff bit_drop_bit_eq idt_val_middle)
  qed
  show "read_present (idt_val d) = gate_present d" by (simp add: read_present_def idt_val_middle)
  assume r: "reserved0 d = False" "reserved1 d" "reserved2 d" "gate_32 d"
  show "read_type (idt_val d) = (if reserved3 d then 0xF else 0xE)"
  proof (rule bit_word_eqI)
    fix n assume "n < LENGTH(5)"
    then have "n \<in> {0, 1, 2, 3, 4}" by auto
    then show "bit (read_type (idt_val d)) n = bit (if reserved3 d then 0xF else 0xE :: 5 word) n"
      using r by (auto simp: read_type_def bit_unsigned_iff bit_drop_bit_eq idt_val_middle)
  qed
qed

section \<open>The table\<close>

lemma fold_entries:
  assumes "\<And>i f j. g i f j = (if j = i then h i (f i) else f j)"
  shows "fold g [a..<b] f j = (if a \<le> j \<and> j < b then h j (f j) else f j)"
proof (induction b)
  case (Suc b)
  then show ?case using assms by (cases "a \<le> b") (auto simp: not_le less_Suc_eq)
qed simp

lemma fold_entry_points:
  "fold (\<lambda>(i, e) idt. idt(i := SET_IDT_ENTRY (addr e) (idt i))) (enumerate k es) idt j =
     (if k \<le> j \<and> j < k + length es then SET_IDT_ENTRY (addr (es ! (j - k))) (idt j) else idt j)"
proof (induction es arbitrary: k idt)
  case (Cons e es)
  show ?case unfolding enumerate_simps fold_simps prod.case Cons.IH by (auto simp: nth_Cons')
qed auto

text \<open>The entry point that vector \<open>i\<close> is meant for; vectors 19 to 31 have none.\<close>

definition vector_entry :: "nat \<Rightarrow> irq_entry" where
  "vector_entry i =
     (if i < 19 then exception_entries ! i
      else case map_of [(0x20, Pit_irq), (0x21, Key_irq), (0x25, Sb_irq), (0x28, Rtc_irq), (0x2C, Mouse_irq), (0x80, Syscall_irq)] i of
        Some e \<Rightarrow> e | None \<Rightarrow> General_irq)"

lemma init_idt_exception:
  assumes "i < 32"
  shows "init_idt addr idt i =
    (let d = exception_gate i idt i in if i < 19 then SET_IDT_ENTRY (addr (vector_entry i)) d else d)"
proof -
  have g: "fold (interrupt_gate addr) [NUM_EXCEPTIONS..<NUM_VEC] f i = f i" for f
    using assms by (subst fold_entries [where h = "\<lambda>i d. interrupt_gate addr i (\<lambda>_. d) i"])
      (auto simp: interrupt_gate_def Let_def idt_numbers)
  have e: "fold exception_gate [0..<NUM_EXCEPTIONS] idt i = exception_gate i idt i"
    using assms by (subst fold_entries [where h = "\<lambda>i d. exception_gate i (\<lambda>_. d) i"]) (auto simp: exception_gate_def idt_numbers)
  show ?thesis
    unfolding init_idt_def Let_def g fold_entry_points by (simp add: e vector_entry_def exception_entries_def)
qed

lemma init_idt_interrupt:
  assumes "32 \<le> i" "i < 256"
  shows "init_idt addr idt i = interrupt_gate addr i idt i"
proof -
  have g: "fold (interrupt_gate addr) [NUM_EXCEPTIONS..<NUM_VEC] f i = interrupt_gate addr i (\<lambda>_. f i) i" for f
    using assms by (subst fold_entries [where h = "\<lambda>i d. interrupt_gate addr i (\<lambda>_. d) i"])
      (auto simp: interrupt_gate_def Let_def idt_numbers)
  have e: "fold exception_gate [0..<NUM_EXCEPTIONS] idt i = idt i"
    using assms by (subst fold_entries [where h = "\<lambda>i d. exception_gate i (\<lambda>_. d) i"]) (auto simp: exception_gate_def idt_numbers)
  have "length exception_entries = 19" by (simp add: exception_entries_def)
  then show ?thesis
    using assms unfolding init_idt_def Let_def g fold_entry_points by (simp add: e interrupt_gate_def Let_def)
qed

section \<open>Properties of the table\<close>

lemma init_idt_vectors:
  assumes "i < 256" and "i < 19 \<or> 32 \<le> i"
  shows "let v = idt_val (init_idt addr idt i) in read_present v \<and> read_offset v = addr (vector_entry i) \<and> read_selector v = 0x10
    \<and> read_type v = (if i < 32 then 0xF else 0xE) \<and> (read_dpl v = 3 \<longleftrightarrow> i = 0x80) \<and> (read_dpl v = 0 \<longleftrightarrow> i \<noteq> 0x80)"
proof (cases "i < 19")
  case True
  then show ?thesis
    by (simp add: init_idt_exception Let_def read_SET_IDT_ENTRY read_fields exception_gate_def KERNEL_CS_def)
next
  case False
  then have i: "32 \<le> i" using assms by simp
  have "interrupt_gate addr i idt i = SET_IDT_ENTRY (addr (vector_entry i)) (idt i\<lparr>gate_present := True,
      gate_dpl := (if i = 0x80 then 3 else 0), seg_selector := KERNEL_CS, gate_32 := True, reserved4 := 0, reserved3 := False,
      reserved2 := True, reserved1 := True, reserved0 := False\<rparr>)"
    using i by (simp add: interrupt_gate_def vector_entry_def idt_numbers Let_def)
  then show ?thesis
    using i by (simp add: init_idt_interrupt assms Let_def read_SET_IDT_ENTRY read_fields KERNEL_CS_def)
qed

text \<open>C20: after \<^verbatim>\<open>init_idt\<close>, whatever was in the table, the processor reads from the gate of each vector but
  19 to 31 the address of the routine meant for it, in the kernel's code segment; exceptions
  are trap gates, the others interrupt gates, which turn interrupts off; only vector \<^verbatim>\<open>0x80\<close> can
  be called by user code.\<close>

theorem init_idt_routes_vectors:
  assumes "i < 256" and "i < 19 \<or> 32 \<le> i"
  shows "let v = idt_val (init_idt addr idt i) in read_present v \<and> read_offset v = addr (vector_entry i) \<and> read_selector v = 0x10
    \<and> read_type v = (if i < 32 then 0xF else 0xE) \<and> (read_dpl v = 3 \<longleftrightarrow> i = 0x80) \<and> (read_dpl v = 0 \<longleftrightarrow> i \<noteq> 0x80)"
  by (rule init_idt_vectors [OF assms])

theorem init_idt_routes_vectors_witness:
  "\<forall>addr idt. read_offset (idt_val (init_idt addr idt 14)) = addr Page_fault_irq
     \<and> read_dpl (idt_val (init_idt addr idt 0x80)) = 3 \<and> read_offset (idt_val (init_idt addr idt 0x80)) = addr Syscall_irq"
proof -
  have "vector_entry 14 = Page_fault_irq" "vector_entry 0x80 = Syscall_irq"
    by (simp_all add: vector_entry_def exception_entries_def)
  with init_idt_routes_vectors [of 14] init_idt_routes_vectors [of "0x80"] show ?thesis by (simp add: Let_def)
qed

text \<open>Vectors 19 to 31 are present, but their offset is what the table had.\<close>

lemma init_idt_reserved_vectors:
  assumes "19 \<le> i" "i < 32"
  shows "read_present (idt_val (init_idt addr idt i)) \<and> read_offset (idt_val (init_idt addr idt i)) = read_offset (idt_val (idt i))"
proof
  have d: "init_idt addr idt i = exception_gate i idt i" using assms by (simp add: init_idt_exception Let_def)
  show "read_present (idt_val (init_idt addr idt i))" unfolding d by (simp add: read_fields exception_gate_def)
  show "read_offset (idt_val (init_idt addr idt i)) = read_offset (idt_val (idt i))"
  proof (rule bit_word_eqI)
    fix n assume "n < LENGTH(32)"
    then have n: "n < 32" by simp
    have m: "bit (push_bit 16 (mask 16) :: u32) n \<longleftrightarrow> 16 \<le> n" "bit (mask 16 :: u32) n \<longleftrightarrow> n < 16"
      using n by (auto simp: bit_push_bit_iff bit_mask_iff)
    show "bit (read_offset (idt_val (init_idt addr idt i))) n = bit (read_offset (idt_val (idt i))) n"
      using n unfolding d read_offset_def offset_halves bit_or_iff bit_and_iff m
      by (cases "n < 16") (simp_all add: idt_val_low idt_val_high exception_gate_def)
  qed
qed

section \<open>Exceptions end the process\<close>

text \<open>A text that \<^verbatim>\<open>printf\<close> prints as it is.\<close>

definition plain_text :: "string \<Rightarrow> bool" where
  "plain_text m \<longleftrightarrow> 0 \<notin> set (str m) \<and> chr CHR ''%'' \<notin> set (str m)"

lemma plain_printf:
  assumes "0 \<notin> set cs" "chr CHR ''%'' \<notin> set cs"
  shows "\<exists>n t. printf junk (arr (cs @ [0])) [] s = Some (n, t) \<and> console_frame s t"
proof -
  have "cstr (arr (cs @ [0])) cs" using cstr_arr [of cs "[]"] assms(1) by simp
  from printf_returns [OF this format_text_plain [OF assms(2)], of "[]" junk s] show ?thesis by auto
qed

text \<open>A message, then \<^const>\<open>halt\<close>.\<close>

definition dies :: "'a kernel_scheme env \<Rightarrow> 'a kernel_scheme \<Rightarrow> (unit, 'a kernel_scheme) flow option \<Rightarrow> bool" where
  "dies env s r \<longleftrightarrow> (\<exists>t. console_frame (s\<lparr>int_flag := False\<rparr>) t \<and> r = end_exception env (int_flag s) t)"

lemma newline_plain: "(10 :: u8) \<noteq> 0" "(10 :: u8) \<noteq> chr CHR ''%''"
  by code_simp+

lemma exception_with_dies: "plain_text m \<Longrightarrow> dies env s (exception_with m env s)"
proof -
  assume m: "plain_text m"
  have p: "0 \<notin> set ([10] @ str m @ [10])" "chr CHR ''%'' \<notin> set ([10] @ str m @ [10])"
    using m newline_plain by (auto simp: plain_text_def)
  obtain n t where "printf (\<lambda>_. 0) (arr ([10] @ str m @ [10, 0])) [] (s\<lparr>int_flag := False\<rparr>) = Some (n, t)"
    "console_frame (s\<lparr>int_flag := False\<rparr>) t"
    using plain_printf [OF p, of "\<lambda>_. 0" "s\<lparr>int_flag := False\<rparr>"] by auto
  then show ?thesis by (auto simp: exception_with_def dies_def cli_and_save_def Let_def)
qed

lemma format_text_prefix:
  "chr CHR ''%'' \<notin> set xs \<Longrightarrow> format_text None (xs @ cs) args = map_option ((@) xs) (format_text None cs args)"
  by (induction xs) (cases "format_text None cs args"; auto)+

lemma page_fault_dies: "dies env s (page_fault_except cr2 env s)"
proof -
  let ?s = "s\<lparr>int_flag := False\<rparr>" and ?f = "str ''Tried to access memory at 0x%#x'' @ [10]"
  have p: "0 \<notin> set ([10] @ str ''EXCEPTION: Page fault!'' @ [10])" "chr CHR ''%'' \<notin> set ([10] @ str ''EXCEPTION: Page fault!'' @ [10])"
    by code_simp+
  obtain n t where t: "printf (\<lambda>_. 0) (arr ([10] @ str ''EXCEPTION: Page fault!'' @ [10, 0])) [] ?s = Some (n, t)" "console_frame ?s t"
    using plain_printf [OF p, of "\<lambda>_. 0" ?s] by auto
  have z: "0 \<notin> set ?f" by code_simp
  have "cstr (arr (?f @ [0])) ?f" using cstr_arr [OF z, of "[]"] by simp
  moreover have "format_text None ?f [TNum cr2] = Some (str ''Tried to access memory at 0x'' @ hex_text True cr2 @ [10])"
  proof -
    let ?t = "str ''Tried to access memory at 0x''"
    have f: "?f = ?t @ [37, 35, 120, 10]" "chr CHR ''%'' \<notin> set ?t" by code_simp+
    have "chr CHR ''%'' = 37" "chr CHR ''#'' = 35" "chr CHR ''x'' = 120" "chr CHR ''u'' = 117" "chr CHR ''d'' = 100" by code_simp+
    then have "format_text None [37, 35, 120, 10] [TNum cr2] = Some (hex_text True cr2 @ [10])" by (simp add: conv_text_def)
    with format_text_prefix [OF f(2), of "[37, 35, 120, 10]" "[TNum cr2]"] f(1) show ?thesis by simp
  qed
  moreover have "list_all2 denotes [Num cr2] [TNum cr2]" by simp
  ultimately obtain k u where u: "printf (\<lambda>_. 0) (arr (?f @ [0])) [Num cr2] t = Some (k, u)" "console_frame t u"
    using printf_returns by blast
  have "page_fault_except cr2 env s = end_exception env (int_flag s) u"
    using t(1) u(1) by (simp add: page_fault_except_def cli_and_save_def Let_def)
  then show ?thesis using t(2) u(2) console_frame_trans by (auto simp: dies_def)
qed

lemma exception_messages:
  "plain_text ''EXCEPTION: Divide by zero!''"
  "plain_text ''EXCEPTION: Debug!''"
  "plain_text ''EXCEPTION: Non-maskable interrupt!''"
  "plain_text ''EXCEPTION: Breakpoint!''"
  "plain_text ''EXCEPTION: Into detected overflow!''"
  "plain_text ''EXCEPTION: Out of bounds!''"
  "plain_text ''EXCEPTION: Invalid opcode!''"
  "plain_text ''EXCEPTION: No coprocessor!''"
  "plain_text ''EXCEPTION: Double fault!''"
  "plain_text ''EXCEPTION: Coprocessor segment overrun!''"
  "plain_text ''EXCEPTION: Bad TSS!''"
  "plain_text ''EXCEPTION: Segment not present!''"
  "plain_text ''EXCEPTION: Stack fault!''"
  "plain_text ''EXCEPTION: General protection fault!''"
  "plain_text ''EXCEPTION: Unknown interrupt!''"
  "plain_text ''EXCEPTION: Coprocessor fault!''"
  "plain_text ''EXCEPTION: Alignment check!''"
  "plain_text ''EXCEPTION: Machine check!''"
  unfolding plain_text_def by code_simp+

lemma exceptions_die:
  assumes "e \<in> set exception_entries"
  shows "\<exists>x. run_irq c env r e (d, s) = call_result d (eax r) x \<and> dies env s x"
  using assms exception_messages [THEN exception_with_dies, of env s] page_fault_dies [of env s "fault_cr2 c"]
  by (auto simp: exception_entries_def run_irq_def except_defs Let_def)

lemma saved_other: "window s = Some f \<Longrightarrow> g \<noteq> f \<Longrightarrow> saved_frames s g = frames s g"
  by (simp add: saved_frames_def)

lemma console_frame_kernel:
  assumes "console_frame (s\<lparr>int_flag := False\<rparr>) t"
  shows "pcbs t = pcbs s" "curr_proc t = curr_proc s" "running t = running s" "window t = window s" "frames t = frames s" "proc_view t = proc_view s"
proof -
  show "proc_view t = proc_view s" using proc_view_frame [OF assms] by simp
  show "pcbs t = pcbs s" "curr_proc t = curr_proc s" "running t = running s" "window t = window s" "frames t = frames s"
    using assms unfolding running_def by (auto simp: console_frame_def dest: arg_cong [of _ _ pcbs] arg_cong [of _ _ curr_proc]
      arg_cong [of _ _ curr_active_term] arg_cong [of _ _ window] arg_cong [of _ _ frames])
qed

text \<open>C11: an exception of a program ends it: whichever of the nineteen it is, after its message the
  program is popped from its terminal's stack, its parent continues in its own memory, and
  gets the status 254.\<close>

theorem exceptions_end_program:
  assumes "procs s st" "st (running s) = i # j # js" "closable (pcbs s (curr_proc s (running s)))"
    and "window s = Some (process_frame (of_nat i))" "e \<in> set exception_entries"
  shows "\<exists>s'. run_irq c env r e (d, s) = Some (d, Resume_stack s') \<and> procs s' (pop_proc (running s) st) \<and> g_status s' = 0xFE
    \<and> window s' = Some (process_frame (of_nat j))
    \<and> (\<forall>a. in_window a \<longrightarrow> mem s' a = frames s (process_frame (of_nat j)) (a - user_base))"
proof -
  obtain x where x: "run_irq c env r e (d, s) = call_result d (eax r) x" "dies env s x"
    using exceptions_die [OF assms(5)] by blast
  then obtain t where t: "console_frame (s\<lparr>int_flag := False\<rparr>) t" "x = end_exception env (int_flag s) t" by (auto simp: dies_def)
  note k = console_frame_kernel [OF t(1)]
  have "procs t st" using procs_cong [OF k(6)] assms(1) by simp
  from halt_pops [OF this, unfolded k, OF assms(2,3)] obtain s' where
    s': "halt env (-2) t = Some (Resume_stack s')" "procs s' (pop_proc (running s) st)" "g_status s' = ucast (-2 :: u8)"
    "window s' = Some (process_frame (of_nat j))"
    "\<forall>a. in_window a \<longrightarrow> mem s' a = saved_frames t (process_frame (of_nat j)) (a - user_base)" by blast
  have "running s < 3" using assms(1) by (simp add: procs_def)
  from stack_frames(1) [OF assms(1) this assms(2)]
  have "saved_frames t (process_frame (of_nat j)) = frames s (process_frame (of_nat j))"
    using saved_other [of t] k assms(4) by simp
  moreover have "(ucast (-2 :: u8) :: u32) = 0xFE" by code_simp
  ultimately show ?thesis using s' x(1) t(2) by (simp add: end_exception_def call_result_def)
qed

theorem exceptions_end_program_witness:
  "\<exists>s1. execute demo_env 0x9000 demo_kernel = Some (Enter_user 0x08048020 s1) \<and>
     (\<forall>c r d. \<exists>s'. run_irq c demo_env r Page_fault_irq (d, s1) = Some (d, Resume_stack s') \<and> g_status s' = 0xFE \<and>
        window s' = Some (process_frame 0))"
proof -
  obtain s1 where s1: "execute demo_env 0x9000 demo_kernel = Some (Enter_user 0x08048020 s1)" "started 1 0 (str ''x'') demo_kernel s1"
    "procs s1 (push_proc 0 1 demo_stacks)"
    using execute_starts [OF _ demo_command(1,5,2-4) demo_runnable _ demo_procs demo_layout] by (auto simp: demo_pcb_def)
  have r: "running s1 = 0" "window s1 = Some (process_frame (of_nat 1))" "closable (pcbs s1 (curr_proc s1 (running s1)))"
    using s1(2) std_open_closable by (auto simp: started_def Let_def)
  have "push_proc 0 1 demo_stacks (running s1) = 1 # 0 # []" by (simp add: r(1) push_proc_def demo_stacks_def)
  note pops = exceptions_end_program [OF s1(3) this r(3,2)]
  have "Page_fault_irq \<in> set exception_entries" by (simp add: exception_entries_def)
  from pops [OF this, of _ demo_env]
  have "\<exists>s'. run_irq c demo_env r Page_fault_irq (d, s1) = Some (d, Resume_stack s') \<and> g_status s' = 0xFE \<and>
      window s' = Some (process_frame 0)" for c r d by (simp del: ex_simps) blast
  with s1(1) show ?thesis by blast
qed

section \<open>Every entry point keeps the stacks of processes\<close>

lemma leaves_map:
  "leaves P q \<Longrightarrow> (\<And>r. P (flow_state r) \<Longrightarrow> P (flow_state (g r))) \<Longrightarrow> leaves P (map_option g q)"
  by (auto simp: leaves_def)

lemma runs_flags: "runs st s \<Longrightarrow> runs st (restore_flags f s)"
  by (rule runs_cong [rotated]) simp_all

lemma runs_end_exception: "runs st s \<Longrightarrow> leaves (runs st) (end_exception env flags s)"
  unfolding end_exception_def by (erule leaves_map [OF runs_halt]) (auto intro: runs_flags split: flow.split)

lemma runs_dies:
  assumes "dies env s x" and "runs st s"
  shows "leaves (runs st) x"
proof -
  obtain t where t: "console_frame (s\<lparr>int_flag := False\<rparr>) t" "x = end_exception env (int_flag s) t"
    using assms(1) by (auto simp: dies_def)
  show ?thesis unfolding t(2) by (rule runs_end_exception, rule runs_cong [OF console_frame_kernel(6) [OF t(1)] assms(2)])
qed

lemma runs_jumptable:
  assumes "runs st s" and irq: "\<And>n s s'. irqs env n s = Some s' \<Longrightarrow> runs st s \<Longrightarrow> runs st s'"
  shows "leaves (runs st) (syscall_jumptable env n a b c s)"
proof -
  have v: "leaves (runs st) (map_option (\<lambda>(v, s). Ret v s) x)" if "\<And>v s'. x = Some (v, s') \<Longrightarrow> proc_view s' = proc_view s" for x
    using that assms(1) by (auto simp: leaves_def intro: runs_cong)
  have "leaves (runs st) (map_option (\<lambda>(v, s). Ret v s) (sys_read env a b c s))"
    using runs_read [OF _ assms(1) irq] by (auto simp: leaves_def)
  then show ?thesis
    unfolding syscall_jumptable_def Let_def
    by (auto intro!: v runs_halt runs_execute assms(1) dest: sys_write_view sys_open_view sys_close_view getargs_view
        simp: leaves_simps) (auto simp: leaves_def case_prod_beta vidmap_view intro!: runs_cong [OF _ assms(1)])
qed

lemma runs_syscall:
  assumes "runs st s" and "\<And>n s s'. irqs env n s = Some s' \<Longrightarrow> runs st s \<Longrightarrow> runs st s'"
  shows "leaves (runs st) (syscall_irq env r s)"
proof -
  have r: "runs st (sti (cli s))" "runs st (restore_flags f (cli s))" for f
    by (rule runs_cong [OF _ assms(1)], simp)+
  show ?thesis
  proof (cases "sint (eax r) < 1 \<or> sint (eax r) > 10")
    case True
    then show ?thesis using r(2) by (simp add: syscall_irq_def Let_def)
  next
    case False
    have "leaves (runs st) (map_option (\<lambda>f. case f of Ret v t \<Rightarrow> Ret v (restore_flags (int_flag s) t) | Enter_user e t \<Rightarrow> Enter_user e t
        | Resume_stack t \<Rightarrow> Resume_stack t) (syscall_jumptable env (unat (eax r)) (ebx r) (ecx r) (edx r) (sti (cli s))))"
      by (rule leaves_map [OF runs_jumptable [OF r(1) assms(2)]]) (auto intro: runs_flags split: flow.split)
    with False show ?thesis unfolding syscall_irq_def Let_def by (simp only: if_False)
  qed
qed

lemma dsp_write_view: "dsp_write v s = Some t \<Longrightarrow> proc_view t = proc_view s"
  by (auto simp: dsp_write_def dest: inb_until_view)

lemma play_view: "sound_blaster_play cmd n d s = Some t \<Longrightarrow> proc_view t = proc_view s"
  by (auto simp: sound_blaster_play_def Let_def bind_eq_Some_conv dest!: dsp_write_view)

lemma sound_stop_view:
  "sound_blaster_stop d s = Some (v, t) \<Longrightarrow> proc_view t = proc_view s"
  "sound_blaster_stop_op d s = Some (v, t) \<Longrightarrow> proc_view t = proc_view s"
  by (auto simp: sound_blaster_stop_def sound_blaster_stop_op_def dest: dsp_write_view split: if_splits)

lemma proc_view_pokes: "proc_view (fold (\<lambda>i. poke (g i) (v i)) is s) = proc_view s"
  by (induction "is" arbitrary: s) simp_all

lemma clear_mem_view: "sound_blaster_clear_mem env p d s = Some (d', t) \<Longrightarrow> proc_view t = proc_view s"
  by (auto simp: sound_blaster_clear_mem_def Let_def proc_view_pokes dest: sys_close_view)

lemma runs_sound:
  assumes "sound_balster_irq_handler env p cmd d s = Some (d', t)" and "runs st s"
    and irq: "\<And>n s s'. irqs env n s = Some s' \<Longrightarrow> runs st s \<Longrightarrow> runs st s'"
  shows "runs st t"
proof -
  let ?s = "s\<lparr>int_flag := False\<rparr>"
  obtain d1 s1 where s1: "(if sb_status d \<noteq> 0 then sound_refill env p cmd d ?s else Some (d, ?s)) = Some (d1, s1)"
    and t: "proc_view t = proc_view s1"
    using assms(1) by (auto simp: sound_balster_irq_handler_def cli_and_save_def Let_def bind_eq_Some_conv)
  have r: "runs st ?s" by (rule runs_cong [OF _ assms(2)]) simp
  have "runs st s1"
  proof (cases "sb_status d = 0")
    case False
    then have "sound_refill env p cmd d ?s = Some (d1, s1)" using s1 by simp
    then obtain n s2 where s2: "sys_read env (sb_file d) (fd_b_current d) (of_nat DMA_CHUNK) ?s = Some (n, s2)" "proc_view s1 = proc_view s2"
      by (auto simp: sound_refill_def Let_def bind_eq_Some_conv dest!: play_view clear_mem_view sound_stop_view split: if_splits)
    from runs_read [OF s2(1) r irq] have "runs st s2" .
    then show ?thesis by (rule runs_cong [OF s2(2)])
  qed (use s1 r in simp)
  then show ?thesis by (rule runs_cong [OF t])
qed

lemma general_view: "general_interrupt s = Some t \<Longrightarrow> proc_view t = proc_view s"
proof -
  have p: "(0 :: u8) \<notin> set (str ''General interrupt recieved!'' @ [10])" "chr CHR ''%'' \<notin> set (str ''General interrupt recieved!'' @ [10])"
    by code_simp+
  show "general_interrupt s = Some t \<Longrightarrow> proc_view t = proc_view s"
    using printf_view [of "\<lambda>_. 0" "str ''General interrupt recieved!'' @ [10]" "s\<lparr>int_flag := False\<rparr>", OF _ p]
    by (auto simp: general_interrupt_def cli_and_save_def Let_def)
qed

lemma runs_call:
  "leaves (runs st) x \<Longrightarrow> call_result d v x = Some (d', f) \<Longrightarrow> runs st (flow_state f)"
  by (auto simp: call_result_def leaves_def split: flow.split)

lemma runs_run_irq:
  assumes "run_irq c env r e (d, s) = Some (d', f)" and "runs st s"
    and irq: "\<And>n s s'. irqs env n s = Some s' \<Longrightarrow> runs st s \<Longrightarrow> runs st s'"
  shows "runs st (flow_state f)"
proof (cases "e \<in> set exception_entries")
  case True
  from exceptions_die [OF this, of c env r d s] obtain x where "run_irq c env r e (d, s) = call_result d (eax r) x" "dies env s x"
    by blast
  moreover from this assms(1) have "call_result d (eax r) x = Some (d', f)" by simp
  ultimately show ?thesis by (intro runs_call [OF runs_dies [OF _ assms(2)]])
next
  case False
  then have "e \<in> {Pit_irq, Key_irq, Rtc_irq, Mouse_irq, Sb_irq, General_irq, Syscall_irq}"
    by (cases e) (simp_all add: exception_entries_def)
  moreover have "leaves (runs st) (syscall_irq env r s)" by (rule runs_syscall [OF assms(2)]) (rule irq)
  moreover have "runs st t" if "rtc_handle_interrupt s = Some t" for t by (rule runs_cong [OF rtc_interrupt_view [OF that] assms(2)])
  moreover have "runs st (mouse_handle_interrupt s)" by (rule runs_cong [OF proc.V_mouse assms(2)])
  moreover have "runs st t" if "general_interrupt s = Some t" for t by (rule runs_cong [OF general_view [OF that] assms(2)])
  moreover have "runs st t" if "sound_balster_irq_handler env (sound_buf c) (sound_cmd c) d s = Some (d', t)" for t
    by (rule runs_sound [OF that assms(2)]) (rule irq)
  ultimately show ?thesis
    using assms(1) by (auto simp: run_irq_def Let_def leaves_def intro: runs_call [OF runs_timer [OF assms(2)]]
        runs_call [OF runs_keyboard [OF assms(2)]])
qed



end
