(* ===== verification/Speaker.thy ===== *)
theory Speaker
  imports Machine Fmath
begin

text \<open>
  The PC speaker, \<^verbatim>\<open>src/drivers/speaker.c\<close>: channel 2 of the timer, which a gate connects to
  the speaker.
\<close>

definition SPKR_INIT_PORT :: u16 where "SPKR_INIT_PORT = 0x43"

definition SPKR_FREQ_PORT :: u16 where "SPKR_FREQ_PORT = 0x42"

definition SPKR_GATE_PORT :: u16 where "SPKR_GATE_PORT = 0x61"

definition SPKR_INIT_VALU :: u8 where "SPKR_INIT_VALU = 0xB6"

definition SPKR_MUTE_VALU :: u8 where "SPKR_MUTE_VALU = 0xFC"

definition BEEP_FREQUENCY :: u32 where "BEEP_FREQUENCY = 250"

definition BASE_FREQUENCY :: u32 where "BASE_FREQUENCY = 1193180"

definition E3 :: rat where "E3 = 659.26"

definition C3S :: rat where "C3S = 554.37"

definition A3 :: rat where "A3 = 880"

definition HALF_NOTE :: nat where "HALF_NOTE = 1800000"

definition QUARTER_NOTE :: nat where "QUARTER_NOTE = 900000"

definition EIGHTH_NOTE :: nat where "EIGHTH_NOTE = 450000"

lemmas speaker_defs = SPKR_INIT_PORT_def SPKR_FREQ_PORT_def SPKR_GATE_PORT_def SPKR_INIT_VALU_def SPKR_MUTE_VALU_def
  BEEP_FREQUENCY_def BASE_FREQUENCY_def

section \<open>Operations\<close>

text \<open>A frequency of 0 is a division by zero, which faults.\<close>

definition speaker_play_sound :: "u32 \<Rightarrow> 'a machine_scheme \<Rightarrow> 'a machine_scheme option" where
  "speaker_play_sound frequency s =
     (if frequency = 0 then None
      else
        let divider = BASE_FREQUENCY div frequency;
            s = outb SPKR_INIT_VALU SPKR_INIT_PORT s;
            s = outb (ucast divider) SPKR_FREQ_PORT s;
            s = outb (ucast (drop_bit 8 divider)) SPKR_FREQ_PORT s;
            (temp, s) = inb SPKR_GATE_PORT s
        in Some (if temp \<noteq> temp OR 3 then outb (temp OR 3) SPKR_GATE_PORT s else s))"

definition speaker_mute :: "'a machine_scheme \<Rightarrow> 'a machine_scheme" where
  "speaker_mute s =
     (let (v, s) = inb SPKR_GATE_PORT s; temp = v AND SPKR_MUTE_VALU in outb temp SPKR_GATE_PORT s)"

text \<open>\<^verbatim>\<open>for(i = 0; i < n; i++) f();\<close>\<close>

fun times_do :: "nat \<Rightarrow> ('s \<Rightarrow> 's option) \<Rightarrow> 's \<Rightarrow> 's option" where
  "times_do 0 f s = Some s"
| "times_do (Suc n) f s = Option.bind (f s) (times_do n f)"

definition speaker_single_beep :: "'a machine_scheme \<Rightarrow> 'a machine_scheme option" where
  "speaker_single_beep s =
     map_option speaker_mute (times_do 100000 (speaker_play_sound BEEP_FREQUENCY) s)"

text \<open>The notes are constants of type \<^verbatim>\<open>double\<close>, converted to \<^verbatim>\<open>uint32_t\<close> by the call.\<close>

definition note_frequency :: "rat \<Rightarrow> u32" where
  "note_frequency f = of_int (trunc f)"

definition sound_bootup :: "'a machine_scheme \<Rightarrow> 'a machine_scheme option" where
  "sound_bootup s =
     Option.bind (times_do QUARTER_NOTE (speaker_play_sound (note_frequency E3)) s) (\<lambda>s.
     Option.bind (times_do EIGHTH_NOTE (Some \<circ> speaker_mute) s) (\<lambda>s.
     Option.bind (times_do QUARTER_NOTE (speaker_play_sound (note_frequency E3)) s) (\<lambda>s.
     Option.bind (times_do EIGHTH_NOTE (Some \<circ> speaker_mute) s) (\<lambda>s.
     Option.bind (times_do EIGHTH_NOTE (speaker_play_sound (note_frequency E3)) s) (\<lambda>s.
     Option.bind (times_do EIGHTH_NOTE (Some \<circ> speaker_mute) s) (\<lambda>s.
     Option.bind (times_do EIGHTH_NOTE (speaker_play_sound (note_frequency C3S)) s) (\<lambda>s.
     Option.bind (times_do EIGHTH_NOTE (Some \<circ> speaker_mute) s) (\<lambda>s.
     Option.bind (times_do HALF_NOTE (speaker_play_sound (note_frequency A3)) s) (\<lambda>s.
     Some (speaker_mute s))))))))))"

section \<open>Correctness\<close>

lemma note_frequencies: "note_frequency E3 = 659" "note_frequency C3S = 554" "note_frequency A3 = 880"
proof -
  have "trunc E3 = 659" "trunc C3S = 554" "trunc A3 = 880" by code_simp+
  then show "note_frequency E3 = 659" "note_frequency C3S = 554" "note_frequency A3 = 880"
    by (simp_all add: note_frequency_def)
qed

lemma times_do_inv:
  assumes "P s" and "\<And>s. P s \<Longrightarrow> \<exists>s'. f s = Some s' \<and> P s'"
  shows "\<exists>s'. times_do n f s = Some s' \<and> P s'"
  using assms(1) by (induction n arbitrary: s) (auto dest: assms(2))

text \<open>Only the ports are touched.\<close>

definition ports_only :: "'a machine_scheme \<Rightarrow> 'a machine_scheme \<Rightarrow> bool" where
  "ports_only s t \<longleftrightarrow> mem t = mem s \<and> port_in t = port_in s \<and> int_flag t = int_flag s \<and> machine.more t = machine.more s"

lemma play_ports:
  assumes "ports_only s t" and "f \<noteq> 0"
  shows "\<exists>t'. speaker_play_sound f t = Some t' \<and> ports_only s t'"
  using assms by (auto simp: speaker_play_sound_def Let_def inb_def outb_def ports_only_def)

lemma mute_ports:
  assumes "ports_only s t"
  shows "\<exists>t'. (Some \<circ> speaker_mute) t = Some t' \<and> ports_only s t'"
  using assms by (simp add: speaker_mute_def Let_def inb_def outb_def ports_only_def)

lemma play_note: "ports_only s t \<Longrightarrow> f \<noteq> 0 \<Longrightarrow> \<exists>t'. times_do n (speaker_play_sound f) t = Some t' \<and> ports_only s t'"
  by (rule times_do_inv) (simp_all add: play_ports)

lemma pause_note: "ports_only s t \<Longrightarrow> \<exists>t'. times_do n (Some \<circ> speaker_mute) t = Some t' \<and> ports_only s t'"
  by (rule times_do_inv) (use mute_ports in auto)

lemma mute_last:
  "\<exists>v. last (port_out (speaker_mute s)) = (SPKR_GATE_PORT, v) \<and> v AND 3 = 0"
proof -
  have "(v AND SPKR_MUTE_VALU) AND 3 = 0" for v :: u8
    by (simp add: SPKR_MUTE_VALU_def and.assoc)
  then show ?thesis by (simp add: speaker_mute_def Let_def inb_def)
qed

section \<open>Properties\<close>

text \<open>A frequency of at least 19 Hz is programmed as the reload count \<^verbatim>\<open>1193180 / frequency\<close>, low
  byte first, and the gate of the speaker is opened unless it is open.\<close>

theorem speaker_programs_divider:
  assumes "19 \<le> unat f"
  shows "\<exists>lo hi t. speaker_play_sound f s = Some t \<and> unat lo + 256 * unat hi = 1193180 div unat f \<and>
    port_out t = port_out s @ [(0x43, 0xB6), (0x42, lo), (0x42, hi)] @
      (let g = port_in s (in_count s) 0x61 in if g AND 3 = 3 then [] else [(0x61, g OR 3)])"
proof -
  define d where "d = BASE_FREQUENCY div f"
  have "unat d = 1193180 div unat f" by (simp add: d_def BASE_FREQUENCY_def unat_div)
  moreover have "1193180 div unat f \<le> 1193180 div 19" using assms by (intro div_le_mono2) simp_all
  ultimately have d: "unat d = 1193180 div unat f" "unat d < 65536" by simp_all
  have "unat (ucast d :: u8) + 256 * unat (ucast (drop_bit 8 d) :: u8) = unat d"
  proof -
    have "unat d div 256 < 256" using d(2) by linarith
    then show ?thesis by (simp add: unsigned_ucast_eq take_bit_eq_mod drop_bit_eq_div unat_div)
  qed
  moreover have "g \<noteq> g OR 3 \<longleftrightarrow> g AND 3 \<noteq> 3" for g :: u8
  proof -
    have "g OR 3 = g \<longleftrightarrow> g AND 3 = 3"
    proof
      assume "g OR 3 = g"
      then show "g AND 3 = 3" by (metis and.commute bit.conj_disj_distrib and.idem or.commute word_ao_absorbs(2))
    next
      assume "g AND 3 = 3"
      then show "g OR 3 = g" by (metis word_ao_absorbs(4) and.commute or.commute)
    qed
    then show ?thesis by metis
  qed
  moreover have "f \<noteq> 0" using assms by auto
  ultimately show ?thesis
    unfolding speaker_play_sound_def Let_def d_def [symmetric]
    by (rule_tac exI [of _ "ucast d"], rule_tac exI [of _ "ucast (drop_bit 8 d)"])
      (simp add: d(1) inb_def SPKR_INIT_PORT_def SPKR_FREQ_PORT_def SPKR_GATE_PORT_def SPKR_INIT_VALU_def)
qed

theorem speaker_programs_divider_witness:
  "\<forall>s :: machine. \<exists>lo hi t. speaker_play_sound 250 s = Some t \<and> unat (lo :: u8) + 256 * unat (hi :: u8) = 4772"
proof
  fix s :: machine
  have q: "19 \<le> unat (250 :: u32)" "1193180 div unat (250 :: u32) = 4772" by simp_all
  from speaker_programs_divider [of 250 s, OF q(1), unfolded q(2)]
  show "\<exists>lo hi t. speaker_play_sound 250 s = Some t \<and> unat (lo :: u8) + 256 * unat (hi :: u8) = 4772"
    by blast
qed

text \<open>C40: the boot melody ends, and leaves the speaker muted; it changes nothing but the ports.\<close>

theorem sound_bootup_ends_muted:
  "\<exists>t v. sound_bootup s = Some t \<and> last (port_out t) = (SPKR_GATE_PORT, v) \<and> v AND 3 = 0 \<and> ports_only s t"
proof -
  have "ports_only s s" by (simp add: ports_only_def)
  have nz: "(659 :: u32) \<noteq> 0" "(554 :: u32) \<noteq> 0" "(880 :: u32) \<noteq> 0" by simp_all
  obtain s1 where s1: "times_do QUARTER_NOTE (speaker_play_sound 659) s = Some s1" "ports_only s s1" using play_note [OF \<open>ports_only s s\<close> nz(1)] by blast
  obtain s2 where s2: "times_do EIGHTH_NOTE (Some \<circ> speaker_mute) s1 = Some s2" "ports_only s s2" using pause_note [OF s1(2)] by blast
  obtain s3 where s3: "times_do QUARTER_NOTE (speaker_play_sound 659) s2 = Some s3" "ports_only s s3" using play_note [OF s2(2) nz(1)] by blast
  obtain s4 where s4: "times_do EIGHTH_NOTE (Some \<circ> speaker_mute) s3 = Some s4" "ports_only s s4" using pause_note [OF s3(2)] by blast
  obtain s5 where s5: "times_do EIGHTH_NOTE (speaker_play_sound 659) s4 = Some s5" "ports_only s s5" using play_note [OF s4(2) nz(1)] by blast
  obtain s6 where s6: "times_do EIGHTH_NOTE (Some \<circ> speaker_mute) s5 = Some s6" "ports_only s s6" using pause_note [OF s5(2)] by blast
  obtain s7 where s7: "times_do EIGHTH_NOTE (speaker_play_sound 554) s6 = Some s7" "ports_only s s7" using play_note [OF s6(2) nz(2)] by blast
  obtain s8 where s8: "times_do EIGHTH_NOTE (Some \<circ> speaker_mute) s7 = Some s8" "ports_only s s8" using pause_note [OF s7(2)] by blast
  obtain s9 where s9: "times_do HALF_NOTE (speaker_play_sound 880) s8 = Some s9" "ports_only s s9" using play_note [OF s8(2) nz(3)] by blast
  have "sound_bootup s = Some (speaker_mute s9)"
    by (simp only: sound_bootup_def note_frequencies s1(1) s2(1) s3(1) s4(1) s5(1) s6(1) s7(1) s8(1) s9(1) bind.bind_lunit)
  then show ?thesis using mute_last [of s9] mute_ports [OF s9(2)] by auto
qed

end
