(* ===== verification/Boot.thy ===== *)
theory Boot
  imports Idt Speaker "HOL-Library.Monad_Syntax"
begin

text \<open>
  The C entry point of the kernel, \<^verbatim>\<open>entry\<close> of \<^verbatim>\<open>src/boot/kernel.c\<close>: it reads what the boot loader
  left, sets up the descriptors, the devices, paging and the file system, and executes the
  shell. The interrupts that come after its \<^verbatim>\<open>sti\<close> are not part of it.
\<close>

section \<open>Descriptors\<close>

record seg_desc =
  seg_lim_15_00 :: u16
  base_15_00 :: u16
  base_23_16 :: u8
  seg_type :: "4 word"
  seg_sys :: bool
  seg_dpl :: "2 word"
  seg_present :: bool
  seg_lim_19_16 :: "4 word"
  seg_avail :: bool
  seg_reserved :: bool
  seg_opsize :: bool
  seg_granularity :: bool
  base_31_24 :: u8

definition KERNEL_DS :: u16 where "KERNEL_DS = 0x0018"

definition KERNEL_TSS :: u16 where "KERNEL_TSS = 0x0030"

definition KERNEL_LDT :: u16 where "KERNEL_LDT = 0x0038"

definition TSS_SIZE :: u32 where "TSS_SIZE = 104"

definition SET_LDT_PARAMS :: "u32 \<Rightarrow> u32 \<Rightarrow> seg_desc \<Rightarrow> seg_desc" where
  "SET_LDT_PARAMS addr bound d =
     d\<lparr>base_31_24 := ucast (drop_bit 24 (addr AND 0xFF000000)), base_23_16 := ucast (drop_bit 16 (addr AND 0x00FF0000)),
       base_15_00 := ucast (addr AND 0x0000FFFF), seg_lim_19_16 := ucast (drop_bit 16 (bound AND 0x000F0000)),
       seg_lim_15_00 := ucast (bound AND 0x0000FFFF)\<rparr>"

definition SET_TSS_PARAMS :: "u32 \<Rightarrow> u32 \<Rightarrow> seg_desc \<Rightarrow> seg_desc" where
  "SET_TSS_PARAMS addr bound d =
     d\<lparr>base_31_24 := ucast (drop_bit 24 (addr AND 0xFF000000)), base_23_16 := ucast (drop_bit 16 (addr AND 0x00FF0000)),
       base_15_00 := ucast (addr AND 0x0000FFFF), seg_lim_19_16 := ucast (drop_bit 16 (bound AND 0x000F0000)),
       seg_lim_15_00 := ucast (bound AND 0x0000FFFF)\<rparr>"

text \<open>The entries of the GDT that are set, the fields of the TSS (its \<^verbatim>\<open>esp0\<close> is part of the kernel's
  state), and the registers that \<^verbatim>\<open>lldt\<close> and \<^verbatim>\<open>ltr\<close> load.\<close>

record cpu_tables =
  ldt_desc_ptr :: seg_desc
  tss_desc_ptr :: seg_desc
  ldt_segment_selector :: u16
  tss_ss0 :: u16
  ldtr :: u16
  task_register :: u16

text \<open>What the linker, the stack and the assembly files give: the addresses and sizes of the tables, the
  contents of the locals before they are set, and the parameters of the sound driver.\<close>

record boot_context =
  ldt_addr :: u32
  ldt_size :: u32
  tss_addr :: u32
  tss_size :: u32
  the_desc :: seg_desc
  d_buf_addr :: u32
  stale_cmd :: u8

text \<open>The macros that load a register of the processor.\<close>

definition lldt :: "u16 \<Rightarrow> cpu_tables \<Rightarrow> cpu_tables" where [simp]:
  "lldt desc g = g\<lparr>ldtr := desc\<rparr>"

definition ltr :: "u16 \<Rightarrow> cpu_tables \<Rightarrow> cpu_tables" where [simp]:
  "ltr desc g = g\<lparr>task_register := desc\<rparr>"

definition load_ldt :: "boot_context \<Rightarrow> cpu_tables \<Rightarrow> cpu_tables" where
  "load_ldt b g =
     (let the_ldt_desc = the_desc b\<lparr>seg_granularity := False, seg_opsize := True, seg_reserved := False, seg_avail := False,
            seg_present := True, seg_dpl := 0, seg_sys := False, seg_type := 2\<rparr>;
          the_ldt_desc = SET_LDT_PARAMS (ldt_addr b) (ldt_size b) the_ldt_desc;
          g = g\<lparr>ldt_desc_ptr := the_ldt_desc\<rparr>
      in lldt KERNEL_LDT g)"

definition load_tss :: "boot_context \<Rightarrow> cpu_tables \<Rightarrow> 'a kernel_scheme \<Rightarrow> cpu_tables \<times> 'a kernel_scheme" where
  "load_tss b g s =
     (let the_tss_desc = the_desc b\<lparr>seg_granularity := False, seg_opsize := False, seg_reserved := False, seg_avail := False,
            seg_lim_19_16 := ucast (TSS_SIZE AND 0x000F0000), seg_present := True, seg_dpl := 0, seg_sys := False, seg_type := 9,
            seg_lim_15_00 := ucast (TSS_SIZE AND 0x0000FFFF)\<rparr>;
          the_tss_desc = SET_TSS_PARAMS (tss_addr b) (tss_size b) the_tss_desc;
          g = g\<lparr>tss_desc_ptr := the_tss_desc\<rparr>;
          g = g\<lparr>ldt_segment_selector := KERNEL_LDT, tss_ss0 := KERNEL_DS\<rparr>;
          s = s\<lparr>tss_esp0 := 0x800000\<rparr>
      in (ltr KERNEL_TSS g, s))"

section \<open>The boot information\<close>

definition MULTIBOOT_BOOTLOADER_MAGIC :: u32 where "MULTIBOOT_BOOTLOADER_MAGIC = 0x2BADB002"

definition MOD_FS_STRING :: u32 where "MOD_FS_STRING = 8201"

definition CHECK_FLAG :: "u32 \<Rightarrow> nat \<Rightarrow> bool" where
  "CHECK_FLAG flags b \<longleftrightarrow> flags AND push_bit b 1 \<noteq> 0"

text \<open>The fields of \<^verbatim>\<open>multiboot_info_t\<close>, by their offsets.\<close>

definition mbi_field :: "u32 \<Rightarrow> u32 \<Rightarrow> 'a machine_scheme \<Rightarrow> u32" where
  "mbi_field mbi k s = load32 (mem s) (mbi + k)"

definition say :: "u8 list \<Rightarrow> printf_arg list \<Rightarrow> 'a console_scheme \<Rightarrow> 'a console_scheme option" where
  "say cs args s = map_option snd (printf (\<lambda>_. 0) (arr (cs @ [0])) args s)"

text \<open>The loop over the modules, of which the last one with the right string counts.\<close>

definition find_fs :: "memory \<Rightarrow> u32 \<Rightarrow> u32 \<Rightarrow> u32" where
  "find_fs m mods n =
     fold (\<lambda>i fs_start. if load32 m (mods + 16 * of_nat i + 8) = MOD_FS_STRING then load32 m (mods + 16 * of_nat i) else fs_start)
       [0..<unat n] 0"

text \<open>The loop over the memory map, whose body is compiled out.\<close>

partial_function (option) mmap_walk :: "memory \<Rightarrow> u32 \<Rightarrow> u32 \<Rightarrow> unit option" where
  "mmap_walk m mmap e = (if mmap < e then mmap_walk m (mmap + load32 m mmap + 4) e else Some ())"

text \<open>From the first flag to the last; without the address of the file system if the code returns.\<close>

definition boot_info :: "u32 \<Rightarrow> 'a console_scheme \<Rightarrow> (u32 option \<times> 'a console_scheme) option" where
  "boot_info mbi s = do {
     s \<leftarrow> (if CHECK_FLAG (mbi_field mbi 0 s) 0 then
             say (str ''mem_lower = %uKB, mem_upper = %uKB'' @ [10]) [Num (mbi_field mbi 4 s), Num (mbi_field mbi 8 s)] s
           else Some s);
     s \<leftarrow> (if CHECK_FLAG (mbi_field mbi 0 s) 1 then say (str ''boot_device = 0x%#x'' @ [10]) [Num (mbi_field mbi 12 s)] s
           else Some s);
     s \<leftarrow> (if CHECK_FLAG (mbi_field mbi 0 s) 2 then say (str ''cmdline = %s'' @ [10]) [Ptr (view (mem s) (mbi_field mbi 16 s))] s
           else Some s);
     let fs_start = (if CHECK_FLAG (mbi_field mbi 0 s) 3 then find_fs (mem s) (mbi_field mbi 24 s) (mbi_field mbi 20 s) else 0);
     if CHECK_FLAG (mbi_field mbi 0 s) 4 \<and> CHECK_FLAG (mbi_field mbi 0 s) 5 then
       map_option (Pair None) (say (str ''Both bits 4 and 5 are set.'' @ [10]) [] s)
     else do {
       s \<leftarrow> (if CHECK_FLAG (mbi_field mbi 0 s) 5 then
               say (str ''elf_sec: num = %u, size = 0x%#x, addr = 0x%#x, shndx = 0x%#x'' @ [10])
                 [Num (mbi_field mbi 28 s), Num (mbi_field mbi 32 s), Num (mbi_field mbi 36 s), Num (mbi_field mbi 40 s)] s
             else Some s);
       s \<leftarrow> (if CHECK_FLAG (mbi_field mbi 0 s) 6 then do {
               s \<leftarrow> say (str ''mmap_addr = 0x%#x, mmap_length = 0x%x'' @ [10]) [Num (mbi_field mbi 48 s), Num (mbi_field mbi 44 s)] s;
               mmap_walk (mem s) (mbi_field mbi 48 s) (mbi_field mbi 48 s + mbi_field mbi 44 s);
               Some s }
             else Some s);
       Some (Some fs_start, s) } }"

section \<open>Starting up\<close>

definition announce :: "string \<Rightarrow> ('a console_scheme \<Rightarrow> 'a console_scheme) \<Rightarrow> 'a console_scheme \<Rightarrow> 'a console_scheme option" where
  "announce msg act s = do {
     s \<leftarrow> say (str msg) [] s;
     let s = act s;
     say (str ''[ OK ]'' @ [10]) [] s }"

definition boot_devices :: "(rat \<Rightarrow> rat) \<Rightarrow> 'a kernel_scheme \<Rightarrow> 'a kernel_scheme option" where
  "boot_devices rnd s = do {
     let s = i8259_init s;
     s \<leftarrow> announce ''Initalizing RTC               ... '' (rtc_init rnd 0) s;
     s \<leftarrow> announce ''Initalizing PIT               ... '' pit_init s;
     s \<leftarrow> announce ''Enabling Slave PIC interrupts ... '' (enable_irq 2) s;
     s \<leftarrow> announce ''Enabling keyboard interrupts  ... '' (enable_irq 1) s;
     s \<leftarrow> announce ''Enabling mouse interrupts     ... '' (enable_irq 12) s;
     s \<leftarrow> announce ''Enabling RTC interrupts       ... '' (enable_irq 8) s;
     announce ''Enabling PIT interrupts       ... '' (enable_irq 0) s }"

text \<open>How the code ends when it does not enter a program: it returns to \<^verbatim>\<open>src/boot/boot.S\<close>, which halts,
  or halts itself.\<close>

datatype boot_stop = Returns | Halts

definition boot_shell ::
  "boot_context \<Rightarrow> 'a kernel_scheme env \<Rightarrow> u32 \<Rightarrow> sb \<Rightarrow> 'a kernel_scheme
     \<Rightarrow> (sb \<times> (boot_stop, 'a kernel_scheme) flow) option" where
  "boot_shell b env fs_start d s = do {
     let s = sti s;
     let s = init_paging s;
     let s = mouse_init s;
     let s = enable_irq 5 s;
     (d, s) \<leftarrow> init_sound_blaster d s;
     (d, s) \<leftarrow> sound_blaster_play_test (d_buf_addr b) (stale_cmd b) d s;
     let s = fs_init fs_start s;
     let s = clear_screen s;
     map_option (\<lambda>f. (d, case f of Ret _ s \<Rightarrow> Ret Halts s | Enter_user e s \<Rightarrow> Enter_user e s | Resume_stack s \<Rightarrow> Resume_stack s))
       (execute env (shell_literal env) s) }"

definition entry ::
  "boot_context \<Rightarrow> 'a kernel_scheme env \<Rightarrow> u32 \<Rightarrow> u32 \<Rightarrow> sb \<times> cpu_tables \<times> 'a kernel_scheme
     \<Rightarrow> (sb \<times> cpu_tables \<times> (boot_stop, 'a kernel_scheme) flow) option" where
  "entry b env magic addr = (\<lambda>(d, g, s).
     let s = clear s in
     if magic \<noteq> MULTIBOOT_BOOTLOADER_MAGIC then
       map_option (\<lambda>s. (d, g, Ret Returns s)) (say (str ''Invalid magic number: 0x%#x'' @ [10]) [Num magic] s)
     else do {
       (r, s) \<leftarrow> boot_info addr s;
       case r of
         None \<Rightarrow> Some (d, g, Ret Returns s)
       | Some fs_start \<Rightarrow> do {
           let g = load_ldt b g;
           let (g, s) = load_tss b g s;
           s \<leftarrow> boot_devices (rounding env) s;
           (d, f) \<leftarrow> boot_shell b env fs_start d s;
           Some (d, g, f) } })"

section \<open>The splash screen\<close>

text \<open>Its call in \<^verbatim>\<open>entry\<close> is commented out.\<close>

definition splash_screen :: "'a console_scheme \<Rightarrow> 'a console_scheme option" where
  "splash_screen s = do {
     let s = clear_screen s;
     s \<leftarrow> say (replicate 8 10) [] s;
     s \<leftarrow> say (str ''                                                _  ____   _____                '' @ [10]) [] s;
     s \<leftarrow> say (str ''                                               | |/ __ '' @ [92] @ str '' / ____|               '' @ [10]) [] s;
     s \<leftarrow> say (str ''                 __ _ _   _  __ _ _ __ __ _  __| | |  | | (___                 '' @ [10]) [] s;
     s \<leftarrow> say (str ''                / _` | | | |/ _` | '' @ [39] @ str ''__/ _` |/ _` | |  | |'' @ [92] @ str ''___ '' @ [92] @ str ''                '' @ [10]) [] s;
     s \<leftarrow> say (str ''               | (_| | |_| | (_| | | | (_| | (_| | |__| |____) |               '' @ [10]) [] s;
     s \<leftarrow> say (str ''                '' @ [92] @ str ''__, |'' @ [92] @ str ''__, |'' @ [92] @ str ''__,_|_|  '' @ [92] @ str ''__,_|'' @ [92] @ str ''__,_|'' @ [92] @ str ''____/|_____/                '' @ [10]) [] s;
     s \<leftarrow> say (str ''                 __/ | __/ |                                                   '' @ [10]) [] s;
     s \<leftarrow> say (str ''                |___/ |___/                                                    '') [] s;
     s \<leftarrow> say (replicate 8 10) [] s;
     s \<leftarrow> sound_bootup s;
     Some (clear_screen s) }"

section \<open>Printing at boot\<close>

text \<open>The kinds of the arguments, numbers or strings, decide whether a format can be printed.\<close>

datatype arg_kind = KNum | KStr

fun has_kind :: "arg_kind \<Rightarrow> text_arg \<Rightarrow> bool" where
  "has_kind KNum (TNum _) \<longleftrightarrow> True"
| "has_kind KStr (TStr _) \<longleftrightarrow> True"
| "has_kind _ _ \<longleftrightarrow> False"

fun format_ok :: "bool \<Rightarrow> u8 list \<Rightarrow> arg_kind list \<Rightarrow> bool" where
  "format_ok conv [] ks \<longleftrightarrow> \<not> conv"
| "format_ok False (c # cs) ks \<longleftrightarrow> format_ok (c = chr CHR ''%'') cs ks"
| "format_ok True (c # cs) ks \<longleftrightarrow>
     (if c = chr CHR ''#'' then format_ok True cs ks
      else if c = chr CHR ''%'' then format_ok False cs ks
      else if c \<in> {chr CHR ''x'', chr CHR ''u'', chr CHR ''d'', chr CHR ''c''} then
        (case ks of KNum # ks \<Rightarrow> format_ok False cs ks | _ \<Rightarrow> False)
      else if c = chr CHR ''s'' then (case ks of KStr # ks \<Rightarrow> format_ok False cs ks | _ \<Rightarrow> False)
      else format_ok False cs ks)"

lemma has_kinds:
  "list_all2 has_kind (KNum # ks) ts \<longleftrightarrow> (\<exists>v us. ts = TNum v # us \<and> list_all2 has_kind ks us)"
  "list_all2 has_kind (KStr # ks) ts \<longleftrightarrow> (\<exists>xs us. ts = TStr xs # us \<and> list_all2 has_kind ks us)"
  by (cases ts; cases "hd ts"; auto)+

lemma format_ok_text:
  "format_ok (mode \<noteq> None) cs ks \<Longrightarrow> list_all2 has_kind ks ts \<Longrightarrow> \<exists>out. format_text mode cs ts = Some out"
proof (induction mode cs ts arbitrary: ks rule: format_text.induct)
  case (3 c cs args)
  then show ?case by (cases "c = chr CHR ''%''") fastforce+
next
  case (4 alt c cs args)
  show ?case
  proof (cases "c = chr CHR ''#''")
    case True
    then show ?thesis using "4.IH"(1) [OF True, of ks] "4.prems" by simp
  next
    case False
    obtain out rest ks' where "conv_text alt c args = Some (out, rest)" "list_all2 has_kind ks' rest" "format_ok False cs ks'"
      using "4.prems" False by (auto simp: conv_text_def has_kinds split: if_splits list.splits arg_kind.splits)
    with "4.IH"(2) [OF False this(1) refl _ this(2)] False show ?thesis by auto
  qed
qed auto

text \<open>What printing and \<^verbatim>\<open>clear\<close> keep.\<close>

definition displays :: "'a console_scheme \<Rightarrow> 'a console_scheme \<Rightarrow> bool" where
  "displays s t \<longleftrightarrow> console_step s t \<and> (cursor_ok s \<longrightarrow> cursor_ok t)"

lemma displays_refl [simp]: "displays s s"
  by (simp add: displays_def)

lemma displays_trans: "displays s t \<Longrightarrow> displays t u \<Longrightarrow> displays s u"
  by (auto simp: displays_def intro: console_step_trans)

lemma say_shows:
  assumes "cursor_ok s" "0 \<notin> set cs" "format_ok False cs kinds" "list_all2 has_kind kinds targs" "list_all2 denotes args targs"
  shows "\<exists>t. say cs args s = Some t \<and> displays s t \<and> cursor_ok t"
proof -
  obtain out where out: "format_text None cs targs = Some out" using format_ok_text [of None cs kinds targs] assms(3,4) by auto
  have "cstr (arr (cs @ [0])) cs" using cstr_arr [OF assms(2), of "[]"] by simp
  from printf_prints [OF this out assms(5), of "\<lambda>_. 0" s] putc_run [OF assms(1), of out] show ?thesis
    by (auto simp: say_def displays_def)
qed

lemma say_plain:
  assumes "cursor_ok s" "0 \<notin> set cs" "chr CHR ''%'' \<notin> set cs"
  shows "\<exists>t. say cs [] s = Some t \<and> displays s t \<and> cursor_ok t"
proof -
  have "format_ok False cs []" using assms(3) by (induction cs) auto
  then show ?thesis using say_shows [OF assms(1,2), of "[]" "[]" "[]"] by simp
qed

lemma clear_displays: "displays s (clear s)"
  by (simp add: displays_def console_step_def clear_mem cursor_ok_def blank_screen_cells(3))

lemma clear_screen_displays: "displays s (clear_screen s)"
proof -
  define u where "u = set_y (lib_active_terminal s) 0 (set_x (lib_active_terminal s) 0 (clear s))"
  have c: "clear_screen s = update_cursor (screen_y u (lib_active_terminal s)) (screen_x u (lib_active_terminal s)) u"
    unfolding clear_screen_def clear_def [symmetric] u_def Let_def by (simp add: clear_mem)
  have "console_step s u" "cursor_ok s \<longrightarrow> cursor_ok u"
    by (auto simp: u_def clear_mem console_step_def cursor_ok_def blank_screen_cells(3) set_x_def set_y_def)
  then show ?thesis
    unfolding c displays_def by (auto intro: console_step_trans)
qed

section \<open>The boot information is read\<close>

lemma displays_memory: "displays s t \<Longrightarrow> off_screen_same (mem s) (mem t)"
  by (simp add: displays_def console_step_def)

lemma mbi_field_same:
  assumes "displays s t" "rng mbi 52 \<inter> rng VIDEO 4000 = {}" "unat k \<le> 48"
  shows "mbi_field mbi k t = mbi_field mbi k s"
proof -
  have "mem t (mbi + k + j) = mem s (mbi + k + j)" if "unat j < 4" for j
  proof -
    have "unat (k + j) = unat k + unat j" using that assms(3) by (subst unat_add_lem [THEN iffD1]) simp_all
    then have "mbi + (k + j) \<in> rng mbi 52" using that assms(3) by simp
    then show ?thesis using assms(2) displays_memory [OF assms(1)] by (auto simp: off_screen_same_def add.assoc simp del: in_rng)
  qed
  from this [of 0] this [of 1] this [of 2] this [of 3] show ?thesis by (simp add: mbi_field_def load32_def)
qed

text \<open>
  The boot information is in memory that is not on the screen, has a module for the file system,
  and whatever is on the screen, the command line is a string and the walk over the memory map ends.
\<close>

definition boot_info_ok :: "u32 \<Rightarrow> u32 \<Rightarrow> 'a console_scheme \<Rightarrow> bool" where
  "boot_info_ok mbi fs_start s \<longleftrightarrow>
     (let flags = mbi_field mbi 0 s in
      rng mbi 52 \<inter> rng VIDEO 4000 = {} \<and> CHECK_FLAG flags 3 \<and> \<not> (CHECK_FLAG flags 4 \<and> CHECK_FLAG flags 5) \<and>
      (\<forall>m. off_screen_same (mem s) m \<longrightarrow> find_fs m (mbi_field mbi 24 s) (mbi_field mbi 20 s) = fs_start \<and>
         (CHECK_FLAG flags 2 \<longrightarrow> (\<exists>xs. cstr (view m (mbi_field mbi 16 s)) xs)) \<and>
         (CHECK_FLAG flags 6 \<longrightarrow> mmap_walk m (mbi_field mbi 48 s) (mbi_field mbi 48 s + mbi_field mbi 44 s) \<noteq> None)))"

lemma say_if:
  assumes "cursor_ok s" "0 \<notin> set cs" "format_ok False cs kinds" "list_all2 has_kind kinds targs" "c \<Longrightarrow> list_all2 denotes args targs"
  shows "\<exists>t. (if c then say cs args s else Some s) = Some t \<and> displays s t \<and> cursor_ok t"
  using say_shows [OF assms(1-4)] assms(1,5) by auto

lemma boot_formats:
  "0 \<notin> set (str ''mem_lower = %uKB, mem_upper = %uKB'' @ [10])" "format_ok False (str ''mem_lower = %uKB, mem_upper = %uKB'' @ [10]) [KNum, KNum]"
  "0 \<notin> set (str ''boot_device = 0x%#x'' @ [10])" "format_ok False (str ''boot_device = 0x%#x'' @ [10]) [KNum]"
  "0 \<notin> set (str ''cmdline = %s'' @ [10])" "format_ok False (str ''cmdline = %s'' @ [10]) [KStr]"
  "0 \<notin> set (str ''elf_sec: num = %u, size = 0x%#x, addr = 0x%#x, shndx = 0x%#x'' @ [10])"
  "format_ok False (str ''elf_sec: num = %u, size = 0x%#x, addr = 0x%#x, shndx = 0x%#x'' @ [10]) [KNum, KNum, KNum, KNum]"
  "0 \<notin> set (str ''mmap_addr = 0x%#x, mmap_length = 0x%x'' @ [10])"
  "format_ok False (str ''mmap_addr = 0x%#x, mmap_length = 0x%x'' @ [10]) [KNum, KNum]"
  by code_simp+

lemma say_next:
  assumes "displays s u" "cursor_ok u" "0 \<notin> set cs" "format_ok False cs kinds" "list_all2 has_kind kinds targs"
    and "c \<Longrightarrow> list_all2 denotes args targs"
  obtains t where "(if c then say cs args u else Some u) = Some t" "displays s t" "cursor_ok t"
  using say_if [OF assms(2-5), of c args] assms(1,6) displays_trans by blast

lemma boot_info_returns:
  assumes ok: "boot_info_ok mbi fs_start s" and "cursor_ok s"
  shows "\<exists>t. boot_info mbi s = Some (Some fs_start, t) \<and> displays s t \<and> cursor_ok t"
proof -
  let ?F = "\<lambda>n. CHECK_FLAG (mbi_field mbi 0 s) n" and ?f = "\<lambda>k. mbi_field mbi k s"
  have off: "rng mbi 52 \<inter> rng VIDEO 4000 = {}" and f: "?F 3" "\<not> (?F 4 \<and> ?F 5)" using ok by (simp_all add: boot_info_ok_def Let_def)
  have m: "find_fs m (?f 24) (?f 20) = fs_start"
    "?F 2 \<Longrightarrow> \<exists>xs. cstr (view m (?f 16)) xs"
    "?F 6 \<Longrightarrow> mmap_walk m (?f 48) (?f 48 + ?f 44) \<noteq> None"
    if "displays s u" "m = mem u" for m and u :: "'a console_scheme"
    using ok displays_memory [OF that(1)] that(2) by (auto simp: boot_info_ok_def Let_def)
  have fld: "unat k \<le> 48 \<Longrightarrow> mbi_field mbi k t = ?f k" if "displays s t" for k and t :: "'a console_scheme"
    by (rule mbi_field_same [OF that off])
  obtain s1 where s1: "(if ?F 0 then say (str ''mem_lower = %uKB, mem_upper = %uKB'' @ [10]) [Num (?f 4), Num (?f 8)] s
      else Some s) = Some s1" "displays s s1" "cursor_ok s1"
    by (rule say_next [OF displays_refl assms(2) boot_formats(1,2), where targs = "[TNum (?f 4), TNum (?f 8)]" and c = "?F 0"
        and args = "[Num (?f 4), Num (?f 8)]"]) simp_all
  obtain s2 where s2: "(if ?F 1 then say (str ''boot_device = 0x%#x'' @ [10]) [Num (?f 12)] s1 else Some s1) = Some s2"
    "displays s s2" "cursor_ok s2"
    by (rule say_next [OF s1(2,3) boot_formats(3,4), where targs = "[TNum (?f 12)]" and c = "?F 1"
        and args = "[Num (?f 12)]"]) simp_all
  obtain xs where xs: "?F 2 \<Longrightarrow> cstr (view (mem s2) (?f 16)) xs" using m(2) [OF s2(2) refl] by blast
  obtain s3 where s3: "(if ?F 2 then say (str ''cmdline = %s'' @ [10]) [Ptr (view (mem s2) (?f 16))] s2 else Some s2) = Some s3"
    "displays s s3" "cursor_ok s3"
    by (rule say_next [OF s2(2,3) boot_formats(5,6), where targs = "[TStr xs]" and c = "?F 2"
        and args = "[Ptr (view (mem s2) (?f 16))]"]) (simp_all add: xs)
  obtain s4 where s4: "(if ?F 5 then say (str ''elf_sec: num = %u, size = 0x%#x, addr = 0x%#x, shndx = 0x%#x'' @ [10])
      [Num (?f 28), Num (?f 32), Num (?f 36), Num (?f 40)] s3 else Some s3) = Some s4" "displays s s4" "cursor_ok s4"
    by (rule say_next [OF s3(2,3) boot_formats(7,8), where targs = "[TNum (?f 28), TNum (?f 32), TNum (?f 36), TNum (?f 40)]" and c = "?F 5"
        and args = "[Num (?f 28), Num (?f 32), Num (?f 36), Num (?f 40)]"]) simp_all
  obtain s5 where s5: "(if True then say (str ''mmap_addr = 0x%#x, mmap_length = 0x%x'' @ [10]) [Num (?f 48), Num (?f 44)] s4 else Some s4) = Some s5"
    "displays s s5" "cursor_ok s5"
    by (rule say_next [OF s4(2,3) boot_formats(9,10), where targs = "[TNum (?f 48), TNum (?f 44)]" and c = "True"
        and args = "[Num (?f 48), Num (?f 44)]"]) simp_all
  note fld1 = fld [OF s1(2)] and fld2 = fld [OF s2(2)] and fld3 = fld [OF s3(2)] and fld4 = fld [OF s4(2)] and fld5 = fld [OF s5(2)]
  have "boot_info mbi s = Some (Some fs_start, if ?F 6 then s5 else s4)"
    unfolding boot_info_def Let_def s1(1) bind.bind_lunit
    using s2(1) s3(1) s4(1) s5(1) f m(1) [OF s3(2) refl] m(3) [OF s5(2) refl] by (auto simp: fld1 fld2 fld3 fld4 fld5)
  then show ?thesis using s4 s5 by auto
qed

section \<open>The devices are set up\<close>

text \<open>What every step before the first program keeps: the process structures, what the devices will
  answer, and the memory outside the screen and the sound buffer, which is at \<open>p\<close>.\<close>

definition boots :: "u32 \<Rightarrow> 'a kernel_scheme \<Rightarrow> 'a kernel_scheme \<Rightarrow> bool" where
  "boots p s t \<longleftrightarrow> proc_view t = proc_view s \<and> pcbs t = pcbs s \<and> strtok_buf t = strtok_buf s \<and> port_in t = port_in s
     \<and> (cursor_ok s \<longrightarrow> cursor_ok t) \<and> (\<forall>a. a \<notin> rng VIDEO 4000 \<union> rng p 65536 \<longrightarrow> mem t a = mem s a)"

lemma boots_refl [simp]: "boots p s s"
  by (simp add: boots_def)

lemma boots_trans [trans]: "boots p s t \<Longrightarrow> boots p t u \<Longrightarrow> boots p s u"
  by (simp add: boots_def)

lemma boots_displays: "displays s t \<Longrightarrow> boots p s t"
proof -
  assume d: "displays s t"
  then have "console_frame s t" by (simp add: displays_def console_step_def console_frame_def)
  from proc_view_frame [OF this] this have "proc_view t = proc_view s" "pcbs t = pcbs s" "strtok_buf t = strtok_buf s" "port_in t = port_in s"
    by (auto simp: console_frame_def dest: arg_cong [of _ _ pcbs] arg_cong [of _ _ strtok_buf] arg_cong [of _ _ port_in])
  then show ?thesis using d by (auto simp: boots_def displays_def console_step_def off_screen_same_def)
qed

text \<open>A step that touches nothing but ports, flags and the registers of a device.\<close>

lemma boots_quiet:
  assumes "proc_view t = proc_view s" "pcbs t = pcbs s" "strtok_buf t = strtok_buf s" "port_in t = port_in s" "mem t = mem s"
    "screen_x t = screen_x s" "screen_y t = screen_y s" "active_terminal t = active_terminal s"
  shows "boots p s t"
  using assms by (simp add: boots_def cursor_ok_def)

lemmas port_defs = Let_def cli_and_save_def outb_def inb_def restore_flags_def sti_def

lemma boots_devices:
  "boots p s (i8259_init s)" "boots p s (pit_init s)" "boots p s (enable_irq n s)" "boots p s (sti s)" "boots p s (mouse_init s)"
  "boots p s (s\<lparr>tss_esp0 := e\<rparr>)" "boots p s (rtc_init rnd mode s)" "boots p s (fs_init a s)"
  by (rule boots_quiet; auto simp: i8259_init_def pit_init_def enable_irq_def mouse_init_def rtc_init_def rtc_set_frequency_def fs_init_def
      port_defs proc_view_def)+

lemma boots_paging: "boots p s (init_paging s)"
  unfolding init_paging_def Let_def fold_set_pte fold_set_pde
  by (rule boots_quiet; auto simp: set_pte_def set_pde_def load_cr3_def mapped_frame_def Let_def proc_view_def)

lemma boots_announce:
  assumes "cursor_ok s" "plain_text msg" "\<And>s. boots p s (act s)"
  shows "\<exists>t. announce msg act s = Some t \<and> boots p s t \<and> cursor_ok t"
proof -
  have m: "0 \<notin> set (str msg)" "chr CHR ''%'' \<notin> set (str msg)" using assms(2) by (simp_all add: plain_text_def)
  have ok: "0 \<notin> set (str ''[ OK ]'' @ [10])" "chr CHR ''%'' \<notin> set (str ''[ OK ]'' @ [10])" by code_simp+
  obtain s1 where s1: "say (str msg) [] s = Some s1" "displays s s1" "cursor_ok s1" using say_plain [OF assms(1) m] by blast
  have "cursor_ok (act s1)" using s1(3) assms(3) [of s1] by (simp add: boots_def)
  from say_plain [OF this ok] obtain s2 where s2: "say (str ''[ OK ]'' @ [10]) [] (act s1) = Some s2" "displays (act s1) s2" "cursor_ok s2"
    by blast
  from boots_trans [OF boots_trans [OF boots_displays [OF s1(2)] assms(3) [of s1]] boots_displays [OF s2(2)]]
  show ?thesis using s1(1) s2(1,3) by (auto simp: announce_def Let_def)
qed

lemma boot_messages:
  "plain_text ''Initalizing RTC               ... ''" "plain_text ''Initalizing PIT               ... ''"
  "plain_text ''Enabling Slave PIC interrupts ... ''" "plain_text ''Enabling keyboard interrupts  ... ''"
  "plain_text ''Enabling mouse interrupts     ... ''" "plain_text ''Enabling RTC interrupts       ... ''"
  "plain_text ''Enabling PIT interrupts       ... ''"
  unfolding plain_text_def by code_simp+

lemma boot_devices_returns:
  assumes "cursor_ok s"
  shows "\<exists>t. boot_devices rnd s = Some t \<and> boots p s t \<and> cursor_ok t"
proof -
  note dev = boots_devices
  have s0: "boots p s (i8259_init s)" "cursor_ok (i8259_init s)" using dev(1) [of p s] assms by (simp_all add: boots_def)
  obtain s1 where s1: "announce ''Initalizing RTC               ... '' (rtc_init rnd 0) (i8259_init s) = Some s1" "boots p (i8259_init s) s1" "cursor_ok s1"
    using boots_announce [OF s0(2) boot_messages(1), of p "rtc_init rnd 0"] dev(7) by blast
  obtain s2 where s2: "announce ''Initalizing PIT               ... '' pit_init s1 = Some s2" "boots p s1 s2" "cursor_ok s2"
    using boots_announce [OF s1(3) boot_messages(2), of p pit_init] dev(2) by blast
  obtain s3 where s3: "announce ''Enabling Slave PIC interrupts ... '' (enable_irq 2) s2 = Some s3" "boots p s2 s3" "cursor_ok s3"
    using boots_announce [OF s2(3) boot_messages(3), of p "enable_irq 2"] dev(3) by blast
  obtain s4 where s4: "announce ''Enabling keyboard interrupts  ... '' (enable_irq 1) s3 = Some s4" "boots p s3 s4" "cursor_ok s4"
    using boots_announce [OF s3(3) boot_messages(4), of p "enable_irq 1"] dev(3) by blast
  obtain s5 where s5: "announce ''Enabling mouse interrupts     ... '' (enable_irq 12) s4 = Some s5" "boots p s4 s5" "cursor_ok s5"
    using boots_announce [OF s4(3) boot_messages(5), of p "enable_irq 12"] dev(3) by blast
  obtain s6 where s6: "announce ''Enabling RTC interrupts       ... '' (enable_irq 8) s5 = Some s6" "boots p s5 s6" "cursor_ok s6"
    using boots_announce [OF s5(3) boot_messages(6), of p "enable_irq 8"] dev(3) by blast
  obtain s7 where s7: "announce ''Enabling PIT interrupts       ... '' (enable_irq 0) s6 = Some s7" "boots p s6 s7" "cursor_ok s7"
    using boots_announce [OF s6(3) boot_messages(7), of p "enable_irq 0"] dev(3) by blast
  have "boot_devices rnd s = Some s7"
    unfolding boot_devices_def Let_def s1(1) s2(1) s3(1) s4(1) s5(1) s6(1) s7(1) bind.bind_lunit ..
  moreover have "boots p s s7"
    using s0(1) s1(2) s2(2) s3(2) s4(2) s5(2) s6(2) s7(2) by (blast intro: boots_trans)
  ultimately show ?thesis using s7(3) by blast
qed

section \<open>The sound card\<close>

text \<open>The card answers each of the three waits again and again.\<close>

definition card_ready :: "'a machine_scheme \<Rightarrow> bool" where
  "card_ready s \<longleftrightarrow> dsp_ready s \<and> (\<forall>n. \<exists>k\<ge>n. port_in s k 0x22E AND 0x80 \<noteq> 0) \<and> (\<forall>n. \<exists>k\<ge>n. port_in s k 0x22A = 0xAA)"

lemma inb_until_eventually:
  assumes "\<forall>n. \<exists>k\<ge>n. P (port_in s k port)"
  shows "\<exists>k. inb_until P port s = Some (s\<lparr>in_count := k\<rparr>)"
proof -
  obtain k where "k \<ge> in_count s" "P (port_in s k port)" using assms by blast
  then have "P (port_in s (in_count s + (k - in_count s)) port)" by simp
  from inb_until_returns [where P = P, OF this] show ?thesis by auto
qed

lemma init_sound_returns:
  assumes "cursor_ok s" "card_ready s"
  shows "\<exists>t. init_sound_blaster d s = Some (d\<lparr>sb_channel := 1, sb_mode := 0, sb_status := STOPPED\<rparr>, t) \<and> boots p s t"
proof -
  have line: "\<exists>n t. printf (\<lambda>_. 0) (arr (str ''%s'' @ [10, 0])) [Ptr m] u = Some (n, t) \<and> boots p u t \<and> cursor_ok t"
    if u: "cursor_ok u" and m: "\<exists>xs. cstr m xs" for m u
  proof -
    obtain xs where xs: "cstr m xs" using m by blast
    have c: "0 \<notin> set (str ''%s'' @ [10])" "format_ok False (str ''%s'' @ [10]) [KStr]" by code_simp+
    from say_shows [OF u c, of "[TStr xs]" "[Ptr m]"] xs obtain t where
      "say (str ''%s'' @ [10]) [Ptr m] u = Some t" "displays u t" "cursor_ok t" by auto
    then show ?thesis using boots_displays [of u t p] by (auto simp: say_def)
  qed
  define s0 where "s0 = outb 0 (SB_PORT_OFFSET + SB_DSP_RSET_PT) (outb 1 (SB_PORT_OFFSET + SB_DSP_RSET_PT) s)"
  have s0: "boots p s s0" by (rule boots_quiet) (simp_all add: s0_def outb_def proc_view_def)
  then have "cursor_ok s0" using assms(1) by (simp add: boots_def)
  then obtain n1 s1 where s1: "printf (\<lambda>_. 0) (arr (str ''%s'' @ [10, 0])) [Ptr (lit ''WAITING FOR SB CLEAR'')] s0 = Some (n1, s1)"
    "boots p s0 s1" "cursor_ok s1" using line [OF _ sb_message(1)] by blast
  have "port_in s1 = port_in s" using s0 s1(2) by (simp add: boots_def)
  then obtain k2 where s2: "inb_until (\<lambda>v. v AND 0x80 \<noteq> 0) (SB_PORT_OFFSET + SB_DSP_RDST_PT) s1 = Some (s1\<lparr>in_count := k2\<rparr>)"
    using inb_until_eventually [where P = "\<lambda>v. v AND 0x80 \<noteq> 0" and s = s1] assms(2) by (fastforce simp: card_ready_def sb_ports)
  let ?s2 = "s1\<lparr>in_count := k2\<rparr>"
  have b2: "boots p s1 ?s2" by (rule boots_quiet) simp_all
  then have "cursor_ok ?s2" using s1(3) by (simp add: boots_def)
  then obtain n3 s3 where s3: "printf (\<lambda>_. 0) (arr (str ''%s'' @ [10, 0])) [Ptr (lit ''WAITING FOR SB READ'')] ?s2 = Some (n3, s3)"
    "boots p ?s2 s3" using line [OF _ sb_message(2)] by blast
  have "port_in s3 = port_in s" using \<open>port_in s1 = _\<close> s3(2) by (simp add: boots_def)
  then obtain k4 where s4: "inb_until (\<lambda>v. v = 0xAA) (SB_PORT_OFFSET + SB_DSP_READ_PT) s3 = Some (s3\<lparr>in_count := k4\<rparr>)"
    using inb_until_eventually [where P = "\<lambda>v. v = 0xAA" and s = s3] assms(2) by (fastforce simp: card_ready_def sb_ports)
  have b4: "boots p s3 (s3\<lparr>in_count := k4\<rparr>)" by (rule boots_quiet) simp_all
  have "init_sound_blaster d s = Some (d\<lparr>sb_channel := 1, sb_mode := 0, sb_status := STOPPED\<rparr>, s3\<lparr>in_count := k4\<rparr>)"
    unfolding init_sound_blaster_def sound_blaster_reset_def Let_def s0_def [symmetric] s1(1) bind.bind_lunit prod.case s2 s3(1) s4 by simp
  moreover have "boots p s (s3\<lparr>in_count := k4\<rparr>)" using s0 s1(2) b2 s3(2) b4 by (blast intro: boots_trans)
  ultimately show ?thesis by blast
qed

lemma play_test_boots:
  assumes "dsp_ready s"
  shows "\<exists>d' t. sound_blaster_play_test p cmd d s = Some (d', t) \<and> boots p s t"
proof -
  obtain t m l b k out where t: "sound_blaster_play_test p cmd d s = Some (d\<lparr>sb_status := 1, sb_mode := sb_mode d OR 2, sb_channel := 1\<rparr>, t)"
    "t = s\<lparr>mem := m, lfsr := l, lfsr_bit := b, in_count := k, port_out := out\<rparr>" "\<forall>a. a \<notin> rng p 65536 \<longrightarrow> mem t a = mem s a"
    using play_test_sends [OF assms, of p cmd d] by metis
  have "boots p s t" using t(3) unfolding boots_def t(2) by (simp add: proc_view_def cursor_ok_def)
  then show ?thesis using t(1) by blast
qed

section \<open>The first program\<close>

lemma boot_info_ok_displays:
  assumes "boot_info_ok mbi a s" "displays s t"
  shows "boot_info_ok mbi a t"
proof -
  have off: "rng mbi 52 \<inter> rng VIDEO 4000 = {}" using assms(1) by (simp add: boot_info_ok_def Let_def)
  have "off_screen_same (mem s) m" if "off_screen_same (mem t) m" for m
    using displays_memory [OF assms(2)] that by (simp add: off_screen_same_def)
  moreover have "mbi_field mbi 0 t = mbi_field mbi 0 s" "mbi_field mbi 16 t = mbi_field mbi 16 s" "mbi_field mbi 20 t = mbi_field mbi 20 s"
    "mbi_field mbi 24 t = mbi_field mbi 24 s" "mbi_field mbi 44 t = mbi_field mbi 44 s" "mbi_field mbi 48 t = mbi_field mbi 48 s"
    by (rule mbi_field_same [OF assms(2) off], simp)+
  ultimately show ?thesis using assms(1) by (simp add: boot_info_ok_def Let_def)
qed

text \<open>The image of the file system is found where the boot loader put it, whatever was done meanwhile.\<close>

lemma fs_init_boots:
  assumes "boots p s v" and "image_rng (fs_init a s) \<inter> (rng VIDEO 4000 \<union> rng p 65536) = {}" and "fs_wf (fs_init a s)"
  shows "same_files (fs_init a s) (fs_init a v)"
proof -
  have m: "mem v x = mem s x" if "x \<in> image_rng (fs_init a s)" for x
    using assms(1,2) that by (auto simp: boots_def simp del: in_rng)
  have "rng a 12 \<subseteq> image_rng (fs_init a s)"
    unfolding image_rng_def image_size_def by (auto simp: fs_init_def Let_def)
  then have "mem v x = mem s x" if "x \<in> rng a 12" for x using m that by blast
  then have "load_boot_block (mem v) a = load_boot_block (mem s) a"
    by (simp add: load_boot_block_def load32_def add.assoc)
  then show ?thesis using m by (simp add: same_files_def image_same_def fs_init_def Let_def)
qed

definition boot_ready ::
  "boot_context \<Rightarrow> 'a kernel_scheme env \<Rightarrow> u32 \<Rightarrow> u32 \<Rightarrow> u8 list list \<Rightarrow> u32 \<Rightarrow> u32 \<Rightarrow> u8 list \<Rightarrow> 'a kernel_scheme \<Rightarrow> bool" where
  "boot_ready b env mbi a names n e args s \<longleftrightarrow>
     (let io = rng VIDEO 4000 \<union> rng (d_buf_addr b) 65536; f = fs_init a s in
      curr_proc s = (\<lambda>_. 0) \<and> prev_proc s = (\<lambda>_. 0) \<and> curr_proc_id_mask s = 0 \<and> curr_active_term s = 0
      \<and> cursor_ok s \<and> card_ready s \<and> boot_info_ok mbi a s
      \<and> runnable f names (str ''shell'') n e \<and> unat (inode_size n f) \<le> 0x3B8000 \<and> image_rng f \<inter> io = {}
      \<and> shell_literal env \<noteq> 0 \<and> cstr (view (mem s) (shell_literal env)) (str ''shell'') \<and> rng (shell_literal env) 6 \<inter> io = {}
      \<and> cstr (view ((mem s)(stale_end env 5 := 0)) (temp_arg env)) args \<and> rng (temp_arg env) (length args + 1) \<inter> io = {}
      \<and> length args < length (pcb_args (pcbs s (pcb_addr 0))) \<and> length args < 4294967000 \<and> 5 < length (strtok_buf s)
      \<and> bare_layout env (shell_literal env) 5 (length args) f)"

lemma shell_word:
  "length (str ''shell'') = 5" "str ''shell'' \<noteq> []" "chr CHR '' '' \<notin> set (str ''shell'')" "10 \<notin> set (str ''shell'')"
  "take 5 (str ''shell'') \<noteq> str ''clear''"
proof -
  show "take 5 (str ''shell'') \<noteq> str ''clear''" "chr CHR '' '' \<notin> set (str ''shell'')" "10 \<notin> set (str ''shell'')" by code_simp+
  show "length (str ''shell'') = 5" "str ''shell'' \<noteq> []" by (simp_all add: str_def)
qed

lemma console_same_files:
  assumes "console_frame s w" and "\<And>x. x \<in> image_rng s \<Longrightarrow> mem w x = mem s x"
  shows "same_files s w"
proof -
  have "boot_blk w = boot_blk s" "b_block_addrs w = b_block_addrs s" "dentries w = dentries s" "inodes w = inodes s"
    "data_blocks w = data_blocks s"
    using assms(1) by (elim console_frameE, simp)+
  then show ?thesis using assms(2) by (simp add: same_files_def image_same_def)
qed

lemma boot_files_kept:
  assumes "boots p s v" and img: "image_rng (fs_init a s) \<inter> (rng VIDEO 4000 \<union> rng p 65536) = {}" and wf: "fs_wf (fs_init a s)"
  shows "same_files (fs_init a s) (clear_screen (fs_init a v))"
proof -
  let ?v = "fs_init a v"
  have f: "same_files (fs_init a s) ?v" by (rule fs_init_boots [OF assms])
  have "console_frame ?v (clear_screen ?v)"
    using clear_screen_displays [of ?v] by (simp add: displays_def console_step_def console_frame_def)
  moreover have "mem (clear_screen ?v) x = mem ?v x" if "x \<in> image_rng ?v" for x
  proof -
    have "x \<in> image_rng (fs_init a s)" using that same_files_keeps(2) [OF f wf] by simp
    then show ?thesis using boots_displays [OF clear_screen_displays, of p ?v] img by (auto simp: boots_def simp del: in_rng)
  qed
  ultimately have "same_files ?v (clear_screen ?v)" by (rule console_same_files)
  with f show ?thesis by (rule same_files_trans)
qed

lemma execute_shell_starts:
  assumes ready: "boot_ready b env mbi a names n e args s" and v: "boots (d_buf_addr b) s v"
  defines "w \<equiv> clear_screen (fs_init a v)"
  shows "\<exists>t. execute env (shell_literal env) w = Some (Enter_user e t) \<and> procs t ((\<lambda>_. [])(0 := [0]))
    \<and> started 0 n args w t \<and> running w = 0 \<and> same_files (fs_init a s) w"
proof -
  let ?f = "fs_init a s" and ?l = "shell_literal env" and ?io = "rng VIDEO 4000 \<union> rng (d_buf_addr b) 65536"
  note r = ready [unfolded boot_ready_def Let_def]
  have run: "runnable ?f names (str ''shell'') n e" using r by simp
  then have wf: "fs_wf ?f" "inode_ok n ?f" by (simp_all add: runnable_def)
  have w: "boots (d_buf_addr b) s w"
    unfolding w_def by (rule boots_trans [OF boots_trans [OF v boots_devices(8)] boots_displays [OF clear_screen_displays]])
  then have m: "mem w x = mem s x" if "x \<notin> ?io" for x using that by (simp add: boots_def del: in_rng)
  have k: "proc_view w = proc_view s" "pcbs w = pcbs s" "strtok_buf w = strtok_buf s" using w by (simp_all add: boots_def)
  have sf: "same_files ?f w" unfolding w_def by (rule boot_files_kept [OF v _ wf(1)]) (use r in simp)
  note keep = same_files_keeps [OF sf wf(1)]
  have "procs s (\<lambda>_. [])" using r by (intro boot_procs) simp_all
  then have inv: "procs w (\<lambda>_. [])" using procs_cong [OF k(1)] by simp
  have next0: "next_slot (\<lambda>_. []) = Some 0" by (simp add: next_slot_def all_procs_def upt_rec)
  have run0: "running w = 0" using k(1) r by (simp add: proc_view_def running_def)
  have io: "rng ?l (length (str ''shell'') + 1) \<inter> ?io = {}" unfolding shell_word(1) using r by simp
  have lit: "cstr (view (mem w) ?l) (str ''shell'')"
  proof (rule cstr_region [where m = "mem s"])
    show "mem w y = mem s y" if "y \<in> rng ?l (length (str ''shell'') + 1)" for y using that io by (intro m) blast
  qed (use r in \<open>simp_all add: shell_word(1)\<close>)
  have args: "cstr (view ((mem w)(stale_end env (length (str ''shell'')) := 0)) (temp_arg env)) args"
    unfolding shell_word(1) by (rule cstr_region [where m = "(mem s)(stale_end env 5 := 0)"]) (use r m in \<open>auto simp del: in_rng\<close>)
  have "image_rng w = image_rng ?f" by (rule keep(2))
  then have lay: "bare_layout env ?l (length (str ''shell'')) (length args) w"
    using r unfolding bare_layout_def shell_word(1) by (simp del: in_rng)
  obtain t where t: "execute env ?l w = Some (Enter_user e t)" "started 0 n args w t" "procs t (push_proc (running w) 0 (\<lambda>_. []))"
    using execute_bare [OF _ lit shell_word(2-5) runnable_same [OF run sf] _ inv next0 lay _ args] r k keep(6) [OF wf(2)]
    by (auto simp: shell_word(1))
  moreover have "push_proc 0 0 (\<lambda>_. []) = (\<lambda>_. [])(0 := [0])" by (simp add: push_proc_def)
  ultimately show ?thesis using run0 sf by auto
qed

text \<open>The state in which the shell starts.\<close>

definition shell_running :: "u32 \<Rightarrow> u32 \<Rightarrow> u8 list \<Rightarrow> 'a kernel_scheme \<Rightarrow> 'a kernel_scheme \<Rightarrow> bool" where
  "shell_running a n args s t \<longleftrightarrow> procs t ((\<lambda>_. [])(0 := [0])) \<and>
     (\<exists>w. started 0 n args w t \<and> running w = 0 \<and> same_files (fs_init a s) w)"

lemma shell_running_facts:
  assumes "shell_running a n args s t" and "fs_wf (fs_init a s)" "inode_ok n (fs_init a s)"
  shows "procs t ((\<lambda>_. [])(0 := [0])) \<and> curr_proc t 0 = pcb_addr 0 \<and> std_open (pcbs t (pcb_addr 0)) \<and> int_flag t
    \<and> load_bytes (mem t) PROGRAM_EXEC_ADDR (unat (inode_size n (fs_init a s))) =
        file_slice (fs_init a s) n 0 (unat (inode_size n (fs_init a s)))
    \<and> window t = Some (process_frame 0)"
proof -
  obtain w where w: "procs t ((\<lambda>_. [])(0 := [0]))" "started 0 n args w t" "running w = 0" "same_files (fs_init a s) w"
    using assms(1) by (auto simp: shell_running_def)
  have "load_bytes (mem t) PROGRAM_EXEC_ADDR (unat (inode_size n (fs_init a s))) =
      file_slice (fs_init a s) n 0 (unat (inode_size n (fs_init a s)))"
    using same_files_keeps(6,7) [OF w(4) assms(2,3)] w(2) by (simp add: started_def Let_def)
  moreover have "running t = 0" using w(2,3) by (simp add: started_def Let_def)
  moreover have "curr_proc t (running t) = pcb_addr 0" using w(2) by (clarsimp simp: started_def Let_def)
  moreover have "std_open (pcbs t (pcb_addr 0))" "window t = Some (process_frame 0)" "int_flag t"
    using w(2) by (simp_all add: started_def Let_def)
  ultimately show ?thesis using w(1) by simp
qed

lemma boot_shell_runs:
  assumes ready: "boot_ready b env mbi a names n e args s" and s3: "boots (d_buf_addr b) s s3"
  shows "\<exists>d' t. boot_shell b env a d s3 = Some (d', Enter_user e t) \<and> shell_running a n args s t"
proof -
  let ?p = "d_buf_addr b"
  have r: "cursor_ok s" "card_ready s" using ready by (simp_all add: boot_ready_def Let_def)
  define s4 where "s4 = enable_irq 5 (mouse_init (init_paging (sti s3)))"
  have "boots ?p s3 s4"
    unfolding s4_def by (rule boots_trans [OF boots_trans [OF boots_trans [OF boots_devices(4) boots_paging] boots_devices(5)] boots_devices(3)])
  with s3 have b04: "boots ?p s s4" by (rule boots_trans)
  have card: "card_ready u" if "boots ?p s u" for u using r(2) that by (simp add: card_ready_def dsp_ready_def boots_def)
  have "cursor_ok s4" using b04 r(1) by (simp add: boots_def)
  then obtain d1 s5 where s5: "init_sound_blaster d s4 = Some (d1, s5)" "boots ?p s4 s5"
    using init_sound_returns [OF _ card [OF b04]] by blast
  have b05: "boots ?p s s5" using b04 s5(2) by (rule boots_trans)
  have "dsp_ready s5" using card [OF b05] by (simp add: card_ready_def)
  then obtain d2 s6 where s6: "sound_blaster_play_test ?p (stale_cmd b) d1 s5 = Some (d2, s6)" "boots ?p s5 s6"
    using play_test_boots by blast
  obtain t where t: "execute env (shell_literal env) (clear_screen (fs_init a s6)) = Some (Enter_user e t)" "shell_running a n args s t"
    using execute_shell_starts [OF ready boots_trans [OF b05 s6(2)]] by (auto simp: shell_running_def)
  have "boot_shell b env a d s3 = Some (d2, Enter_user e t)"
    unfolding boot_shell_def Let_def s4_def [symmetric] using s5(1) s6(1) t(1) by simp
  with t(2) show ?thesis by blast
qed

lemma entry_starts_shell:
  assumes ready: "boot_ready b env mbi a names n e args s"
  shows "\<exists>d' g' t. entry b env MULTIBOOT_BOOTLOADER_MAGIC mbi (d, g, s) = Some (d', g', Enter_user e t)
    \<and> shell_running a n args s t \<and> task_register g' = KERNEL_TSS \<and> ldtr g' = KERNEL_LDT"
proof -
  let ?p = "d_buf_addr b"
  have r: "cursor_ok s" "boot_info_ok mbi a s" using ready by (simp_all add: boot_ready_def Let_def)
  have c: "displays s (clear s)" by (rule clear_displays)
  then have "cursor_ok (clear s)" using r(1) by (simp add: displays_def)
  then obtain s1 where s1: "boot_info mbi (clear s) = Some (Some a, s1)" "displays (clear s) s1" "cursor_ok s1"
    using boot_info_returns [OF boot_info_ok_displays [OF r(2) c]] by blast
  define s2 where "s2 = s1\<lparr>tss_esp0 := 0x800000\<rparr>"
  define g' where "g' = fst (load_tss b (load_ldt b g) s1)"
  have tss: "load_tss b (load_ldt b g) s1 = (g', s2)" by (simp add: g'_def load_tss_def Let_def s2_def)
  have b2: "boots ?p s s2"
    using boots_trans [OF boots_displays [OF displays_trans [OF c s1(2)]] boots_devices(6)] by (simp add: s2_def)
  then have "cursor_ok s2" using r(1) by (simp add: boots_def)
  then obtain s3 where s3: "boot_devices (rounding env) s2 = Some s3" "boots ?p s2 s3" using boot_devices_returns by blast
  obtain d' t where t: "boot_shell b env a d s3 = Some (d', Enter_user e t)" "shell_running a n args s t"
    using boot_shell_runs [OF ready boots_trans [OF b2 s3(2)]] by blast
  then have "entry b env MULTIBOOT_BOOTLOADER_MAGIC mbi (d, g, s) = Some (d', g', Enter_user e t)"
    using s1(1) tss s3(1) by (simp add: entry_def Let_def)
  moreover have "task_register g' = KERNEL_TSS" "ldtr g' = KERNEL_LDT"
    by (simp_all add: g'_def load_tss_def load_ldt_def Let_def)
  ultimately show ?thesis using t(2) by blast
qed

section \<open>A sample boot\<close>

text \<open>
  The boot information is at \<^verbatim>\<open>0x500\<close>; its only module is the file system of the sample kernel, at
  \<^verbatim>\<open>0x1000\<close>, where the program is called \<^verbatim>\<open>shell\<close>. The card always has something to say. The words
  that the assembly pushes before it calls \<^verbatim>\<open>entry\<close> are on the stacks.
\<close>

definition boot_image :: memory where
  "boot_image = demo_image(0x500 := 8, 0x514 := 1, 0x518 := 0, 0x519 := 6, 0x601 := 0x10, 0x608 := 9, 0x609 := 0x20,
     0x1040 := chr CHR ''s'', 0x1041 := chr CHR ''h'', 0x1042 := chr CHR ''e'', 0x1043 := chr CHR ''l'', 0x1044 := chr CHR ''l'',
     0xA000 := chr CHR ''s'', 0xA001 := chr CHR ''h'', 0xA002 := chr CHR ''e'', 0xA003 := chr CHR ''l'', 0xA004 := chr CHR ''l'',
     0x7FFEFC := 0x02, 0x7FFEFD := 0xB0, 0x7FFEFE := 0xAD, 0x7FFEFF := 0x2B,
     0x7FFFF8 := 0x02, 0x7FFFF9 := 0xB0, 0x7FFFFA := 0xAD, 0x7FFFFB := 0x2B, 0x7FFFFD := 5)"

definition boot_machine :: kernel where
  "boot_machine = demo_kernel\<lparr>mem := boot_image, port_in := \<lambda>_ p. if p = 0x22E then 0x80 else if p = 0x22A then 0xAA else 0,
     curr_proc := \<lambda>_. 0, curr_proc_id_mask := 0\<rparr>"

definition demo_context :: boot_context where
  "demo_context = \<lparr>ldt_addr = 0x403000, ldt_size = 31, tss_addr = 0x403100, tss_size = 103,
     the_desc = \<lparr>seg_lim_15_00 = 0, base_15_00 = 0, base_23_16 = 0, seg_type = 0, seg_sys = False, seg_dpl = 0, seg_present = False,
       seg_lim_19_16 = 0, seg_avail = False, seg_reserved = False, seg_opsize = False, seg_granularity = False, base_31_24 = 0\<rparr>,
     d_buf_addr = 0x100000, stale_cmd = 0\<rparr>"

lemma boot_machine_fields [simp]:
  "mem boot_machine = boot_image" "curr_proc boot_machine = (\<lambda>_. 0)" "prev_proc boot_machine = (\<lambda>_. 0)"
  "curr_proc_id_mask boot_machine = 0" "curr_active_term boot_machine = 0" "pcbs boot_machine = (\<lambda>_. demo_pcb)"
  "strtok_buf boot_machine = replicate 32 0"
  by (simp_all add: boot_machine_def)

lemma boot_machine_block: "load_boot_block boot_image 0x1000 = \<lparr>n_dentries = 1, n_inodes = 1, n_data_blocks = 1\<rparr>"
  by (simp add: load_boot_block_def load32_def boot_image_def demo_image_def)

lemma boot_machine_files [simp]:
  "boot_blk (fs_init 0x1000 boot_machine) = \<lparr>n_dentries = 1, n_inodes = 1, n_data_blocks = 1\<rparr>"
  "b_block_addrs (fs_init 0x1000 boot_machine) = 0x1000" "dentries (fs_init 0x1000 boot_machine) = 0x1040"
  "inodes (fs_init 0x1000 boot_machine) = 0x2000" "data_blocks (fs_init 0x1000 boot_machine) = 0x3000"
  "mem (fs_init 0x1000 boot_machine) = boot_image"
  by (simp_all add: fs_init_def Let_def boot_machine_block BOOT_BLOCK_SIZE_def BLOCK_SIZE_def)

lemma boot_machine_inode [simp]:
  "inode_size 0 (fs_init 0x1000 boot_machine) = 32" "inode_block 0 0 (fs_init 0x1000 boot_machine) = 0"
  "dentry_inode 0 (fs_init 0x1000 boot_machine) = 0"
  by (simp_all add: inode_size_def inode_block_def dentry_inode_def dentry_addr_def load32_def boot_image_def demo_image_def)

lemma boot_machine_runnable: "runnable (fs_init 0x1000 boot_machine) [str ''shell''] (str ''shell'') 0 0x08048020"
proof -
  let ?f = "fs_init 0x1000 boot_machine"
  have h: "chr CHR ''s'' \<noteq> 0" "chr CHR ''h'' \<noteq> 0" "chr CHR ''e'' \<noteq> 0" "chr CHR ''l'' \<noteq> 0" by code_simp+
  have "fs_wf ?f" "inode_ok 0 ?f" by (simp_all add: fs_wf_def image_size_def inode_ok_def)
  moreover have "directory ?f [str ''shell'']"
    using h by (simp add: directory_def cstr_def dentry_name_def view_def dentry_addr_def str_def boot_image_def demo_image_def less_Suc_eq)
  moreover have "file_byte ?f 0 j = boot_image (0x3000 + of_nat j)" if "j < 32" for j
    using that by (simp add: file_byte_def)
  then have "file_slice ?f 0 0 4 = [0x7F, 0x45, 0x4C, 0x46]" "load32 (\<lambda>a. file_slice ?f 0 0 32 ! unat a) 24 = 0x08048020"
    by (simp_all add: file_slice_def upt_rec load32_def nth_file_slice boot_image_def demo_image_def)
  ultimately show ?thesis by (simp add: runnable_def dir_find_def)
qed

lemma boot_machine_info: "boot_info_ok 0x500 0x1000 boot_machine"
proof -
  have f: "mbi_field 0x500 0 boot_machine = 8" "mbi_field 0x500 20 boot_machine = 1" "mbi_field 0x500 24 boot_machine = 0x600"
    by (simp_all add: mbi_field_def load32_def boot_image_def demo_image_def)
  have "find_fs m 0x600 1 = 0x1000" if "off_screen_same boot_image m" for m
  proof -
    have "rng (0x600 :: u32) 12 \<inter> rng VIDEO 4000 = {}" by (rule rng_disjoint) (simp_all add: VIDEO_def)
    then have "m a = boot_image a" if "a \<in> rng 0x600 12" for a
      using \<open>off_screen_same boot_image m\<close> that by (auto simp: off_screen_same_def simp del: in_rng)
    then show ?thesis by (simp add: find_fs_def load32_def MOD_FS_STRING_def boot_image_def demo_image_def)
  qed
  moreover have "rng (0x500 :: u32) 52 \<inter> rng VIDEO 4000 = {}" by (rule rng_disjoint) (simp_all add: VIDEO_def)
  ultimately show ?thesis by (simp add: boot_info_ok_def f CHECK_FLAG_def)
qed

lemma boot_machine_ready: "boot_ready demo_context demo_env 0x500 0x1000 [str ''shell''] 0 0x08048020 [] boot_machine"
proof -
  let ?f = "fs_init 0x1000 boot_machine"
  have h: "chr CHR ''s'' \<noteq> 0" "chr CHR ''h'' \<noteq> 0" "chr CHR ''e'' \<noteq> 0" "chr CHR ''l'' \<noteq> 0" by code_simp+
  have im: "image_rng ?f = rng 0x1000 12288" by (simp add: image_rng_def image_size_def)
  have w: "Collect in_window = rng user_base 4194304" by (auto simp: in_window_def)
  have io: "rng (0x1000 :: u32) 12288 \<inter> rng VIDEO 4000 = {}" "rng (0x1000 :: u32) 12288 \<inter> rng 0x100000 65536 = {}"
    "rng (0xA000 :: u32) 6 \<inter> rng VIDEO 4000 = {}" "rng (0xA000 :: u32) 6 \<inter> rng 0x100000 65536 = {}"
    "rng (0xB000 :: u32) 1 \<inter> rng VIDEO 4000 = {}" "rng (0xB000 :: u32) 1 \<inter> rng 0x100000 65536 = {}"
    "rng (0xB000 :: u32) 1 \<inter> rng 0xC000 32 = {}"
    by (rule rng_disjoint, simp_all add: VIDEO_def)+
  have win: "rng (0xC000 :: u32) 32 \<inter> rng 0x1000 12288 = {}" "rng user_base 4194304 \<inter> rng 0x1000 12288 = {}"
    "rng user_base 4194304 \<inter> rng 0xB000 1 = {}" "rng user_base 4194304 \<inter> rng 0xC000 32 = {}"
    by (subst Int_commute, rule rng_disjoint, simp_all add: user_base_def)+
  have lay: "bare_layout demo_env 0xA000 5 0 ?f"
  proof -
    have "stale_end demo_env 5 = 0xB004" by (simp add: stale_end_def demo_env_def)
    moreover have "(0xB004 :: u32) \<notin> rng 0xA000 6" "(0xB004 :: u32) \<notin> rng 0x1000 12288" "(0xB004 :: u32) \<notin> rng user_base 4194304"
      by (simp_all add: user_base_def)
    ultimately show ?thesis
      using io(7) win unfolding bare_layout_def im w demo_env_def by (simp del: in_rng add: Int_Un_distrib)
  qed
  have "cstr (view boot_image 0xA000) (str ''shell'')"
    using h by (simp add: cstr_def view_def str_def boot_image_def demo_image_def less_Suc_eq)
  moreover have "cstr (view (boot_image(stale_end demo_env 5 := 0)) 0xB000) []"
    by (simp add: cstr_def view_def boot_image_def demo_image_def)
  moreover have "card_ready boot_machine" by (auto simp: card_ready_def dsp_ready_def boot_machine_def sb_ports)
  moreover have "cursor_ok boot_machine"
    using demo_kbd_ok(2) by (simp add: boot_machine_def demo_kernel_def kbd.defs cursor_ok_def)
  ultimately show ?thesis
    unfolding boot_ready_def Let_def im
    using boot_machine_runnable boot_machine_info lay io
    by (simp add: demo_context_def demo_env_def demo_pcb_def Int_Un_distrib del: in_rng)
qed

section \<open>Properties\<close>



end
