(* ===== verification/Start.thy ===== *)
theory Start
  imports Boot
begin

text \<open>
  The assembly around the C code: \<^verbatim>\<open>src/boot/boot.S\<close>, to which the boot loader jumps, the tables
  of \<^verbatim>\<open>src/boot/x86_desc.S\<close>, and \<^verbatim>\<open>src/kernel/user.S\<close>, which enters user mode. The words that
  the boot loader leaves in the registers, the addresses of the tables and the return
  addresses of the two calls are parameters.
\<close>

section \<open>Segment descriptors\<close>

definition USER_CS :: u16 where "USER_CS = 0x0023"

definition USER_DS :: u16 where "USER_DS = 0x002B"

text \<open>The two words of \<^verbatim>\<open>val\<close>, which the bit fields of \<^verbatim>\<open>seg_desc_t\<close> share.\<close>

definition seg_val :: "seg_desc \<Rightarrow> u32 \<times> u32" where
  "seg_val d =
     (ucast (seg_lim_15_00 d) OR push_bit 16 (ucast (base_15_00 d)),
      ucast (base_23_16 d) OR push_bit 8 (ucast (seg_type d)) OR push_bit 12 (of_bool (seg_sys d))
        OR push_bit 13 (ucast (seg_dpl d)) OR push_bit 15 (of_bool (seg_present d)) OR push_bit 16 (ucast (seg_lim_19_16 d))
        OR push_bit 20 (of_bool (seg_avail d)) OR push_bit 21 (of_bool (seg_reserved d)) OR push_bit 22 (of_bool (seg_opsize d))
        OR push_bit 23 (of_bool (seg_granularity d)) OR push_bit 24 (ucast (base_31_24 d)))"

definition quad :: "64 word \<Rightarrow> u32 \<times> u32" where
  "quad q = (ucast q, ucast (drop_bit 32 q))"

text \<open>The table that starts at the label \<^verbatim>\<open>gdt\<close>; its last two entries are the C variables \<^verbatim>\<open>tss_desc_ptr\<close>
  and \<^verbatim>\<open>ldt_desc_ptr\<close>.\<close>

definition gdt :: "cpu_tables \<Rightarrow> (u32 \<times> u32) list" where
  "gdt g = [quad 0, quad 0, quad 0x00CF9A000000FFFF, quad 0x00CF92000000FFFF, quad 0x00CFFA000000FFFF,
     quad 0x00CFF2000000FFFF, seg_val (tss_desc_ptr g), seg_val (ldt_desc_ptr g)]"

record x86_desc =
  desc_size :: u16
  desc_addr :: u32

definition gdt_desc_ptr :: "u32 \<Rightarrow> x86_desc" where
  "gdt_desc_ptr gdt_addr = \<lparr>desc_size = of_nat (8 * 8) - 1, desc_addr = gdt_addr\<rparr>"

definition idt_desc_ptr :: "u32 \<Rightarrow> x86_desc" where
  "idt_desc_ptr idt_addr = \<lparr>desc_size = of_nat (8 * NUM_VEC) - 1, desc_addr = idt_addr\<rparr>"

section \<open>What the processor reads of them\<close>

definition seg_base :: "u32 \<times> u32 \<Rightarrow> u32" where
  "seg_base v = drop_bit 16 (fst v) OR push_bit 16 (snd v AND 0xFF) OR (snd v AND 0xFF000000)"

text \<open>The last offset; with the granularity bit the limit counts pages of 4 KB.\<close>

definition seg_limit :: "u32 \<times> u32 \<Rightarrow> u32" where
  "seg_limit v =
     (let l = (fst v AND 0xFFFF) OR (snd v AND 0xF0000)
      in if bit (snd v) 23 then push_bit 12 l OR 0xFFF else l)"

definition desc_dpl :: "u32 \<times> u32 \<Rightarrow> 2 word" where
  "desc_dpl v = ucast (drop_bit 13 (snd v))"

text \<open>Whether it is a segment of code or data rather than a system segment, and the type.\<close>

definition desc_type :: "u32 \<times> u32 \<Rightarrow> 5 word" where
  "desc_type v = ucast (drop_bit 8 (snd v))"

definition desc_present :: "u32 \<times> u32 \<Rightarrow> bool" where
  "desc_present v \<longleftrightarrow> bit (snd v) 15"

definition selected :: "(u32 \<times> u32) list \<Rightarrow> u16 \<Rightarrow> u32 \<times> u32" where
  "selected table sel = table ! unat (drop_bit 3 sel)"

text \<open>A segment of all 4 GB that a selector's privilege level may use.\<close>

definition flat_segment :: "(u32 \<times> u32) list \<Rightarrow> u16 \<Rightarrow> 5 word \<Rightarrow> bool" where
  "flat_segment table sel kind \<longleftrightarrow>
     (let v = selected table sel
      in desc_present v \<and> seg_base v = 0 \<and> seg_limit v = 0xFFFFFFFF \<and> desc_dpl v = ucast sel \<and> desc_type v = kind)"

lemma nibble_bits: "4 \<le> n \<Longrightarrow> \<not> bit (x :: 4 word) n"
  using bit_imp_le_length [of x n] by auto

lemma bit_nibble: "bit (push_bit k (ucast (x :: 4 word)) :: u32) n \<longleftrightarrow> n < 32 \<and> k \<le> n \<and> bit x (n - k)"
  by (auto simp: bit_simps)

lemma seg_val_low: "n < 16 \<Longrightarrow> bit (fst (seg_val d)) n = bit (seg_lim_15_00 d) n"
  by (simp add: seg_val_def bit_simps)

lemma seg_val_base: "n < 16 \<Longrightarrow> bit (fst (seg_val d)) (16 + n) = bit (base_15_00 d) n"
  using small_bits(2) [of "16 + n" "seg_lim_15_00 d"] by (simp add: seg_val_def bit_simps)

text \<open>The upper word, field by field.\<close>

lemma seg_val_high:
  assumes "n < 32"
  shows "bit (snd (seg_val d)) n \<longleftrightarrow>
    (if n < 8 then bit (base_23_16 d) n else if n < 12 then bit (seg_type d) (n - 8) else if n = 12 then seg_sys d
     else if n < 15 then bit (seg_dpl d) (n - 13) else if n = 15 then seg_present d else if n < 20 then bit (seg_lim_19_16 d) (n - 16)
     else if n = 20 then seg_avail d else if n = 21 then seg_reserved d else if n = 22 then seg_opsize d
     else if n = 23 then seg_granularity d else bit (base_31_24 d) (n - 24))"
proof -
  have b: "bit (ucast (base_23_16 d) :: u32) n \<longleftrightarrow> n < 8 \<and> bit (base_23_16 d) n"
    using assms small_bits(1) [of n "base_23_16 d"] by (cases "n < 8") (simp_all add: bit_unsigned_iff)
  have t: "bit (push_bit 8 (ucast (seg_type d)) :: u32) n \<longleftrightarrow> 8 \<le> n \<and> n < 12 \<and> bit (seg_type d) (n - 8)"
    using assms nibble_bits [of "n - 8" "seg_type d"] by (cases "n < 12") (auto simp: bit_nibble)
  have dp: "bit (push_bit 13 (ucast (seg_dpl d)) :: u32) n \<longleftrightarrow> 13 \<le> n \<and> n < 15 \<and> bit (seg_dpl d) (n - 13)"
    using assms small_bits(3) [of "n - 13" "seg_dpl d"] by (cases "n < 15") (auto simp: bit_push_bit_iff bit_unsigned_iff)
  have l: "bit (push_bit 16 (ucast (seg_lim_19_16 d)) :: u32) n \<longleftrightarrow> 16 \<le> n \<and> n < 20 \<and> bit (seg_lim_19_16 d) (n - 16)"
    using assms nibble_bits [of "n - 16" "seg_lim_19_16 d"] by (cases "n < 20") (auto simp: bit_nibble)
  have h: "bit (push_bit 24 (ucast (base_31_24 d)) :: u32) n \<longleftrightarrow> 24 \<le> n \<and> bit (base_31_24 d) (n - 24)"
    using assms by (auto simp: bit_push_bit_iff bit_unsigned_iff)
  have p: "bit (push_bit k (of_bool c) :: u32) n \<longleftrightarrow> c \<and> n = k" for k c using assms by (simp add: push_one)
  have "bit (snd (seg_val d)) n \<longleftrightarrow> n < 8 \<and> bit (base_23_16 d) n \<or> 8 \<le> n \<and> n < 12 \<and> bit (seg_type d) (n - 8) \<or> seg_sys d \<and> n = 12
      \<or> 13 \<le> n \<and> n < 15 \<and> bit (seg_dpl d) (n - 13) \<or> seg_present d \<and> n = 15 \<or> 16 \<le> n \<and> n < 20 \<and> bit (seg_lim_19_16 d) (n - 16)
      \<or> seg_avail d \<and> n = 20 \<or> seg_reserved d \<and> n = 21 \<or> seg_opsize d \<and> n = 22 \<or> seg_granularity d \<and> n = 23
      \<or> 24 \<le> n \<and> bit (base_31_24 d) (n - 24)"
    unfolding seg_val_def snd_conv bit_or_iff b t dp l h p by blast
  moreover consider "n < 8" | "8 \<le> n" "n < 12" | "n = 12" | "13 \<le> n" "n < 15" | "n = 15" | "16 \<le> n" "n < 20"
    | "n = 20" | "n = 21" | "n = 22" | "n = 23" | "24 \<le> n" by linarith
  ultimately show ?thesis by cases simp_all
qed

text \<open>Each field is read back.\<close>

lemma read_seg_fields:
  "desc_present (seg_val d) = seg_present d" "desc_dpl (seg_val d) = seg_dpl d"
  "\<not> seg_sys d \<Longrightarrow> desc_type (seg_val d) = ucast (seg_type d)"
proof -
  show "desc_present (seg_val d) = seg_present d" by (simp add: desc_present_def seg_val_high)
  show "desc_dpl (seg_val d) = seg_dpl d"
  proof (rule bit_word_eqI)
    fix n assume "n < LENGTH(2)"
    then show "bit (desc_dpl (seg_val d)) n = bit (seg_dpl d) n"
      by (simp add: desc_dpl_def bit_unsigned_iff bit_drop_bit_eq seg_val_high)
  qed
  assume "\<not> seg_sys d"
  then show "desc_type (seg_val d) = ucast (seg_type d)"
    using nibble_bits [of _ "seg_type d"]
    by (intro bit_word_eqI) (auto simp: desc_type_def bit_unsigned_iff bit_drop_bit_eq seg_val_high)
qed

text \<open>Setting an address and a limit of 20 bits.\<close>

lemma byte_masks: "(0xFF :: u32) = mask 8" "(0xFFFF :: u32) = mask 16" "(0xFF000000 :: u32) = push_bit 24 (mask 8)"
  "(0x00FF0000 :: u32) = push_bit 16 (mask 8)" "(0x000F0000 :: u32) = push_bit 16 (mask 4)"
  by (simp_all add: mask_eq_exp_minus_1)

lemma set_params_read:
  assumes "d' = SET_LDT_PARAMS addr bound d \<or> d' = SET_TSS_PARAMS addr bound d"
  shows "seg_base (seg_val d') = addr" and "\<not> seg_granularity d \<Longrightarrow> seg_limit (seg_val d') = take_bit 20 bound"
    and "seg_present d' = seg_present d" "seg_dpl d' = seg_dpl d" "seg_sys d' = seg_sys d" "seg_type d' = seg_type d"
proof -
  have f: "k < 8 \<Longrightarrow> bit (base_31_24 d') k = bit addr (24 + k)" "k < 8 \<Longrightarrow> bit (base_23_16 d') k = bit addr (16 + k)"
    "k < 16 \<Longrightarrow> bit (base_15_00 d') k = bit addr k" "k < 4 \<Longrightarrow> bit (seg_lim_19_16 d') k = bit bound (16 + k)"
    "k < 16 \<Longrightarrow> bit (seg_lim_15_00 d') k = bit bound k" for k
    using assms unfolding SET_LDT_PARAMS_def SET_TSS_PARAMS_def byte_masks
    by (elim disjE, simp_all add: bit_simps)
  show "seg_base (seg_val d') = addr"
  proof (rule bit_word_eqI)
    fix n assume "n < LENGTH(32)"
    then have n: "n < 32" by simp
    have "bit (fst (seg_val d')) (16 + n) = (n < 16 \<and> bit addr n)"
      using f(3) [of n] seg_val_base [of n d'] bit_imp_le_length [of "fst (seg_val d')" "16 + n"] by (cases "n < 16") auto
    then have l: "bit (drop_bit 16 (fst (seg_val d'))) n = (n < 16 \<and> bit addr n)" by (simp add: bit_drop_bit_eq)
    have m: "bit (push_bit 16 (snd (seg_val d') AND mask 8)) n = (16 \<le> n \<and> n < 24 \<and> bit addr n)"
      using n f(2) [of "n - 16"] seg_val_high [of "n - 16" d'] by (auto simp: bit_push_bit_iff bit_and_iff bit_mask_iff)
    have h: "bit (snd (seg_val d') AND push_bit 24 (mask 8)) n = (24 \<le> n \<and> bit addr n)"
      using n f(1) [of "n - 24"] seg_val_high [OF n, of d'] by (auto simp: bit_push_bit_iff bit_and_iff bit_mask_iff)
    show "bit (seg_base (seg_val d')) n = bit addr n"
      unfolding seg_base_def byte_masks bit_or_iff l m h using n by linarith
  qed
  show "seg_present d' = seg_present d" "seg_dpl d' = seg_dpl d" "seg_sys d' = seg_sys d" "seg_type d' = seg_type d"
    using assms by (auto simp: SET_LDT_PARAMS_def SET_TSS_PARAMS_def)
  assume "\<not> seg_granularity d"
  then have "\<not> seg_granularity d'" using assms by (auto simp: SET_LDT_PARAMS_def SET_TSS_PARAMS_def)
  then have g: "\<not> bit (snd (seg_val d')) 23" by (simp add: seg_val_high)
  show "seg_limit (seg_val d') = take_bit 20 bound"
  proof (rule bit_word_eqI)
    fix n assume "n < LENGTH(32)"
    then have n: "n < 32" by simp
    have l: "bit (fst (seg_val d') AND mask 16) n = (n < 16 \<and> bit bound n)"
      using n f(5) [of n] seg_val_low [of n d'] by (auto simp: bit_and_iff bit_mask_iff)
    have h: "bit (snd (seg_val d') AND push_bit 16 (mask 4)) n = (16 \<le> n \<and> n < 20 \<and> bit bound n)"
      using n f(4) [of "n - 16"] seg_val_high [OF n, of d'] by (auto simp: bit_push_bit_iff bit_and_iff bit_mask_iff)
    have "seg_limit (seg_val d') = (fst (seg_val d') AND mask 16) OR (snd (seg_val d') AND push_bit 16 (mask 4))"
      using g by (simp add: seg_limit_def Let_def byte_masks(2,5) [symmetric])
    then show "bit (seg_limit (seg_val d')) n = bit (take_bit 20 bound) n"
      using n by (auto simp: bit_or_iff l h bit_take_bit_iff)
  qed
qed

section \<open>User mode\<close>

text \<open>The registers with which a program starts; \<^verbatim>\<open>es\<close>, \<^verbatim>\<open>fs\<close> and \<^verbatim>\<open>gs\<close> are set as \<^verbatim>\<open>ds\<close> is.\<close>

record user_regs =
  user_eip :: u32
  user_cs :: u16
  user_eflags :: u32
  user_esp :: u32
  user_ss :: u16
  user_ds :: u16

text \<open>\<^verbatim>\<open>pushfl\<close>: bit 9 is the interrupt flag, the others are in \<open>other\<close>.\<close>

definition eflags_word :: "u32 \<Rightarrow> 'a machine_scheme \<Rightarrow> u32" where
  "eflags_word other s = (other AND NOT 0x200) OR (if int_flag s then 0x200 else 0)"

text \<open>The words on the stack, the last pushed one first.\<close>

fun iret :: "u16 \<Rightarrow> u32 list \<Rightarrow> user_regs option" where
  "iret ds (eip # cs # eflags # esp # ss # _) =
     Some \<lparr>user_eip = eip, user_cs = ucast cs, user_eflags = eflags, user_esp = esp, user_ss = ucast ss, user_ds = ds\<rparr>"
| "iret ds _ = None"

definition usr_exec :: "u32 \<Rightarrow> u32 \<Rightarrow> 'a machine_scheme \<Rightarrow> user_regs option \<times> 'a machine_scheme" where
  "usr_exec other addr s =
     (let s = cli s;
          ebx = addr;
          esi = ucast USER_CS;
          edi = ucast USER_DS;
          ds = ucast edi;
          stack = [edi];
          stack = 0x83FFFFC # stack;
          s = sti s;
          stack = eflags_word other s # stack;
          stack = esi # stack;
          stack = ebx # stack
      in (iret ds stack, s))"

section \<open>boot.S\<close>

record cpu_regs =
  gdtr :: x86_desc
  idtr :: x86_desc
  reg_cs :: u16
  reg_ss :: u16
  reg_ds :: u16

text \<open>What is outside: the addresses of the two tables and of the entry points, the return addresses of the two
  calls, the registers that the boot loader sets, and the flags that \<^verbatim>\<open>pushfl\<close> finds.\<close>

record start_context =
  gdt_addr :: u32
  idt_addr :: u32
  entry_addr :: "irq_entry \<Rightarrow> u32"
  after_idt :: u32
  after_entry :: u32
  start_regs :: regs
  other_flags :: u32

definition pushl :: "u32 \<Rightarrow> 'a kernel_scheme \<Rightarrow> 'a kernel_scheme" where
  "pushl v s = s\<lparr>cpu_esp := cpu_esp s - 4, mem := store32 (mem s) (cpu_esp s - 4) v\<rparr>"

definition popl :: "'a kernel_scheme \<Rightarrow> u32 \<times> 'a kernel_scheme" where
  "popl s = (load32 (mem s) (cpu_esp s), s\<lparr>cpu_esp := cpu_esp s + 4\<rparr>)"

text \<open>The macro of \<^verbatim>\<open>init_idt\<close> that loads the table.\<close>

definition lidt :: "x86_desc \<Rightarrow> cpu_regs \<Rightarrow> cpu_regs" where [simp]:
  "lidt desc c = c\<lparr>idtr := desc\<rparr>"

text \<open>From the entry point to the call of the C code, which returns to \<open>after_entry\<close>.\<close>

definition start_call ::
  "start_context \<Rightarrow> cpu_regs \<times> (nat \<Rightarrow> idt_desc) \<times> 'a kernel_scheme \<Rightarrow> cpu_regs \<times> (nat \<Rightarrow> idt_desc) \<times> 'a kernel_scheme" where
  "start_call x = (\<lambda>(c, idt, s).
     let r = start_regs x;
         s = cli s;
         c = c\<lparr>gdtr := gdt_desc_ptr (gdt_addr x)\<rparr>;
         s = pushl (eax r) s;
         s = pushl (ecx r) s;
         s = pushl (edx r) s;
         s = pushl (after_idt x) s;
         c = lidt (idt_desc_ptr (idt_addr x)) c;
         idt = init_idt (entry_addr x) idt;
         (_, s) = popl s;
         (edx, s) = popl s;
         (ecx, s) = popl s;
         (eax, s) = popl s;
         c = c\<lparr>reg_cs := KERNEL_CS\<rparr>;
         s = s\<lparr>cpu_esp := 0x800000\<rparr>;
         cx = KERNEL_DS;
         c = c\<lparr>reg_ss := cx\<rparr>;
         c = c\<lparr>reg_ds := cx\<rparr>;
         s = pushl (ebx r) s;
         s = pushl eax s;
         s = pushl (after_entry x) s
     in (c, idt, s))"

text \<open>How it ends: the loop of \<^verbatim>\<open>hlt\<close>, here or in \<^verbatim>\<open>entry\<close>, or a program.\<close>

datatype 's start_end = Halted 's | In_user user_regs 's

definition start ::
  "start_context \<Rightarrow> boot_context \<Rightarrow> 'a kernel_scheme env \<Rightarrow> sb \<times> cpu_tables \<times> cpu_regs \<times> (nat \<Rightarrow> idt_desc) \<times> 'a kernel_scheme
     \<Rightarrow> (sb \<times> cpu_tables \<times> cpu_regs \<times> (nat \<Rightarrow> idt_desc) \<times> 'a kernel_scheme start_end) option" where
  "start x b env = (\<lambda>(d, g, c, idt, s).
     let (c, idt, s) = start_call x (c, idt, s);
         magic = load32 (mem s) (cpu_esp s + 4);
         addr = load32 (mem s) (cpu_esp s + 8)
     in Option.bind (entry b env magic addr (d, g, s)) (\<lambda>(d, g, f).
          case f of
            Ret _ s \<Rightarrow> Some (d, g, c, idt, Halted s)
          | Resume_stack s \<Rightarrow> None
          | Enter_user e s \<Rightarrow> map_option (\<lambda>u. (d, g, c, idt, In_user u s)) (fst (usr_exec (other_flags x) e s))))"

lemma load32_apart:
  assumes "4 \<le> unat (b - a)" "4 \<le> unat (a - b)"
  shows "load32 (store32 m b v) a = load32 m a"
proof -
  have "a + of_nat i \<notin> rng b 4" if "i < 4" for i
  proof
    assume "a + of_nat i \<in> rng b 4"
    then have j: "unat (a + of_nat i - b) < 4" by simp
    define j where "j = unat (a + of_nat i - b)"
    have "of_nat j = a + of_nat i - b" by (simp add: j_def)
    then have e: "a - b = of_nat j - of_nat i" by (simp add: algebra_simps)
    show False
    proof (cases "i \<le> j")
      case True
      then have "a - b = of_nat (j - i)" using e by simp
      then show False using assms(2) j by (simp add: j_def)
    next
      case False
      then have "b - a = of_nat (i - j)" using e by (simp add: algebra_simps)
      then show False using assms(1) that by simp
    qed
  qed
  note out = this [of 0] this [of 1] this [of 2] this [of 3]
  have "store32 m b v y = m y" if "y \<notin> rng b 4" for y
    unfolding store32_bytes by (rule store_bytes_outside) (use that in simp_all)
  then show ?thesis using out by (intro load32_cong) (simp_all del: in_rng)
qed

lemma start_call_result:
  assumes "start_call x (c, idt, s) = (c', idt', s')"
  shows "load32 (mem s') (cpu_esp s' + 4) = eax (start_regs x)" "load32 (mem s') (cpu_esp s' + 8) = ebx (start_regs x)"
    "cpu_esp s' = 0x7FFFF4" "idt' = init_idt (entry_addr x) idt" "\<not> int_flag s'"
    "gdtr c' = gdt_desc_ptr (gdt_addr x)" "idtr c' = idt_desc_ptr (idt_addr x)" "reg_cs c' = KERNEL_CS" "reg_ss c' = KERNEL_DS"
    "reg_ds c' = KERNEL_DS"
proof -
  let ?r = "start_regs x" and ?e = "cpu_esp s"
  let ?m = "store32 (store32 (store32 (store32 (mem s) (?e - 4) (eax ?r)) (?e - 8) (ecx ?r)) (?e - 12) (edx ?r)) (?e - 16) (after_idt x)"
  have eax: "load32 ?m (?e - 4) = eax ?r" by (simp add: load32_apart load32_store32)
  have m: "mem s' = store32 (store32 (store32 ?m 0x7FFFFC (ebx ?r)) 0x7FFFF8 (eax ?r)) 0x7FFFF4 (after_entry x)"
    using assms eax by (auto simp: start_call_def pushl_def popl_def cli_def Let_def)
  show "cpu_esp s' = 0x7FFFF4" "idt' = init_idt (entry_addr x) idt" "\<not> int_flag s'"
    "gdtr c' = gdt_desc_ptr (gdt_addr x)" "idtr c' = idt_desc_ptr (idt_addr x)" "reg_cs c' = KERNEL_CS" "reg_ss c' = KERNEL_DS"
    "reg_ds c' = KERNEL_DS"
    using assms by (auto simp: start_call_def pushl_def popl_def cli_def Let_def)
  then show "load32 (mem s') (cpu_esp s' + 4) = eax ?r" "load32 (mem s') (cpu_esp s' + 8) = ebx ?r"
    by (simp_all add: m load32_apart load32_store32)
qed

lemma selected_entries:
  "selected (gdt g) KERNEL_CS = quad 0x00CF9A000000FFFF" "selected (gdt g) KERNEL_DS = quad 0x00CF92000000FFFF"
  "selected (gdt g) USER_CS = quad 0x00CFFA000000FFFF" "selected (gdt g) USER_DS = quad 0x00CFF2000000FFFF"
  "selected (gdt g) KERNEL_TSS = seg_val (tss_desc_ptr g)" "selected (gdt g) KERNEL_LDT = seg_val (ldt_desc_ptr g)"
proof -
  have i: "unat (drop_bit 3 KERNEL_CS) = 2" "unat (drop_bit 3 KERNEL_DS) = 3" "unat (drop_bit 3 USER_CS) = 4"
    "unat (drop_bit 3 USER_DS) = 5" "unat (drop_bit 3 KERNEL_TSS) = 6" "unat (drop_bit 3 KERNEL_LDT) = 7"
    by code_simp+
  show "selected (gdt g) KERNEL_CS = quad 0x00CF9A000000FFFF" "selected (gdt g) KERNEL_DS = quad 0x00CF92000000FFFF"
    "selected (gdt g) USER_CS = quad 0x00CFFA000000FFFF" "selected (gdt g) USER_DS = quad 0x00CFF2000000FFFF"
    "selected (gdt g) KERNEL_TSS = seg_val (tss_desc_ptr g)" "selected (gdt g) KERNEL_LDT = seg_val (ldt_desc_ptr g)"
    unfolding selected_def gdt_def i by simp_all
qed

lemma code_and_data_segments:
  "flat_segment (gdt g) KERNEL_CS 0x1A" "flat_segment (gdt g) KERNEL_DS 0x12"
  "flat_segment (gdt g) USER_CS 0x1A" "flat_segment (gdt g) USER_DS 0x12"
  unfolding flat_segment_def selected_entries Let_def by code_simp+

lemma system_segments:
  assumes "g' = fst (load_tss b (load_ldt b g) s)"
  shows "seg_base (selected (gdt g') KERNEL_TSS) = tss_addr b" "seg_limit (selected (gdt g') KERNEL_TSS) = take_bit 20 (tss_size b)"
    "desc_type (selected (gdt g') KERNEL_TSS) = 9" "desc_dpl (selected (gdt g') KERNEL_TSS) = 0" "desc_present (selected (gdt g') KERNEL_TSS)"
    "seg_base (selected (gdt g') KERNEL_LDT) = ldt_addr b" "seg_limit (selected (gdt g') KERNEL_LDT) = take_bit 20 (ldt_size b)"
    "desc_type (selected (gdt g') KERNEL_LDT) = 2" "desc_dpl (selected (gdt g') KERNEL_LDT) = 0" "desc_present (selected (gdt g') KERNEL_LDT)"
proof -
  obtain d where d: "tss_desc_ptr g' = SET_TSS_PARAMS (tss_addr b) (tss_size b) d" "\<not> seg_granularity d" "seg_present d" "seg_dpl d = 0"
    "\<not> seg_sys d" "seg_type d = 9"
    using assms by (auto simp: load_tss_def load_ldt_def Let_def)
  obtain l where l: "ldt_desc_ptr g' = SET_LDT_PARAMS (ldt_addr b) (ldt_size b) l" "\<not> seg_granularity l" "seg_present l" "seg_dpl l = 0"
    "\<not> seg_sys l" "seg_type l = 2"
    using assms by (auto simp: load_tss_def load_ldt_def Let_def)
  note t = set_params_read [OF disjI2, OF d(1)] and u = set_params_read [OF disjI1, OF l(1)]
  show "seg_base (selected (gdt g') KERNEL_TSS) = tss_addr b" "seg_limit (selected (gdt g') KERNEL_TSS) = take_bit 20 (tss_size b)"
    "desc_type (selected (gdt g') KERNEL_TSS) = 9" "desc_dpl (selected (gdt g') KERNEL_TSS) = 0" "desc_present (selected (gdt g') KERNEL_TSS)"
    using d(2-6) t by (simp_all add: selected_entries read_seg_fields)
  show "seg_base (selected (gdt g') KERNEL_LDT) = ldt_addr b" "seg_limit (selected (gdt g') KERNEL_LDT) = take_bit 20 (ldt_size b)"
    "desc_type (selected (gdt g') KERNEL_LDT) = 2" "desc_dpl (selected (gdt g') KERNEL_LDT) = 0" "desc_present (selected (gdt g') KERNEL_LDT)"
    using l(2-6) u by (simp_all add: selected_entries read_seg_fields)
qed

lemma entry_tables:
  fixes s :: "'a kernel_scheme"
  assumes "entry b env magic mbi (d, g, s) = Some (d', g', Enter_user e t)"
  shows "\<exists>s1 :: 'a kernel_scheme. g' = fst (load_tss b (load_ldt b g) s1)"
  using assms by (auto simp: entry_def Let_def bind_eq_Some_conv case_prod_beta split: if_splits option.splits)

lemma usr_exec_user:
  assumes "fst (usr_exec other e s) = Some u"
  shows "user_eip u = e" "user_esp u = 0x83FFFFC" "user_cs u = USER_CS" "user_ss u = USER_DS" "user_ds u = USER_DS" "bit (user_eflags u) 9"
  using assms
proof -
  have "bit (eflags_word other (sti v)) 9" for v :: "'b machine_scheme" by (simp add: eflags_word_def bit_simps)
  moreover have "(ucast (ucast c :: u32) :: u16) = c" for c :: u16 by (rule bit_word_eqI) (simp add: bit_simps)
  ultimately show "user_eip u = e" "user_esp u = 0x83FFFFC" "user_cs u = USER_CS" "user_ss u = USER_DS" "user_ds u = USER_DS" "bit (user_eflags u) 9"
    using assms by (auto simp: usr_exec_def Let_def)
qed

section \<open>Properties\<close>

text \<open>C21: the processor reads back what the kernel writes to the descriptor table. The four selectors of code and
  data are segments of all 4 GB at the privilege level in the selector, executable or writable; after
  \<^verbatim>\<open>entry\<close> has set them, the descriptors of the task state and of the local table have their addresses and the
  low 20 bits of their limits, whatever these are, and the types that \<^verbatim>\<open>ltr\<close> and \<^verbatim>\<open>lldt\<close> need.\<close>

theorem descriptors_read_back:
  shows "let table = gdt (fst (load_tss b (load_ldt b g) s)); tss = selected table KERNEL_TSS; ldt = selected table KERNEL_LDT in
    flat_segment table KERNEL_CS 0x1A \<and> flat_segment table KERNEL_DS 0x12 \<and> flat_segment table USER_CS 0x1A \<and> flat_segment table USER_DS 0x12
    \<and> seg_base tss = tss_addr b \<and> seg_limit tss = take_bit 20 (tss_size b) \<and> desc_type tss = 9 \<and> desc_dpl tss = 0 \<and> desc_present tss
    \<and> seg_base ldt = ldt_addr b \<and> seg_limit ldt = take_bit 20 (ldt_size b) \<and> desc_type ldt = 2 \<and> desc_dpl ldt = 0 \<and> desc_present ldt"
  by (simp add: code_and_data_segments system_segments Let_def)


text \<open>The sample boot of the theory of \<^verbatim>\<open>entry\<close>, from the start: its memory has the words that are pushed.\<close>

definition start_sample :: start_context where
  "start_sample = \<lparr>gdt_addr = 0x404000, idt_addr = 0x404100, entry_addr = (\<lambda>_. 0x400800), after_idt = 0, after_entry = 0,
     start_regs = \<lparr>eax = 0x2BADB002, ebx = 0x500, ecx = 0, edx = 0\<rparr>, other_flags = 2\<rparr>"

lemma boot_ready_quiet:
  assumes "boot_ready b env mbi a names n e args s" "t = s\<lparr>int_flag := i, cpu_esp := p\<rparr>"
  shows "boot_ready b env mbi a names n e args t"
proof -
  let ?s = "fs_init a s" and ?t = "fs_init a t"
  have st: "?t = ?s\<lparr>int_flag := i, cpu_esp := p\<rparr>" by (simp add: assms(2) fs_init_def Let_def)
  have sf: "same_files ?s ?t" by (simp add: st same_files_def image_same_def)
  note r = assms(1) [unfolded boot_ready_def Let_def]
  have wf: "fs_wf ?s" "inode_ok n ?s" using r by (simp_all add: runnable_def)
  note k = same_files_keeps [OF sf wf(1)]
  have f: "curr_proc t = curr_proc s" "prev_proc t = prev_proc s" "curr_proc_id_mask t = curr_proc_id_mask s"
    "curr_active_term t = curr_active_term s" "mem t = mem s" "pcbs t = pcbs s" "strtok_buf t = strtok_buf s"
    by (simp_all add: assms(2))
  have "cursor_ok t = cursor_ok s" "card_ready t = card_ready s" "boot_info_ok mbi a t = boot_info_ok mbi a s"
    by (simp_all add: assms(2) cursor_ok_def card_ready_def dsp_ready_def boot_info_ok_def mbi_field_def)
  moreover have "bare_layout env (shell_literal env) 5 (length args) ?t = bare_layout env (shell_literal env) 5 (length args) ?s"
    by (simp only: bare_layout_def k(2))
  ultimately show ?thesis
    using r runnable_same [OF _ sf] by (simp only: boot_ready_def Let_def f k(2) k(6) [OF wf(2)] simp_thms)
qed

lemma store32_same:
  assumes "m a = ucast v" "m (a + 1) = ucast (drop_bit 8 v)" "m (a + 2) = ucast (drop_bit 16 v)" "m (a + 3) = ucast (drop_bit 24 v)"
  shows "store32 m a v = m"
  by (simp add: store32_def fun_upd_idem assms [symmetric])

lemma boot_image_high:
  assumes "0x100000 \<le> a"
  shows "boot_image a = ((\<lambda>_. 0)(0x7FFEFC := 0x02, 0x7FFEFD := 0xB0, 0x7FFEFE := 0xAD, 0x7FFEFF := 0x2B,
     0x7FFFF8 := 0x02, 0x7FFFF9 := 0xB0, 0x7FFFFA := 0xAD, 0x7FFFFB := 0x2B, 0x7FFFFD := 5)) a"
  using assms by (auto simp: boot_image_def demo_image_def)

lemma pushl_sample:
  "store32 boot_image 0x7FFEFC 0x2BADB002 = boot_image" "store32 boot_image 0x7FFEF8 0 = boot_image"
  "store32 boot_image 0x7FFEF4 0 = boot_image" "store32 boot_image 0x7FFEF0 0 = boot_image"
  "store32 boot_image 0x7FFFFC 0x500 = boot_image" "store32 boot_image 0x7FFFF8 0x2BADB002 = boot_image"
  "store32 boot_image 0x7FFFF4 0 = boot_image"
  by (rule store32_same, simp_all add: boot_image_high)+


end
