(* ===== verification/Typing.thy ===== *)
theory Typing
  imports System
begin

text \<open>
  A program reads its terminal while the user types: \<^verbatim>\<open>read\<close> of descriptor 0
  (\<^verbatim>\<open>src/kernel/syscall.c\<close>) waits in \<^verbatim>\<open>terminal_read\<close> (\<^verbatim>\<open>src/drivers/keyboard.c\<close>) for the interrupts
  that the keys raise. The keys are the letters, Backspace and, at the end, Enter.
\<close>

section \<open>Keys that edit\<close>

definition edits :: "'a kbd_scheme \<Rightarrow> u8 \<Rightarrow> edit_event \<Rightarrow> bool" where
  "edits s k e \<longleftrightarrow> (case e of Typed c \<Rightarrow> \<exists>l. (k, l) \<in> set letter_keys \<and> c = typed_letter s l | Erased \<Rightarrow> k = 0x0E)"

text \<open>What typing changes.\<close>

definition typing :: "nat \<Rightarrow> 'a kbd_scheme \<Rightarrow> 'a kbd_scheme \<Rightarrow> bool" where
  "typing n s s' \<longleftrightarrow> (\<exists>m x y l p k b. s' = s\<lparr>mem := m, screen_x := x, screen_y := y, lib_active_terminal := l, port_out := p,
     keyboard_buf := k, num_chars_in_buf := b, in_count := in_count s + n\<rparr>)"

lemma typingE:
  assumes "typing n s s'"
  obtains m x y l p k b where "s' = s\<lparr>mem := m, screen_x := x, screen_y := y, lib_active_terminal := l, port_out := p,
     keyboard_buf := k, num_chars_in_buf := b, in_count := in_count s + n\<rparr>"
  using assms unfolding typing_def by blast

lemma typing_trans: "typing n s s' \<Longrightarrow> typing k s' s'' \<Longrightarrow> typing (n + k) s s''"
  by (elim typingE) (simp add: typing_def add.assoc, metis)

lemma typing_0: "typing 0 s s"
proof -
  have "s = s\<lparr>mem := mem s, screen_x := screen_x s, screen_y := screen_y s, lib_active_terminal := lib_active_terminal s,
     port_out := port_out s, keyboard_buf := keyboard_buf s, num_chars_in_buf := num_chars_in_buf s, in_count := in_count s + 0\<rparr>"
    by simp
  then show ?thesis unfolding typing_def by blast
qed

lemma typing_keeps:
  assumes "typing n s s'"
  shows "active s' = active s" "read_buf_ready s' = read_buf_ready s" "curr_active_term s' = curr_active_term s"
    "port_in s' = port_in s" "in_count s' = in_count s + n" "int_flag s' = int_flag s" "special_key_enabled s' = special_key_enabled s"
    "cntrl_l_on s' = cntrl_l_on s" "cntrl_r_on s' = cntrl_r_on s" "typed_letter s' c = typed_letter s c"
    "edits s' k e = edits s k e"
proof -
  obtain m x y l p k' b where s': "s' = s\<lparr>mem := m, screen_x := x, screen_y := y, lib_active_terminal := l, port_out := p,
     keyboard_buf := k', num_chars_in_buf := b, in_count := in_count s + n\<rparr>" using assms by (rule typingE)
  show "active s' = active s" "read_buf_ready s' = read_buf_ready s" "curr_active_term s' = curr_active_term s"
    "port_in s' = port_in s" "in_count s' = in_count s + n" "int_flag s' = int_flag s" "special_key_enabled s' = special_key_enabled s"
    "cntrl_l_on s' = cntrl_l_on s" "cntrl_r_on s' = cntrl_r_on s"
    by (simp_all add: s' active_def)
  have t: "typed_letter s' c = typed_letter s c" for c by (simp add: s' typed_letter_def)
  then show "typed_letter s' c = typed_letter s c" .
  show "edits s' k e = edits s k e" unfolding edits_def t ..
qed

lemma typing_console: "console_frame s s' \<Longrightarrow> typing 0 s s'"
proof (elim console_frameE)
  fix m x y l p assume "s' = s\<lparr>mem := m, screen_x := x, screen_y := y, lib_active_terminal := l, port_out := p\<rparr>"
  then have "s' = s\<lparr>mem := m, screen_x := x, screen_y := y, lib_active_terminal := l, port_out := p,
     keyboard_buf := keyboard_buf s, num_chars_in_buf := num_chars_in_buf s, in_count := in_count s + 0\<rparr>" by simp
  then show ?thesis unfolding typing_def by blast
qed

lemma typing_buffers: "typing 0 s (set_buf t i v s)" "typing 0 s (set_num t n s)"
proof -
  have "set_buf t i v s = s\<lparr>mem := mem s, screen_x := screen_x s, screen_y := screen_y s, lib_active_terminal := lib_active_terminal s,
      port_out := port_out s, keyboard_buf := (keyboard_buf s)(buf_index t i := v), num_chars_in_buf := num_chars_in_buf s,
      in_count := in_count s + 0\<rparr>"
    "set_num t n s = s\<lparr>mem := mem s, screen_x := screen_x s, screen_y := screen_y s, lib_active_terminal := lib_active_terminal s,
      port_out := port_out s, keyboard_buf := keyboard_buf s, num_chars_in_buf := (num_chars_in_buf s)(t := n),
      in_count := in_count s + 0\<rparr>"
    by (simp_all add: set_buf_def set_num_def)
  then show "typing 0 s (set_buf t i v s)" "typing 0 s (set_num t n s)" unfolding typing_def by blast+
qed

lemmas typing_then = typing_trans [where n = 0 and k = 0, unfolded add_0_left]

lemma edit_step_typing: "typing 0 s (edit_step s e)"
proof (cases e)
  case (Typed c)
  then show ?thesis
    by (auto simp: add_char_to_buffer_def Let_def typing_0 typing_console [OF console_frame_steps(1)]
        intro!: typing_then [OF _ typing_console [OF putc_frame]] typing_then [OF _ typing_buffers(2)] typing_buffers(1))
next
  case Erased
  then show ?thesis
    by (auto simp: handle_backspace_def erase_char_def Let_def typing_0
        intro!: typing_then [OF _ typing_buffers(1)] typing_then [OF _ typing_buffers(2)] typing_console [OF del_last_char_frame])
qed

lemma edit_step_edits:
  assumes "kbd_ok s"
  shows "kbd_ok (edit_step s e)" "line (edit_step s e) (active s) = edit (line s (active s)) e"
proof -
  have a: "active s < 3" "unat (active_terminal s) < 3" using assms by (simp_all add: kbd_ok_def active_def)
  have "kbd_ok (edit_step s e) \<and> line (edit_step s e) (active s) = edit (line s (active s)) e"
    using add_char_line(1,2) [OF assms a(2,1)] backspace_line(1,2) [OF assms a(1)] by (cases e) (simp_all add: active_def)
  then show "kbd_ok (edit_step s e)" "line (edit_step s e) (active s) = edit (line s (active s)) e" by simp_all
qed

section \<open>The interrupts\<close>

text \<open>The state in which the handler acts on a key.\<close>

abbreviation (input) pressed :: "'a kbd_scheme \<Rightarrow> 'a kbd_scheme" where
  "pressed s \<equiv> s\<lparr>int_flag := False, in_count := Suc (in_count s)\<rparr>"

definition acknowledged :: "bool \<Rightarrow> 'a kbd_scheme \<Rightarrow> 'a kbd_scheme" where
  "acknowledged flags s = s\<lparr>port_out := port_out s @ [(0x20, 0x61)], int_flag := flags\<rparr>"

lemma acknowledged_eq: "restore_flags flags (send_eoi 1 s) = acknowledged flags s"
  using send_eoi_effect [of 1 s] by (simp add: acknowledged_def restore_flags_def)

lemma key_codes:
  "code_to_ascii ! 0x0E = ASCII_PLACEHOLDER" "code_to_ascii ! 0x1C = ASCII_PLACEHOLDER" "(0x0E :: u8) < 0x59" "(0x1C :: u8) < 0x59"
  "unat (0x0E :: u8) = 0x0E" "unat (0x1C :: u8) = 0x1C"
  by code_simp+

lemma keypress_edits:
  fixes s :: "'a kbd_scheme"
  assumes "edits s (port_in s (in_count s) KEYBOARD_D_PORT) e" and "\<not> special_key_enabled s" "\<not> cntrl_l_on s" "\<not> cntrl_r_on s"
  shows "handle_keypress h c s = Some (Ret () (acknowledged (int_flag s) (edit_step (pressed s) e)))"
proof (cases e)
  case (Typed a)
  then obtain l where l: "(port_in s (in_count s) KEYBOARD_D_PORT, l) \<in> set letter_keys" "a = typed_letter s l"
    using assms(1) by (auto simp: edits_def)
  from keypress_prints [OF key_char_letter(2,3) [OF l(1)] assms(2-4), of h c] key_char_letter(1) [OF l(1), of s] l(2) Typed
  show ?thesis by (simp add: acknowledged_eq)
next
  case Erased
  then have "port_in s (in_count s) KEYBOARD_D_PORT = 0x0E" using assms(1) by (simp add: edits_def)
  then show ?thesis
    using assms(2-4) Erased by (simp add: handle_keypress_def cli_and_save_def inb_def key_control_def key_codes acknowledged_eq)
qed

lemma keypress_enters:
  fixes s :: "'a kbd_scheme"
  assumes "port_in s (in_count s) KEYBOARD_D_PORT = 0x1C" and "\<not> special_key_enabled s"
  shows "handle_keypress h c s = Some (Ret () (acknowledged (int_flag s) (handle_enter (pressed s))))"
  using assms by (simp add: handle_keypress_def cli_and_save_def inb_def key_control_def key_codes acknowledged_eq)

lemma acknowledged_typing:
  assumes "typing 0 (pressed s) t" shows "typing 1 s (acknowledged (int_flag s) t)"
proof -
  obtain m x y l p k b where t: "t = (pressed s)\<lparr>mem := m, screen_x := x, screen_y := y, lib_active_terminal := l, port_out := p,
     keyboard_buf := k, num_chars_in_buf := b, in_count := in_count (pressed s) + 0\<rparr>" using assms by (rule typingE)
  have "acknowledged (int_flag s) t = s\<lparr>mem := m, screen_x := x, screen_y := y, lib_active_terminal := l, port_out := p @ [(0x20, 0x61)],
     keyboard_buf := k, num_chars_in_buf := b, in_count := in_count s + 1\<rparr>"
    by (simp add: t acknowledged_def)
  then show ?thesis unfolding typing_def by blast
qed

lemma acknowledged_line:
  "line (acknowledged f s) t = line s t" "kbd_ok (acknowledged f s) = kbd_ok s" "line (pressed s) t = line s t" "kbd_ok (pressed s) = kbd_ok s"
  "active (pressed s) = active s"
  by (simp_all add: acknowledged_def line_def kbd_ok_def active_def)

lemma keypress_types:
  fixes s :: "'a kbd_scheme"
  assumes "edits s (port_in s (in_count s) KEYBOARD_D_PORT) e" and "\<not> special_key_enabled s" "\<not> cntrl_l_on s" "\<not> cntrl_r_on s"
    and "kbd_ok s"
  shows "\<exists>t. handle_keypress h c s = Some (Ret () t) \<and> typing 1 s t \<and> kbd_ok t \<and> line t (active s) = edit (line s (active s)) e"
  using keypress_edits [OF assms(1-4), of h c] acknowledged_typing [OF edit_step_typing, of s e] edit_step_edits [of "pressed s" e] assms(5)
  by (simp add: acknowledged_line)

section \<open>Waiting for the line\<close>

text \<open>What a keyboard interrupt does to a call that waits: the call goes on if the handler returns.\<close>

definition key_round :: "'a kernel_scheme env \<Rightarrow> nat \<Rightarrow> 'a kernel_scheme \<Rightarrow> 'a kernel_scheme option" where
  "key_round env n s = (case keyboard_irq env s of Some (Ret _ s) \<Rightarrow> Some s | _ \<Rightarrow> None)"

lemma key_round_ret: "(\<And>h c. handle_keypress h c s = Some (Ret () t)) \<Longrightarrow> key_round env n s = Some t"
  by (simp add: key_round_def keyboard_irq_def)

text \<open>The keys that come next edit, and then Enter is pressed.\<close>

definition keys_come :: "edit_event list \<Rightarrow> 'a kbd_scheme \<Rightarrow> bool" where
  "keys_come es s \<longleftrightarrow> (\<forall>i<length es. edits s (port_in s (in_count s + i) KEYBOARD_D_PORT) (es ! i))
     \<and> port_in s (in_count s + length es) KEYBOARD_D_PORT = 0x1C
     \<and> \<not> special_key_enabled s \<and> \<not> cntrl_l_on s \<and> \<not> cntrl_r_on s"

lemma keys_come_Cons:
  assumes "keys_come (e # es) s" and "typing 1 s t"
  shows "keys_come es t"
proof -
  have "edits s (port_in s (in_count s + Suc i) KEYBOARD_D_PORT) (es ! i)" if "i < length es" for i
    using assms(1) that by (auto simp: keys_come_def dest!: spec [of _ "Suc i"])
  then show ?thesis using assms by (auto simp: keys_come_def typing_keeps)
qed

lemma wait_types:
  fixes s :: "'a kernel_scheme"
  assumes round: "\<And>n u. int_flag u \<Longrightarrow> rounds n u = key_round env n u"
  shows "keys_come es s \<Longrightarrow> kbd_ok s \<Longrightarrow> int_flag s \<Longrightarrow> read_buf_ready s (unat (curr_active_term s)) = 0 \<Longrightarrow>
    \<exists>t. terminal_wait rounds n s = terminal_wait rounds (n + length es) t \<and> typing (length es) s t \<and> kbd_ok t \<and> keys_come [] t
      \<and> line t (active s) = foldl edit (line s (active s)) es"
proof (induction es arbitrary: s n)
  case Nil
  then show ?case using typing_0 [of s] by auto
next
  case (Cons e es)
  have "edits s (port_in s (in_count s + 0) KEYBOARD_D_PORT) e" and f: "\<not> special_key_enabled s" "\<not> cntrl_l_on s" "\<not> cntrl_r_on s"
    using Cons.prems(1) by (auto simp: keys_come_def)
  then have e: "edits s (port_in s (in_count s) KEYBOARD_D_PORT) e" by simp
  note key = keypress_types [OF e f Cons.prems(2)]
  define t where "t = acknowledged (int_flag s) (edit_step (pressed s) e)"
  have h: "handle_keypress h c s = Some (Ret () t)" for h c
    using keypress_edits [OF e f] by (simp add: t_def)
  with key have t: "typing 1 s t" "kbd_ok t" "line t (active s) = edit (line s (active s)) e" by auto
  note k = typing_keeps [OF t(1)]
  from Cons.IH [OF keys_come_Cons [OF Cons.prems(1) t(1)] t(2), of "Suc n"] k Cons.prems(3,4) obtain u where
    u: "terminal_wait rounds (Suc n) t = terminal_wait rounds (Suc n + length es) u" "typing (length es) t u" "kbd_ok u" "keys_come [] u"
      "line u (active s) = foldl edit (line t (active s)) es" by auto
  have "terminal_wait rounds n s = terminal_wait rounds (Suc n) t"
    using Cons.prems(3,4) round [of s n] key_round_ret [of s t env n, OF h]
    by (subst terminal_wait.simps) (simp add: get_curr_running_term_proc_def)
  then show ?case using u t(3) typing_trans [OF t(1) u(2)] by auto
qed

lemma acknowledged_enter: "acknowledged f (handle_enter s) = handle_enter (acknowledged f s)"
  by (cases s) (simp add: handle_enter_eq acknowledged_def set_ready_def active_def cong: if_cong)

lemma wait_enters:
  fixes s :: "'a kernel_scheme"
  assumes round: "\<And>n u. int_flag u \<Longrightarrow> rounds n u = key_round env n u"
    and "keys_come [] s" "int_flag s" "active s = unat (curr_active_term s)" "read_buf_ready s (unat (curr_active_term s)) = 0"
  shows "terminal_wait rounds n s = Some (handle_enter (acknowledged True (pressed s)))"
proof -
  let ?t = "handle_enter (acknowledged True (pressed s))"
  have "port_in s (in_count s) KEYBOARD_D_PORT = 0x1C" "\<not> special_key_enabled s" using assms(2) by (simp_all add: keys_come_def)
  then have "handle_keypress h c s = Some (Ret () ?t)" for h c
    using keypress_enters [of s h c] assms(3) by (simp add: acknowledged_enter)
  then have "key_round env n s = Some ?t" by (rule key_round_ret)
  moreover have "read_buf_ready ?t (unat (curr_active_term ?t)) \<noteq> 0"
    using assms(4) by (simp add: handle_enter_eq acknowledged_def active_def)
  ultimately show ?thesis
    using assms(3,5) round [of s n] terminal_wait_ready [of ?t rounds "Suc n"]
    by (subst terminal_wait.simps) (simp add: get_curr_running_term_proc_def)
qed

text \<open>The sample kernel, with \<^verbatim>\<open>hi\<close> typed and Caps Lock on, when Backspace, A and Enter are pressed.\<close>

definition typing_kernel :: kernel where
  "typing_kernel = demo_kernel\<lparr>port_in := \<lambda>n _. [0x0E, 0x1E, 0x1C] ! n\<rparr>"

lemma typing_kernel_fields:
  "active typing_kernel = 0" "curr_active_term typing_kernel = 0" "int_flag typing_kernel" "read_buf_ready typing_kernel t = 0"
  "kbd_ok typing_kernel" "line typing_kernel 0 = [104, 105]"
  by (simp_all add: typing_kernel_def demo_kernel_def kbd.defs demo_kbd_parts active_def kbd_ok_def line_def upt_rec buf_index_def
      demo_fs_def fs_init_def Let_def MAX_CHARS_IN_BUF_def)

lemma typing_kernel_keys: "keys_come [Erased, Typed 65] typing_kernel"
proof -
  have "(0x1E, 97) \<in> set letter_keys" by code_simp
  then have "\<exists>l. (0x1E, l) \<in> set letter_keys \<and> 65 = typed_letter typing_kernel l"
    by (intro exI [of _ 97])
      (simp add: typed_letter_def typing_kernel_def demo_kernel_def kbd.defs demo_kbd_parts demo_fs_def fs_init_def Let_def)
  then show ?thesis
    by (simp add: keys_come_def edits_def less_Suc_eq)
      (simp add: typing_kernel_def demo_kernel_def kbd.defs demo_kbd_parts demo_fs_def fs_init_def Let_def)
qed

section \<open>Properties\<close>

text \<open>C9: a program that reads its terminal gets the line its user types meanwhile. If it calls \<^verbatim>\<open>read\<close> of
  descriptor 0 and the next keys are letters and Backspaces, and then Enter, the call returns after
  the interrupt of Enter with the edited line, in the case the modifiers give, padded with NULs.\<close>

theorem read_gets_typed_line:
  fixes s :: "'a kernel_scheme"
  assumes "cur_pcb s = Some p" "fd_flags (fds p 0) = 1" "operations_pointer (fds p 0) = Some Stdin_ops" "buf \<noteq> 0"
    and "keys_come es s" "kbd_ok s" "int_flag s" "active s = unat (curr_active_term s)" "read_buf_ready s (active s) = 0"
    and "\<And>n u. int_flag u \<Longrightarrow> irqs env n u = key_round env' n u"
    and "l = foldl edit (line s (active s)) es" "0 \<le> sint nbytes" "sint nbytes < 1023" "length l \<le> nat (sint nbytes)"
    and "rng buf (nat (sint nbytes) + 1) \<inter> rng VIDEO 4000 = {}"
  shows "\<exists>t. sys_read env 0 buf nbytes s = Some (nbytes + 1, t) \<and>
    load_bytes (mem t) buf (nat (sint nbytes) + 1) = map ucast l @ replicate (nat (sint nbytes) + 1 - length l) 0 \<and>
    line t (active s) = [] \<and> read_buf_ready t (active s) = 0"
proof -
  have "s\<lparr>int_flag := int_flag s\<rparr> = s" by simp
  then have "sys_read env 0 buf nbytes s = terminal_read (irqs env) buf nbytes s"
    using assms(1-4) by (simp add: sys_read_def cli_and_save_def restore_flags_def call_read_def cur_pcb_def running_def split: if_splits)
  moreover obtain u where u: "terminal_wait (irqs env) 0 s = terminal_wait (irqs env) (length es) u" "typing (length es) s u" "kbd_ok u"
    "keys_come [] u" "line u (active s) = l"
    using wait_types [of "irqs env" env' es s 0] assms(5-11) by auto
  note k = typing_keeps [OF u(2)]
  let ?x = "acknowledged True (pressed u)"
  have x: "kbd_ok ?x" "active ?x = active s" "curr_active_term ?x = curr_active_term s" "line ?x (active s) = l"
    using u(3,5) k(1,3) by (simp_all only: acknowledged_line) (simp_all add: acknowledged_def active_def)
  have "terminal_wait (irqs env) 0 s = Some (handle_enter ?x)"
    using wait_enters [of "irqs env" env' u "length es"] u(1,4) assms(7-10) k by simp
  moreover have "terminal_wait (irqs env) 0 (handle_enter ?x) = Some (handle_enter ?x)"
    using assms(8) x(2,3) by (intro terminal_wait_ready) (simp add: handle_enter_eq)
  ultimately have "sys_read env 0 buf nbytes s = terminal_read (irqs env) buf nbytes (handle_enter ?x)"
    by (simp add: terminal_read_def)
  moreover have "\<exists>t. terminal_read (irqs env) buf nbytes (handle_enter ?x) = Some (nbytes + 1, t) \<and>
      load_bytes (mem t) buf (nat (sint nbytes) + 1) =
        map ucast (line ?x (active ?x)) @ replicate (nat (sint nbytes) + 1 - length (line ?x (active ?x))) 0 \<and>
      line t (active ?x) = [] \<and> read_buf_ready t (active ?x) = 0"
    using assms(8,12-15) x by (intro terminal_read_line) simp_all
  ultimately show ?thesis using x(2,4) by simp
qed

theorem read_gets_typed_line_witness:
  "\<exists>t. sys_read (demo_env\<lparr>irqs := key_round demo_env\<rparr>) 0 0x8000 3 typing_kernel = Some (4, t) \<and>
     load_bytes (mem t) 0x8000 4 = [104, 65, 0, 0]"
proof -
  have "running typing_kernel = 0" "pcb_addr 0 \<noteq> 0" using demo_kernel_fields(8) by (simp_all add: typing_kernel_def running_def) (simp add: pcb_addr_def)
  then have p: "cur_pcb typing_kernel = Some demo_pcb" "fd_flags (fds demo_pcb 0) = 1" "operations_pointer (fds demo_pcb 0) = Some Stdin_ops"
    by (simp_all add: typing_kernel_def cur_pcb_def demo_pcb_def demo_fds_def)
  have l: "[104, 65] = foldl edit (line typing_kernel (active typing_kernel)) [Erased, Typed 65]" by (simp add: typing_kernel_fields)
  have "rng (0x8000 :: u32) (nat (sint (3 :: i32)) + 1) \<inter> rng VIDEO 4000 = {}" by (rule rng_disjoint) (simp_all add: VIDEO_def)
  from read_gets_typed_line [OF p _ typing_kernel_keys _ _ _ _ _ l _ _ _ this, of "demo_env\<lparr>irqs := key_round demo_env\<rparr>" demo_env]
  have "\<exists>t. sys_read (demo_env\<lparr>irqs := key_round demo_env\<rparr>) 0 0x8000 3 typing_kernel = Some (3 + 1, t) \<and>
     load_bytes (mem t) 0x8000 (nat (sint (3 :: i32)) + 1) = map ucast [104, 65 :: u32] @ replicate (nat (sint (3 :: i32)) + 1 - length [104, 65 :: u32]) 0"
    by (simp add: typing_kernel_fields del: in_rng) blast
  moreover have "replicate 2 0 = [0, 0 :: u8]" by (simp add: numeral_2_eq_2)
  ultimately show ?thesis by simp
qed

end
