(* ===== verification/Switch.thy ===== *)
theory Switch
  imports System
begin

text \<open>
  What a switch between the terminals (\<^verbatim>\<open>src/drivers/pit.c\<close>, \<^verbatim>\<open>src/drivers/keyboard.c\<close>) does to
  the programs that run in them. Every terminal has a processor context: the stack registers
  and the 4 MB of user memory, in the machine for the terminal that runs, and in the control
  block and the frame of its process for the others. A switch is shown to be one of an abstract
  machine of three processors that take turns.
\<close>

section \<open>Contexts\<close>

record ctx =
  ctx_esp :: u32
  ctx_ebp :: u32
  ctx_user :: memory

definition user_part :: "memory \<Rightarrow> memory" where
  "user_part m = (\<lambda>ofs. if unat ofs < 4194304 then m ofs else 0)"

definition context_of :: "'a kernel_scheme \<Rightarrow> nat \<Rightarrow> ctx" where
  "context_of s t =
     (if t = running s
      then \<lparr>ctx_esp = cpu_esp s, ctx_ebp = cpu_ebp s, ctx_user = user_part (\<lambda>ofs. mem s (user_base + ofs))\<rparr>
      else let p = pcbs s (curr_proc s t)
           in \<lparr>ctx_esp = p_sched_ksp p, ctx_ebp = p_sched_kbp p, ctx_user = user_part (frames s (ucast (pcb_base p)))\<rparr>)"

text \<open>The terminals all run processes, and the window shows the running one.\<close>

definition dispatched :: "'a kernel_scheme \<Rightarrow> (nat \<Rightarrow> nat list) \<Rightarrow> bool" where
  "dispatched s st \<longleftrightarrow> procs s st \<and> (\<forall>t<3. st t \<noteq> []) \<and> window s = Some (process_frame (of_nat (hd (st (running s)))))"

lemma dispatchedD:
  assumes "dispatched s st"
  shows "procs s st" "running s < 3" "window s = Some (process_frame (of_nat (hd (st (running s)))))"
    "t < 3 \<Longrightarrow> st t = hd (st t) # tl (st t)" "t < 3 \<Longrightarrow> hd (st t) < 7"
proof -
  show p: "procs s st" "running s < 3" "window s = Some (process_frame (of_nat (hd (st (running s)))))"
    using assms by (auto simp: dispatched_def procs_def)
  show n: "st t = hd (st t) # tl (st t)" if "t < 3" for t using assms that by (auto simp: dispatched_def)
  show "hd (st t) < 7" if "t < 3" for t using procs_fields(3) [OF p(1) that] assms that by (auto simp: dispatched_def)
qed

text \<open>The control block of the top process of a terminal.\<close>

lemma dispatched_pcb:
  assumes "dispatched s st" and "t < 3"
  shows "curr_proc s t = pcb_addr (of_nat (hd (st t)))" "curr_proc s t \<noteq> 0"
    "proc_num (pcbs s (curr_proc s t)) = of_nat (hd (st t))"
    "ucast (pcb_base (pcbs s (curr_proc s t))) = process_frame (of_nat (hd (st t)))"
proof -
  note d = dispatchedD [OF assms(1)]
  show c: "curr_proc s t = pcb_addr (of_nat (hd (st t)))"
    using procs_fields(1) [OF d(1) assms(2)] d(4) [OF assms(2)] by (metis head_addr_def list.simps(5))
  show "curr_proc s t \<noteq> 0" using pcb_addr_nonzero [OF d(5) [OF assms(2)]] by (simp add: c)
  have "proc_num (pcbs s (curr_proc s t)) = of_nat (hd (st t)) \<and> pcb_base (pcbs s (curr_proc s t)) = ucast (process_frame (of_nat (hd (st t))))"
    using procs_fields(4) [OF d(1) assms(2) d(4) [OF assms(2)]] by (simp add: c)
  moreover have "(ucast (ucast f :: u32) :: 20 word) = f" for f :: "20 word"
    by (rule bit_word_eqI) (simp add: bit_simps)
  ultimately show "proc_num (pcbs s (curr_proc s t)) = of_nat (hd (st t))"
    "ucast (pcb_base (pcbs s (curr_proc s t))) = process_frame (of_nat (hd (st t)))" by simp_all
qed

text \<open>Different terminals use different frames and control blocks.\<close>

lemma dispatched_apart:
  assumes "dispatched s st" and "t < 3" "u < 3" "t \<noteq> u"
  shows "hd (st t) \<noteq> hd (st u)" "process_frame (of_nat (hd (st t))) \<noteq> process_frame (of_nat (hd (st u)))"
    "curr_proc s t \<noteq> curr_proc s u"
proof -
  note d = dispatchedD [OF assms(1)]
  have "distinct (all_procs st)" using d(1) by (simp add: procs_def)
  moreover have "hd (st t) \<in> set (st t)" "hd (st u) \<in> set (st u)"
    using d(4) [OF assms(2)] d(4) [OF assms(3)] by (metis list.set_intros(1))+
  ultimately show ne: "hd (st t) \<noteq> hd (st u)"
    using assms(2-4) terminal_index [of t] terminal_index [of u] by (auto simp: all_procs_def)
  note b = d(5) [OF assms(2)] d(5) [OF assms(3)]
  show "curr_proc s t \<noteq> curr_proc s u"
    using pcb_addr_inj [OF b] ne by (simp add: dispatched_pcb(1) [OF assms(1)] assms(2,3))
  have w: "(of_nat k :: u32) < 8" "unat (of_nat k :: u32) = k" if "k < 7" for k :: nat
    using that slot_cases [OF that] by auto
  show "process_frame (of_nat (hd (st t))) \<noteq> process_frame (of_nat (hd (st u)))"
    using process_frame_inj [OF w(1) [OF b(1)] w(1) [OF b(2)]] w(2) [OF b(1)] w(2) [OF b(2)] ne by metis
qed

section \<open>A switch keeps the contexts\<close>

text \<open>What a terminal needs to be continued later, and what a function key looks at.\<close>

definition slot_view where
  "slot_view s = (proc_view s, window s, frames s, \<lambda>a. (p_sched_ksp (pcbs s a), p_sched_kbp (pcbs s a)))"

definition sched_view where
  "sched_view s = (slot_view s, active_terminal s, second_term_start s, third_term_start s)"

interpretation sched: device_view sched_view
  by unfold_locales (auto simp: sched_view_def slot_view_def proc_view_def set_pcb_def set_fd_def)

lemma sched_slot_view: "sched_view s' = sched_view s \<Longrightarrow> slot_view s' = slot_view s"
  by (simp add: sched_view_def)

lemma slot_view_fields:
  assumes "slot_view s' = slot_view s"
  shows "proc_view s' = proc_view s" "running s' = running s" "curr_proc s' = curr_proc s" "window s' = window s" "frames s' = frames s"
    "p_sched_ksp (pcbs s' a) = p_sched_ksp (pcbs s a)" "p_sched_kbp (pcbs s' a) = p_sched_kbp (pcbs s a)"
    "pcb_base (pcbs s' a) = pcb_base (pcbs s a)"
  using assms by (simp_all add: slot_view_def proc_view_def running_def fun_eq_iff)

lemma slot_view_keeps:
  assumes "slot_view s' = slot_view s"
  shows "dispatched s' st = dispatched s st" "t \<noteq> running s \<Longrightarrow> context_of s' t = context_of s t"
  using slot_view_fields [OF assms] procs_cong [OF slot_view_fields(1) [OF assms]]
  by (simp_all add: dispatched_def context_of_def Let_def)

text \<open>Steps that keep the context of the running terminal too.\<close>

definition sched_frame :: "'a kernel_scheme \<Rightarrow> 'a kernel_scheme \<Rightarrow> bool" where
  "sched_frame s s' \<longleftrightarrow> slot_view s' = slot_view s
     \<and> cpu_esp s' = cpu_esp s \<and> cpu_ebp s' = cpu_ebp s \<and> (\<forall>a. in_window a \<longrightarrow> mem s' a = mem s a)"

lemma window_addr: "unat ofs < 4194304 \<Longrightarrow> in_window (user_base + ofs)"
  by (simp add: in_window_def)

lemma sched_frame_context:
  assumes "sched_frame s s'"
  shows "context_of s' t = context_of s t" "dispatched s' st = dispatched s st" "running s' = running s" "curr_proc s' = curr_proc s"
proof -
  have v: "slot_view s' = slot_view s" using assms by (simp add: sched_frame_def)
  show r: "running s' = running s" "curr_proc s' = curr_proc s" by (rule slot_view_fields [OF v])+
  show "dispatched s' st = dispatched s st" by (rule slot_view_keeps [OF v])
  show "context_of s' t = context_of s t"
  proof (cases "t = running s")
    case True
    then show ?thesis using assms by (auto simp: context_of_def r sched_frame_def user_part_def window_addr)
  qed (rule slot_view_keeps(2) [OF v])
qed

lemma install_frame_keeps:
  "pcbs (install_frame f s) = pcbs s" "curr_proc (install_frame f s) = curr_proc s" "running (install_frame f s) = running s"
  by (simp_all add: install_frame_def load_cr3_def set_pde_def Let_def running_def)

lemma resume_keeps_contexts:
  assumes d: "dispatched s st" and u: "unat u < 3"
    and s': "s' = resume_sched u (curr_proc s (unat u)) (save_sched (curr_proc s (running s)) s)"
  shows "dispatched s' st" "running s' = unat u" "t < 3 \<Longrightarrow> context_of s' t = context_of s t"
    "tss_esp0 s' = esp0_of (of_nat (hd (st (unat u))))"
proof -
  note dd = dispatchedD [OF d]
  let ?c = "curr_proc s (running s)" and ?n = "curr_proc s (unat u)"
  let ?p = "(pcbs s)(?c := (pcbs s ?c)\<lparr>p_sched_ksp := cpu_esp s, p_sched_kbp := cpu_ebp s\<rparr>)"
  let ?f = "process_frame (of_nat (hd (st (unat u))))"
  have p: "proc_num (?p a) = proc_num (pcbs s a)" "pcb_base (?p a) = pcb_base (pcbs s a)" for a by simp_all
  note n = dispatched_pcb [OF d u]
  have small: "(ucast (of_nat k :: u8) :: u32) = of_nat k" if "k < 7" for k :: nat using slot_cases [OF that] by auto
  have eq: "s' = (install_frame ?f (s\<lparr>pcbs := ?p, curr_active_term := u\<rparr>))\<lparr>tss_esp0 := esp0_of (of_nat (hd (st (unat u)))),
      cpu_esp := p_sched_ksp (?p ?n), cpu_ebp := p_sched_kbp (?p ?n)\<rparr>"
    unfolding s' resume_sched_def save_sched_def set_pcb_def set_running_proc_def switch_pd_eq Let_def prod.case
    using n small [OF dd(5) [OF u]] by (simp add: install_frame_keeps p del: fun_upd_apply)
  show r: "running s' = unat u" by (simp add: eq running_def) (simp add: install_frame_def load_cr3_def set_pde_def Let_def)
  have v: "proc_view s' = proc_view (s\<lparr>curr_active_term := u\<rparr>)" by (simp add: s' resume_sched_view) (simp add: proc_view_def save_sched_def set_pcb_def fun_eq_iff)
  then have c: "curr_proc s' = curr_proc s" by (simp add: proc_view_def)
  show "dispatched s' st"
    using procs_cong [OF v] procs_running [OF dd(1) u] d by (simp add: dispatched_def r) (simp add: eq)
  have sv: "saved_frames (s\<lparr>pcbs := q, curr_active_term := u\<rparr>) = saved_frames s" for q
    by (simp add: saved_frames_def split: option.split)
  show "context_of s' t = context_of s t" if t: "t < 3"
  proof -
    have pc: "pcbs s' = ?p" "cpu_esp s' = p_sched_ksp (?p ?n)" "cpu_ebp s' = p_sched_kbp (?p ?n)" "frames s' = saved_frames s"
      "in_window a \<Longrightarrow> mem s' a = saved_frames s ?f (a - user_base)" for a
      by (simp_all add: eq install_frame_keeps sv)
    note [simp del] = fun_upd_apply
    have own: "context_of s (running s) = \<lparr>ctx_esp = p_sched_ksp (?p ?c), ctx_ebp = p_sched_kbp (?p ?c),
        ctx_user = user_part (saved_frames s (process_frame (of_nat (hd (st (running s))))))\<rparr>"
      by (simp add: context_of_def saved_frames_def dd(3) fun_upd_apply)
    have oth: "context_of s v = \<lparr>ctx_esp = p_sched_ksp (?p (curr_proc s v)), ctx_ebp = p_sched_kbp (?p (curr_proc s v)),
        ctx_user = user_part (saved_frames s (process_frame (of_nat (hd (st v)))))\<rparr>" if "v < 3" for v
    proof (cases "v = running s")
      case True then show ?thesis using own by simp
    next
      case False
      note ap = dispatched_apart [OF d that dd(2) False]
      show ?thesis
        using False ap(2,3) dispatched_pcb(4) [OF d that] by (simp add: context_of_def Let_def saved_frames_def dd(3) fun_upd_apply)
    qed
    show ?thesis
    proof (cases "t = unat u")
      case True
      then show ?thesis
        using oth [OF t] by (simp add: context_of_def r pc) (auto simp: user_part_def window_addr pc(5))
    next
      case False
      have "pcb_base (?p a) = pcb_base (pcbs s a)" for a by (simp add: fun_upd_apply)
      then show ?thesis
        using oth [OF t] False dispatched_pcb(4) [OF d t] by (simp add: context_of_def r pc c Let_def)
    qed
  qed
  show "tss_esp0 s' = esp0_of (of_nat (hd (st (unat u))))" by (simp add: eq)
qed

section \<open>The timer and the function keys\<close>

lemma sched_frame_refl: "sched_frame s s"
  by (simp add: sched_frame_def)

lemma sched_frame_trans [trans]: "sched_frame s t \<Longrightarrow> sched_frame t u \<Longrightarrow> sched_frame s u"
  by (simp add: sched_frame_def)

lemma sched_frame_eoi: "sched_frame s (restore_flags b (send_eoi irq s))" "sched_frame s (send_eoi irq s)"
  using send_eoi_ports [of irq s] by (auto simp: sched_frame_def slot_view_def proc_view_def restore_flags_def)

lemma switched_window:
  assumes "dest < 3" "src < 3" "in_window a"
  shows "switched dest src m a = m a"
proof -
  have u: "unat dest < 3" "unat src < 3" using assms by (simp_all add: word_less_nat_alt)
  have w: "134217728 \<le> unat a" using assms(3) by (simp add: in_window_dir drop_bit_eq_div unat_div)
  have t: "a \<notin> rng (term_vid_mem k) 4096" if "k < 3" for k
    using w terminal_index [OF that] by (subst in_rng_interval) (auto simp: term_vid_mem_def)
  have v: "a \<notin> rng VIDEO 4096" using w by (subst in_rng_interval) (simp_all add: VIDEO_def)
  moreover have "rng VIDEO 4000 \<subseteq> rng VIDEO 4096" by (rule rng_mono) simp
  ultimately have "a \<notin> rng VIDEO 4000" by blast
  then have "recoloured c 2000 m' a = m' a" for c m'
    using recoloured_cells(3) [OF order_refl, of m' c] by (simp add: off_screen_same_def del: in_rng)
  with v t [OF u(2)] show ?thesis by (simp add: switched_def Let_def store_bytes_outside del: in_rng)
qed

lemma update_screen_sched:
  assumes "dest < 3" "src < 3"
  shows "sched_frame s (update_screen dest src s)"
  using sched_slot_view [OF sched.V_update_screen [of dest src s]]
  by (simp add: sched_frame_def) (simp add: update_screen_eq switched_window assms)

lemma unat_wide: "unat (ucast (b :: u8) :: u32) = unat b"
proof -
  have "unat b < 256" using unsigned_less [of b] by simp
  then show ?thesis by (simp add: unsigned_ucast_eq take_bit_eq_mod)
qed

lemma timer_dispatches:
  assumes d: "dispatched s st" and "first_program_run s \<noteq> 0"
  shows "\<exists>s'. pit_handle_interrupt True env s = Some (Resume_stack s') \<and> running s' = (running s + 1) mod 3 \<and>
    dispatched s' st \<and> (\<forall>t<3. context_of s' t = context_of s t) \<and> tss_esp0 s' = esp0_of (of_nat (hd (st (running s'))))"
proof -
  define s1 where "s1 = send_eoi 0 s"
  have f: "sched_frame s s1" using sched_frame_eoi(2) by (simp add: s1_def)
  note k = sched_frame_context [OF f]
  have d1: "dispatched s1 st" using d by (simp add: k)
  have r: "running s < 3" by (rule dispatchedD(2) [OF d])
  have nx: "unat (get_next_running_term_proc s1) = (running s + 1) mod 3"
    and ne: "curr_active_term s1 \<noteq> get_next_running_term_proc s1"
  proof -
    have "unat (curr_active_term s1) = running s" using k(3) by (simp add: running_def)
    moreover have "of_nat (unat (curr_active_term s1)) = curr_active_term s1" by simp
    ultimately have "curr_active_term s1 = of_nat (running s)" by (simp only:)
    then show "unat (get_next_running_term_proc s1) = (running s + 1) mod 3" "curr_active_term s1 \<noteq> get_next_running_term_proc s1"
      using terminal_index [OF r] by (auto simp: get_next_running_term_proc_def)
  qed
  have run1: "unat (curr_active_term s1) = running s1" by (simp add: running_def)
  let ?n = "get_next_running_term_proc s1"
  have u: "unat ?n < 3" by (simp add: nx)
  have fr: "first_prog_run s1 \<noteq> 0" using assms(2) send_eoi_ports [of 0 s] by (auto simp: s1_def first_prog_run_def)
  define s' where "s' = resume_sched ?n (curr_proc s1 (unat ?n)) (save_sched (curr_proc s1 (running s1)) s1)"
  note n0 = dispatched_pcb(2) [OF d1 dispatchedD(2) [OF d1]] dispatched_pcb(2) [OF d1 u]
  have "pit_handle_interrupt True env s = Some (Resume_stack s')"
    using fr ne n0 by (simp add: pit_handle_interrupt_def s1_def [symmetric] Let_def get_curr_running_term_proc_def get_pcb_def run1 unat_wide s'_def)
  with resume_keeps_contexts [OF d1 u s'_def] k(1) nx show ?thesis by simp
qed

text \<open>
  Once the shells of all terminals have been started, the terminal on the screen is the running
  one, and a function key passes the processor on.
\<close>

definition shown :: "'a kernel_scheme \<Rightarrow> bool" where
  "shown s \<longleftrightarrow> active_terminal s = curr_active_term s \<and> second_term_start s \<noteq> 0 \<and> third_term_start s \<noteq> 0"

lemma shown_cong: "sched_view s' = sched_view s \<Longrightarrow> shown s' = shown s"
  by (simp add: shown_def sched_view_def slot_view_def proc_view_def)

lemma switch_terminal_dispatches:
  assumes d: "dispatched s st" and sh: "shown s" and u3: "unat u < 3"
  shows "\<exists>s'. switch_terminal (context_switch env) u flags s = Some (Resume_stack s') \<and> running s' = unat u \<and> shown s' \<and>
    dispatched s' st \<and> (\<forall>t<3. context_of s' t = context_of s t) \<and> tss_esp0 s' = esp0_of (of_nat (hd (st (unat u)))) \<and>
    port_in s' = port_in s \<and> in_count s' = in_count s \<and> special_key_enabled s' = special_key_enabled s"
proof -
  have a: "active_terminal s < 3" "unat (active_terminal s) = running s" and u: "u < 3"
    using dispatchedD(2) [OF d] sh u3 by (simp_all add: shown_def running_def word_less_nat_alt)
  define s2 where "s2 = (update_screen u (active_terminal s) s)\<lparr>prev_terminal := active_terminal s, active_terminal := u\<rparr>"
  define s3 where "s3 = restore_flags flags (send_eoi 1 s2)"
  have at: "active_terminal (update_screen u (active_terminal s) s) = active_terminal s"
    by (simp add: update_screen_eq [OF u a(1)])
  have fields: "prev_terminal s2 = active_terminal s" "active_terminal s2 = u" "second_term_start s2 \<noteq> 0" "third_term_start s2 \<noteq> 0"
    "port_in s2 = port_in s" "in_count s2 = in_count s" "special_key_enabled s2 = special_key_enabled s"
    using sh update_screen_eq [OF u a(1), of s] by (simp_all add: s2_def) (simp_all add: shown_def)
  have f: "prev_terminal s3 = active_terminal s" "active_terminal s3 = u" "second_term_start s3 \<noteq> 0" "third_term_start s3 \<noteq> 0"
    "port_in s3 = port_in s" "in_count s3 = in_count s" "special_key_enabled s3 = special_key_enabled s"
    using send_eoi_ports [of 1 s2] fields by (auto simp: s3_def restore_flags_def)
  have "sched_frame s s2" using update_screen_sched [OF u a(1), of s] by (simp add: s2_def sched_frame_def slot_view_def proc_view_def)
  then have fr: "sched_frame s s3" unfolding s3_def using sched_frame_eoi(1) sched_frame_trans by blast
  note k = sched_frame_context [OF fr]
  have d3: "dispatched s3 st" using d by (simp add: k)
  define s' where "s' = resume_sched u (curr_proc s3 (unat u)) (save_sched (curr_proc s3 (running s3)) s3)"
  note n0 = dispatched_pcb(2) [OF d3 dispatchedD(2) [OF d3]] dispatched_pcb(2) [OF d3 u3]
  have "context_switch env (active_terminal s) u s3 = Some (Resume_stack s')"
    using f(3,4) n0 a(2) k(3) by (simp add: context_switch_def SCHED_ENABLED_def get_second_term_start_def get_third_term_start_def
        get_pcb_def unat_wide s'_def Let_def)
  then have sw: "switch_terminal (context_switch env) u flags s = Some (Resume_stack s')"
    using f by (simp add: switch_terminal_def Let_def at s2_def [symmetric] s3_def [symmetric])
  note rk = resume_keeps_contexts [OF d3 u3 s'_def]
  have "active_terminal s' = u" "second_term_start s' \<noteq> 0" "third_term_start s' \<noteq> 0"
    and dev: "port_in s' = port_in s" "in_count s' = in_count s" "special_key_enabled s' = special_key_enabled s"
    using f by (simp_all add: s'_def resume_sched_def save_sched_def set_pcb_def set_running_proc_def switch_pd_eq install_frame_def
        load_cr3_def set_pde_def Let_def)
  moreover have "curr_active_term s' = u"
    using rk(2) by (simp only: running_def unsigned_word_eqI)
  ultimately have "shown s'" by (simp add: shown_def)
  with sw rk k(1) dev show ?thesis by auto
qed

lemma fkey_codes:
  "u < 3 \<Longrightarrow> code_to_ascii ! unat (0x3B + of_nat u :: u8) = ASCII_PLACEHOLDER"
  "u < 3 \<Longrightarrow> (0x3B + of_nat u :: u8) < 0x59"
proof -
  have "\<forall>u\<in>set [0..<3]. code_to_ascii ! unat (0x3B + of_nat u :: u8) = ASCII_PLACEHOLDER \<and> (0x3B + of_nat u :: u8) < 0x59" by code_simp
  then show "u < 3 \<Longrightarrow> code_to_ascii ! unat (0x3B + of_nat u :: u8) = ASCII_PLACEHOLDER"
    "u < 3 \<Longrightarrow> (0x3B + of_nat u :: u8) < 0x59" by simp_all
qed

lemma key_control_fkey: "u < 3 \<Longrightarrow> key_control cs (0x3B + of_nat u) flags s = switch_terminal cs (of_nat u) flags s"
  by (drule terminal_index, elim insertE emptyE) (simp_all add: key_control_def)

lemma fkey_dispatches:
  assumes d: "dispatched s st" and sh: "shown s"
    and key: "port_in s (in_count s) KEYBOARD_D_PORT = 0x3B + of_nat u" "u < 3" "\<not> special_key_enabled s"
  shows "\<exists>s'. keyboard_irq env s = Some (Resume_stack s') \<and> running s' = u \<and> shown s' \<and>
    dispatched s' st \<and> (\<forall>t<3. context_of s' t = context_of s t) \<and> tss_esp0 s' = esp0_of (of_nat (hd (st u))) \<and>
    port_in s' = port_in s \<and> in_count s' = Suc (in_count s) \<and> \<not> special_key_enabled s'"
proof -
  define s1 where "s1 = s\<lparr>int_flag := False, in_count := Suc (in_count s)\<rparr>"
  have f1: "sched_frame s s1" by (simp add: sched_frame_def s1_def slot_view_def proc_view_def)
  note k = sched_frame_context [OF f1]
  have u: "unat (of_nat u :: u8) = u" using terminal_index [OF key(2)] by auto
  have sp: "\<not> special_key_enabled s1" using key(3) by (simp add: s1_def)
  have "dispatched s1 st" "shown s1" using d sh by (simp_all add: k) (simp add: s1_def shown_def)
  from switch_terminal_dispatches [OF this, of "of_nat u" env "int_flag s"] u key(2)
  obtain s' where s': "switch_terminal (context_switch env) (of_nat u) (int_flag s) s1 = Some (Resume_stack s')"
    "running s' = u \<and> shown s' \<and> dispatched s' st \<and> (\<forall>t<3. context_of s' t = context_of s1 t) \<and>
      tss_esp0 s' = esp0_of (of_nat (hd (st u)))" "port_in s' = port_in s1" "in_count s' = in_count s1" "\<not> special_key_enabled s'"
    using sp by auto
  have "keyboard_irq env s = Some (Resume_stack s')"
    using key fkey_codes [OF key(2)] s'(1) sp
    by (simp add: keyboard_irq_def handle_keypress_def cli_and_save_def inb_def Let_def s1_def [symmetric] key_control_fkey)
  with s'(2-5) k(1) show ?thesis by (auto simp: s1_def)
qed

section \<open>A turn of the running terminal\<close>

text \<open>What the running terminal does to itself: its stack of processes and its context change, the others' contexts stay.\<close>

definition own_turn :: "(nat \<Rightarrow> nat list) \<Rightarrow> 'a kernel_scheme \<Rightarrow> 'a kernel_scheme \<Rightarrow> bool" where
  "own_turn st s s' \<longleftrightarrow> (\<exists>st'. stack_step\<^sup>*\<^sup>* st st' \<and> dispatched s' st') \<and> running s' = running s
     \<and> (\<forall>t<3. t \<noteq> running s \<longrightarrow> context_of s' t = context_of s t)"

definition shown_view where
  "shown_view s = (active_terminal s, second_term_start s, third_term_start s, curr_active_term s)"

lemma own_turn_view: "slot_view s' = slot_view s \<Longrightarrow> dispatched s st \<Longrightarrow> own_turn st s s'"
  using slot_view_keeps [of s' s] slot_view_fields(2) [of s' s] by (auto simp: own_turn_def)

text \<open>The fields of the others are not touched by the start of a process in a free slot, nor by its end.\<close>

lemma copy_slot_view: "copy_file_to_addr f a s = Some (r, s') \<Longrightarrow> sched_view s' = sched_view s"
  by (rule sched.copy_file_keeps)

lemma saved_frames_other: "window s \<noteq> Some g \<Longrightarrow> saved_frames s g = frames s g"
  by (auto simp: saved_frames_def split: option.split)

lemma install_frame_shown: "shown_view (install_frame f s) = shown_view s"
  by (simp add: shown_view_def install_frame_def load_cr3_def set_pde_def Let_def)

lemma start_process_others:
  assumes "start_process env f e n flags s = Some r"
  shows "\<exists>s'. r = Enter_user e s' \<and> window s' = Some (process_frame n) \<and> (\<forall>g. window s \<noteq> Some g \<longrightarrow> frames s' g = frames s g) \<and> shown_view s' = shown_view s \<and>
    (\<forall>a. a \<noteq> pcb_addr n \<longrightarrow> p_sched_ksp (pcbs s' a) = p_sched_ksp (pcbs s a) \<and> p_sched_kbp (pcbs s' a) = p_sched_kbp (pcbs s a))"
proof -
  define s1 where "s1 = install_frame (process_frame n) s"
  have s1: "window s1 = Some (process_frame n)" "frames s1 = saved_frames s" "pcbs s1 = pcbs s" "shown_view s1 = shown_view s"
    by (simp_all add: s1_def install_frame_keeps install_frame_shown)
  obtain v s2 where s2: "copy_file_to_addr f PROGRAM_EXEC_ADDR s1 = Some (v, s2)"
    using assms by (auto simp: start_process_def init_new_process_eq s1_def [symmetric] bind_eq_Some_conv)
  have v: "sched_view s2 = sched_view s1" by (rule copy_slot_view [OF s2])
  note w = slot_view_fields [OF sched_slot_view [OF v]]
  have "shown_view s2 = shown_view s1" using v w(1) by (simp add: shown_view_def sched_view_def proc_view_def)
  then have k: "window s2 = Some (process_frame n)" "frames s2 = saved_frames s" "shown_view s2 = shown_view s"
    "p_sched_ksp (pcbs s2 a) = p_sched_ksp (pcbs s a)" "p_sched_kbp (pcbs s2 a) = p_sched_kbp (pcbs s a)" for a
    using w(4-7) by (simp_all add: s1)
  note sh = k(3) [unfolded shown_view_def prod.inject]
  show ?thesis
    using assms s2
    by (simp add: start_process_def init_new_process_eq s1_def [symmetric] bind_eq_Some_conv Let_def jmp_usr_exec_def)
      (erule exE, auto simp: set_pcb_def restore_flags_def cli_def sti_def k shown_view_def running_def saved_frames_other sh)
qed

lemma close_files_sched: "close_files env is s = Some s' \<Longrightarrow> sched_view s' = sched_view s"
  by (induction "is" arbitrary: s) (auto simp: bind_eq_Some_conv dest!: sched.sys_close_keeps)

lemma leave_process_others:
  assumes "leave_process env status flags s = Some r"
  shows "\<exists>s'. r = Resume_stack s' \<and> (\<forall>g. window s \<noteq> Some g \<longrightarrow> frames s' g = frames s g) \<and> shown_view s' = shown_view s \<and>
    (\<forall>a. p_sched_ksp (pcbs s' a) = p_sched_ksp (pcbs s a) \<and> p_sched_kbp (pcbs s' a) = p_sched_kbp (pcbs s a) \<and>
      pcb_base (pcbs s' a) = pcb_base (pcbs s a)) \<and> (\<forall>t. t \<noteq> running s \<longrightarrow> curr_proc s' t = curr_proc s t)"
proof -
  let ?a = "curr_proc s (running s)"
  define s2 where "s2 = set_pcb ?a (set_fd 1 (\<lambda>f. f\<lparr>operations_pointer := None, fd_inode := 0, fd_flags := 0\<rparr>))
    (set_pcb ?a (set_fd 0 (\<lambda>f. f\<lparr>operations_pointer := None, fd_flags := 0\<rparr>))
      (s\<lparr>g_status := ucast status, curr_proc_id_mask := curr_proc_id_mask (s\<lparr>g_status := ucast status\<rparr>) XOR
          ucast (drop_bit (unat (proc_num (pcbs s ?a))) PROGRAM_LOCATION_MASK)\<rparr>))"
  note lv = assms [unfolded leave_process_def Let_def, folded s2_def]
  have s2: "frames s2 = frames s" "window s2 = window s" "mem s2 = mem s" "shown_view s2 = shown_view s" "curr_proc s2 = curr_proc s" "running s2 = running s"
    "p_sched_ksp (pcbs s2 a) = p_sched_ksp (pcbs s a)" "p_sched_kbp (pcbs s2 a) = p_sched_kbp (pcbs s a)"
    "pcb_base (pcbs s2 a) = pcb_base (pcbs s a)" for a
    by (simp_all add: s2_def set_pcb_def set_fd_def shown_view_def running_def)
  obtain s3 where s3: "close_files env [2..<8] s2 = Some s3" using lv by blast
  have v: "sched_view s3 = sched_view s2" by (rule close_files_sched [OF s3])
  note w = slot_view_fields [OF sched_slot_view [OF v]]
  have "shown_view s3 = shown_view s2" using v w(1) by (simp add: shown_view_def sched_view_def proc_view_def)
  then have k: "window s3 = window s" "frames s3 = frames s" "shown_view s3 = shown_view s" "curr_proc s3 = curr_proc s" "running s3 = running s"
    "p_sched_ksp (pcbs s3 a) = p_sched_ksp (pcbs s a)" "p_sched_kbp (pcbs s3 a) = p_sched_kbp (pcbs s a)"
    "pcb_base (pcbs s3 a) = pcb_base (pcbs s a)" for a
    using w by (simp_all add: s2)
  have fr: "frames (install_frame f s3) g = frames s g" if "window s \<noteq> Some g" for f g
    using that by (simp add: saved_frames_other k)
  have "shown_view (install_frame f s3) = shown_view s" for f by (simp add: install_frame_shown k)
  note i = this [unfolded shown_view_def prod.inject]
  show ?thesis
    using lv s3 by (auto simp: switch_pd_eq restore_flags_def install_frame_keeps k fr i shown_view_def simp del: install_frame_simps)
qed

lemma others_context:
  assumes d: "dispatched s st" and run: "running s' = running s"
    and fr: "\<And>g. window s \<noteq> Some g \<Longrightarrow> frames s' g = frames s g"
    and others: "\<And>t. t < 3 \<Longrightarrow> t \<noteq> running s \<Longrightarrow> curr_proc s' t = curr_proc s t
      \<and> p_sched_ksp (pcbs s' (curr_proc s t)) = p_sched_ksp (pcbs s (curr_proc s t))
      \<and> p_sched_kbp (pcbs s' (curr_proc s t)) = p_sched_kbp (pcbs s (curr_proc s t))
      \<and> pcb_base (pcbs s' (curr_proc s t)) = pcb_base (pcbs s (curr_proc s t))"
    and t: "t < 3" "t \<noteq> running s"
  shows "context_of s' t = context_of s t"
proof -
  have "window s \<noteq> Some (process_frame (of_nat (hd (st t))))"
    using dispatchedD(3) [OF d] dispatched_apart(2) [OF d t(1) dispatchedD(2) [OF d] t(2)] by auto
  from fr [OF this] dispatched_pcb(4) [OF d t(1)] others [OF t] t(2) run show ?thesis
    by (simp add: context_of_def Let_def)
qed

lemma execute_turn:
  assumes d: "dispatched s st" and ex: "execute env command s = Some r"
  shows "own_turn st s (flow_state r) \<and> shown_view (flow_state r) = shown_view s"
  using ex
proof (cases rule: sched.execute_cases)
  case (returns v s')
  note v = sched_slot_view [OF returns(2)]
  have "shown_view s' = shown_view s"
    using returns(2) slot_view_fields(1) [OF v] by (simp add: shown_view_def sched_view_def proc_view_def)
  then show ?thesis using own_turn_view [OF v d] returns(1) by simp
next
  case (starts f e s0 i tm)
  note v = sched_slot_view [OF starts(1)]
  note w = slot_view_fields [OF v]
  have d0: "dispatched s0 st" using slot_view_keeps(1) [OF v] d by simp
  note inv = dispatchedD(1) [OF d0]
  note nx = find_slot_next [OF inv starts(2)]
  let ?s1 = "s0\<lparr>curr_proc_id_mask := curr_proc_id_mask s0 OR ucast tm\<rparr>"
  obtain s' where s': "r = Enter_user e s'" "procs s' (push_proc (running s0) i st)" "running s' = running s0"
    using procs_push [OF inv starts(3) nx(2-4)] by blast
  from start_process_others [OF starts(3)] s'(1)
  have o: "window s' = Some (process_frame (of_nat i))" "\<And>g. window s0 \<noteq> Some g \<Longrightarrow> frames s' g = frames s0 g"
    "shown_view s' = shown_view s0" "\<And>a. a \<noteq> pcb_addr (of_nat i) \<Longrightarrow> p_sched_ksp (pcbs s' a) = p_sched_ksp (pcbs s0 a)"
    "\<And>a. a \<noteq> pcb_addr (of_nat i) \<Longrightarrow> p_sched_kbp (pcbs s' a) = p_sched_kbp (pcbs s0 a)"
    by (auto simp: shown_view_def)
  from start_process_view [OF starts(3)] s'(1)
  have p: "curr_proc s' = (curr_proc s0)(running s0 := pcb_addr (of_nat i))"
    "a \<noteq> pcb_addr (of_nat i) \<Longrightarrow> pcb_base (pcbs s' a) = pcb_base (pcbs s0 a)" for a
    by (auto simp: running_def pcb_view_def fun_eq_iff split: if_splits)
  have r: "running s0 < 3" by (rule dispatchedD(2) [OF d0])
  have "dispatched s' (push_proc (running s0) i st)"
    using s' d0 o(1) by (auto simp: dispatched_def push_proc_def)
  moreover have "stack_step st (push_proc (running s0) i st)" by (rule stack_step.start [OF r nx(1)])
  moreover have "context_of s' t = context_of s0 t" if t: "t < 3" "t \<noteq> running s0" for t
  proof (rule others_context [OF d0 s'(3) o(2) _ t])
    fix u assume u: "u < 3" "u \<noteq> running s0"
    have "hd (st u) \<in> set (all_procs st)" using dispatchedD(4) [OF d0 u(1)] in_all_procs [OF u(1), of st]
      by (metis list.set_intros(1) subset_iff)
    then have "hd (st u) \<noteq> i" using nx(3) by auto
    then have "curr_proc s0 u \<noteq> pcb_addr (of_nat i)"
      using pcb_addr_inj [OF dispatchedD(5) [OF d0 u(1)] nx(2)] dispatched_pcb(1) [OF d0 u(1)] by simp
    then show "curr_proc s' u = curr_proc s0 u \<and> p_sched_ksp (pcbs s' (curr_proc s0 u)) = p_sched_ksp (pcbs s0 (curr_proc s0 u))
      \<and> p_sched_kbp (pcbs s' (curr_proc s0 u)) = p_sched_kbp (pcbs s0 (curr_proc s0 u))
      \<and> pcb_base (pcbs s' (curr_proc s0 u)) = pcb_base (pcbs s0 (curr_proc s0 u))"
      using p o(4,5) u(2) by simp
  qed
  moreover have "context_of s0 t = context_of s t" if "t \<noteq> running s" for t by (rule slot_view_keeps(2) [OF v that])
  moreover have "shown_view s0 = shown_view s" using starts(1) w(1) by (simp add: shown_view_def sched_view_def proc_view_def)
  ultimately show ?thesis using s'(1,3) o(3) w(2) by (auto simp: own_turn_def)
qed

lemma halt_turn:
  assumes d: "dispatched s st" and h: "halt env status s = Some r"
  shows "own_turn st s (flow_state r) \<and> shown_view (flow_state r) = shown_view s"
proof -
  define s0 where "s0 = s\<lparr>int_flag := False\<rparr>"
  have f0: "sched_view s0 = sched_view s" by (simp add: s0_def)
  note v = sched_slot_view [OF f0]
  have d0: "dispatched s0 st" using slot_view_keeps(1) [OF v] d by simp
  have sh: "shown_view s0 = shown_view s" by (simp add: s0_def shown_view_def)
  have run: "running s0 = running s" by (simp add: s0_def running_def)
  show ?thesis
  proof (cases "prev_proc s0 (running s0) = 0")
    case True
    then have "restart_shell env (int_flag s) s0 = Some r"
      using h by (auto simp: halt_def cli_and_save_def Let_def s0_def [symmetric] split: if_splits)
    from sched.restart_shell_keeps(1) [OF this] have k: "sched_view (flow_state r) = sched_view s" using f0 by simp
    then have "shown_view (flow_state r) = shown_view s"
      using slot_view_fields(1) [OF sched_slot_view [OF k]] by (simp add: shown_view_def sched_view_def proc_view_def)
    then show ?thesis using own_turn_view [OF sched_slot_view [OF k] d] by simp
  next
    case False
    then have leave: "leave_process env status (int_flag s) s0 = Some r"
      using h by (auto simp: halt_def cli_and_save_def Let_def s0_def [symmetric] split: if_splits)
    note inv = dispatchedD(1) [OF d0]
    have r: "running s0 < 3" by (rule dispatchedD(2) [OF d0])
    have "tl (st (running s0)) \<noteq> []" using False procs_fields(2) [OF inv r] by (auto simp: head_addr_def)
    then obtain i j js where st: "st (running s0) = i # j # js"
      using dispatchedD(4) [OF d0 r] by (cases "st (running s0)"; cases "tl (st (running s0))") auto
    from leave_process_halted [OF inv leave st] obtain s' where s': "r = Resume_stack s'" "procs s' (pop_proc (running s0) st)"
      "running s' = running s0" "window s' = Some (process_frame (of_nat j))" by blast
    from leave_process_others [OF leave] s'(1)
    have o: "\<And>g. window s0 \<noteq> Some g \<Longrightarrow> frames s' g = frames s0 g" "shown_view s' = shown_view s0"
      "\<And>a. p_sched_ksp (pcbs s' a) = p_sched_ksp (pcbs s0 a) \<and> p_sched_kbp (pcbs s' a) = p_sched_kbp (pcbs s0 a) \<and>
        pcb_base (pcbs s' a) = pcb_base (pcbs s0 a)" "\<And>t. t \<noteq> running s0 \<Longrightarrow> curr_proc s' t = curr_proc s0 t"
      by auto
    have "dispatched s' (pop_proc (running s0) st)"
      using s' d0 st by (auto simp: dispatched_def pop_proc_def)
    moreover have "stack_step st (pop_proc (running s0) st)" by (rule stack_step.stop [OF r]) (simp add: st)
    moreover have "context_of s' t = context_of s t" if t: "t < 3" "t \<noteq> running s" for t
    proof -
      have "context_of s' t = context_of s0 t" by (rule others_context [OF d0 s'(3) o(1)]) (use o t run in auto)
      then show ?thesis using slot_view_keeps(2) [OF v t(2)] by simp
    qed
    ultimately show ?thesis using s'(1,3) o(2) sh run by (auto simp: own_turn_def)
  qed
qed

section \<open>Every step is a turn or passes it\<close>

lemma shown_view_shown: "shown_view s' = shown_view s \<Longrightarrow> shown s' = shown s"
  by (simp add: shown_def shown_view_def)

lemma sched_shown_view: "sched_view s' = sched_view s \<Longrightarrow> shown_view s' = shown_view s"
  by (simp add: shown_view_def sched_view_def slot_view_def proc_view_def)

lemma own_turn_trans:
  assumes "own_turn st s u" and "\<And>st'. dispatched u st' \<Longrightarrow> own_turn st' u w"
  shows "own_turn st s w"
proof -
  obtain st' where "stack_step\<^sup>*\<^sup>* st st'" "dispatched u st'" using assms(1) by (auto simp: own_turn_def)
  with assms(1) assms(2) [OF this(2)] show ?thesis by (auto simp: own_turn_def intro: rtranclp_trans)
qed

text \<open>
  A step with the manual switch is a turn of the running terminal, which may then pass the
  processor on. \<open>R\<close> is what the interrupts keep while a call waits.
\<close>

lemma sys_step_turns:
  assumes step: "sys_step False env s s'" and d: "dispatched s st" and sh: "shown s"
    and own: "\<And>u. own_turn st s u \<Longrightarrow> shown u \<Longrightarrow> P u"
    and pass: "\<And>u w st'. own_turn st s u \<Longrightarrow> stack_step\<^sup>*\<^sup>* st st' \<Longrightarrow> dispatched w st' \<Longrightarrow> shown w \<Longrightarrow>
      (\<forall>t<3. context_of w t = context_of u t) \<Longrightarrow> P w"
    and wait: "R s" "\<And>u u'. sched_view u' = sched_view u \<Longrightarrow> R u \<Longrightarrow> R u'"
      "\<And>n u u'. irqs env n u = Some u' \<Longrightarrow> R u \<Longrightarrow> R u'" "\<And>u. R u \<Longrightarrow> P u"
  shows "P s'"
proof -
  let ?I = "\<lambda>u. own_turn st s u \<and> shown u"
  have cong: "?I u" if "sched_view u = sched_view w" "?I w" for u w
    using that own_turn_trans [of st s w u] own_turn_view [OF sched_slot_view [OF that(1)]] shown_view_shown [OF sched_shown_view [OF that(1)]]
    by blast
  have "?I s" using sh own_turn_view [OF refl d] by simp
  then have same: "P u" if "sched_view u = sched_view s" for u using cong [OF that] own by blast
  have ret: "?I u \<Longrightarrow> P u" for u using own by blast
  have h: "leaves ?I (halt env v u)" if "?I u" for v u
    unfolding leaves_def
  proof (intro allI impI)
    fix r assume r: "halt env v u = Some r"
    have "own_turn st' u (flow_state r) \<and> shown_view (flow_state r) = shown_view u" if "dispatched u st'" for st'
      by (rule halt_turn [OF that r])
    with \<open>?I u\<close> show "?I (flow_state r)" using own_turn_trans shown_view_shown by (metis own_turn_def)
  qed
  have sw: "ends ?I P (switch_terminal (context_switch env) d f u)" if dest: "unat d < 3" and I: "?I u" for d f u
  proof -
    obtain st' where "stack_step\<^sup>*\<^sup>* st st'" "dispatched u st'" using I by (auto simp: own_turn_def)
    from switch_terminal_dispatches [OF this(2) _ dest, of env f] I pass [OF _ this(1)] show ?thesis
      by (auto simp: ends_simps)
  qed
  have key: "ends ?I P (keyboard_irq env s)"
    unfolding keyboard_irq_def
  proof (rule sched.handle_keypress_ends [where I = ?I, OF cong \<open>?I s\<close> _ sw])
    show "ends ?I P (halt env v u)" if "?I u" for v u
      using h [OF that, of v] ret by (cases "halt env v u") (auto simp: leaves_def ends_def split: flow.split)
  qed
  from step show ?thesis
  proof cases
    case (reads fd buf n v)
    have q: "(\<exists>t :: 'a kernel_scheme. sched_view t = sched_view u \<and> R t) \<longleftrightarrow> R u" for u :: "'a kernel_scheme"
      using wait(2) by metis
    have "R s'"
      using sched.sys_read_keeps [where Q = "\<lambda>v. \<exists>t :: 'a kernel_scheme. sched_view t = v \<and> R t" and s = s and s' = s' and env = env,
          unfolded q, OF reads wait(1) wait(3)] .
    then show ?thesis by (rule wait(4))
  next
    case (exec command r)
    then show ?thesis using execute_turn [OF d] own sh shown_view_shown by blast
  next
    case (exits status r)
    then show ?thesis using halt_turn [OF d] own sh shown_view_shown by blast
  next
    case (keyboard r)
    then show ?thesis using key ret by (cases r) (auto simp: ends_simps)
  next
    case (timer r)
    then show ?thesis using same by (auto simp: pit_handle_interrupt_def Let_def)
  qed (auto intro!: same dest: sched.sys_write_keeps sched.sys_open_keeps sched.sys_close_keeps sched.getargs_keeps sched.rtc_interrupt_keeps
      simp: sched.vidmap_keeps)
qed

section \<open>The abstract machine\<close>

text \<open>
  Three processors, of which one works at a time: it changes its own context, or passes the turn.
\<close>

inductive turn :: "nat \<times> (nat \<rightharpoonup> ctx) \<Rightarrow> nat \<times> (nat \<rightharpoonup> ctx) \<Rightarrow> bool" where
  work: "turn (t, c) (t, c(t \<mapsto> x))"
| pass: "u < 3 \<Longrightarrow> turn (t, c) (u, c)"

definition processors :: "'a kernel_scheme \<Rightarrow> nat \<times> (nat \<rightharpoonup> ctx)" where
  "processors s = (running s, \<lambda>t. if t < 3 then Some (context_of s t) else None)"

definition served :: "(nat \<Rightarrow> nat list) \<Rightarrow> 'a kernel_scheme \<Rightarrow> 'a kernel_scheme \<Rightarrow> bool" where
  "served st s u \<longleftrightarrow> (\<exists>st'. stack_step\<^sup>*\<^sup>* st st' \<and> dispatched u st') \<and> shown u \<and> turn\<^sup>*\<^sup>* (processors s) (processors u)"

lemma own_turn_turn:
  assumes "own_turn st s u" "running s < 3"
  shows "turn (processors s) (processors u)"
proof -
  have "processors u = (running s, (snd (processors s))(running s \<mapsto> context_of u (running s)))"
    using assms by (auto simp: processors_def own_turn_def fun_eq_iff)
  moreover have "processors s = (running s, snd (processors s))" by (simp add: processors_def)
  ultimately show ?thesis using turn.work by metis
qed

lemma pass_turn:
  assumes "\<forall>t<3. context_of w t = context_of u t" "running w < 3"
  shows "turn (processors u) (processors w)"
proof -
  have "snd (processors w) = snd (processors u)" using assms(1) by (auto simp: processors_def)
  then show ?thesis using turn.pass [OF assms(2)] by (simp add: processors_def)
qed

lemma served_own:
  assumes "stack_step\<^sup>*\<^sup>* st0 st" "dispatched s st" "turn\<^sup>*\<^sup>* (processors s0) (processors s)" "own_turn st s u" "shown u"
  shows "served st0 s0 u"
proof -
  obtain st' where "stack_step\<^sup>*\<^sup>* st st'" "dispatched u st'" using assms(4) by (auto simp: own_turn_def)
  moreover have "turn\<^sup>*\<^sup>* (processors s0) (processors u)"
    using own_turn_turn [OF assms(4) dispatchedD(2) [OF assms(2)]] assms(3) by (auto intro: rtranclp.rtrancl_into_rtrancl)
  ultimately show ?thesis using assms(1,5) by (auto simp: served_def intro: rtranclp_trans)
qed

lemma served_cong:
  assumes "sched_view u = sched_view s" "served st0 s0 s"
  shows "served st0 s0 u"
proof -
  obtain st where st: "stack_step\<^sup>*\<^sup>* st0 st" "dispatched s st" "shown s" "turn\<^sup>*\<^sup>* (processors s0) (processors s)"
    using assms(2) by (auto simp: served_def)
  from served_own [OF st(1,2,4) own_turn_view [OF sched_slot_view [OF assms(1)] st(2)]] st(3) shown_cong [OF assms(1)]
  show ?thesis by simp
qed

lemma served_step:
  assumes "served st0 s0 s" "sys_step False env s s'"
    and irq: "\<And>n u u'. irqs env n u = Some u' \<Longrightarrow> served st0 s0 u \<Longrightarrow> served st0 s0 u'"
  shows "served st0 s0 s'"
proof -
  obtain st where st: "stack_step\<^sup>*\<^sup>* st0 st" "dispatched s st" "shown s" "turn\<^sup>*\<^sup>* (processors s0) (processors s)"
    using assms(1) by (auto simp: served_def)
  show ?thesis
  proof (rule sys_step_turns [OF assms(2) st(2,3), where R = "served st0 s0"])
    show "served st0 s0 u" if "own_turn st s u" "shown u" for u by (rule served_own [OF st(1,2,4) that])
    show "served st0 s0 w" if u: "own_turn st s u" "stack_step\<^sup>*\<^sup>* st st'" "dispatched w st'" "shown w" "\<forall>t<3. context_of w t = context_of u t"
      for u w :: "'a kernel_scheme" and st'
    proof -
      note st(4)
      also have "turn (processors s) (processors u)" by (rule own_turn_turn [OF u(1) dispatchedD(2) [OF st(2)]])
      also have "turn (processors u) (processors w)" by (rule pass_turn [OF u(5) dispatchedD(2) [OF u(3)]])
      finally show ?thesis using u(2-4) st(1) by (auto simp: served_def intro: rtranclp_trans)
    qed
  qed (use assms(1) served_cong irq in blast)+
qed

lemma served_steps:
  assumes "(sys_step False env)\<^sup>*\<^sup>* s s'" "served st0 s0 s"
    and irq: "\<And>n u u'. irqs env n u = Some u' \<Longrightarrow> served st0 s0 u \<Longrightarrow> served st0 s0 u'"
  shows "served st0 s0 s'"
  using assms(1,2)
proof (induction rule: rtranclp_induct)
  case (step t u)
  from served_step [OF _ step(2) irq] step show ?case by simp
qed

text \<open>While a terminal waits for its turn, its context is not touched.\<close>

definition waits :: "nat \<Rightarrow> ctx \<Rightarrow> 'a kernel_scheme \<Rightarrow> bool" where
  "waits t c s \<longleftrightarrow> (\<exists>st. dispatched s st) \<and> shown s \<and> context_of s t = c"

lemma waits_step:
  assumes "waits t c s" "sys_step False env s s'" "t < 3" "running s \<noteq> t"
    and irq: "\<And>n u u'. irqs env n u = Some u' \<Longrightarrow> waits t c u \<Longrightarrow> running u \<noteq> t \<Longrightarrow> waits t c u' \<and> running u' \<noteq> t"
  shows "waits t c s'"
proof -
  obtain st where st: "dispatched s st" "shown s" "context_of s t = c" using assms(1) by (auto simp: waits_def)
  show ?thesis
  proof (rule sys_step_turns [OF assms(2) st(1,2), where R = "\<lambda>u. waits t c u \<and> running u \<noteq> t"])
    show "waits t c u" if "own_turn st s u" "shown u" for u using that assms(3,4) st(3) by (auto simp: waits_def own_turn_def)
    show "waits t c w" if "own_turn st s u" "stack_step\<^sup>*\<^sup>* st st'" "dispatched w st'" "shown w" "\<forall>t<3. context_of w t = context_of u t"
      for u w :: "'a kernel_scheme" and st' using that assms(3,4) st(3) by (auto simp: waits_def own_turn_def)
    show "waits t c u' \<and> running u' \<noteq> t" if "sched_view u' = sched_view u" "waits t c u \<and> running u \<noteq> t" for u u' :: "'a kernel_scheme"
      using that slot_view_keeps [OF sched_slot_view [OF that(1)]] slot_view_fields(2) [OF sched_slot_view [OF that(1)]] shown_cong [OF that(1)]
      by (auto simp: waits_def)
  qed (use assms(1,4) irq in blast)+
qed

lemma waits_steps:
  assumes "(\<lambda>a b. sys_step False env a b \<and> running a \<noteq> t)\<^sup>*\<^sup>* s s'" "waits t c s" "t < 3"
    and irq: "\<And>n u u'. irqs env n u = Some u' \<Longrightarrow> waits t c u \<Longrightarrow> running u \<noteq> t \<Longrightarrow> waits t c u' \<and> running u' \<noteq> t"
  shows "waits t c s'"
  using assms(1,2)
proof (induction rule: rtranclp_induct)
  case (step u w)
  then have "waits t c u" "sys_step False env u w" "running u \<noteq> t" by simp_all
  then show ?case by (rule waits_step [OF _ _ assms(3) _ irq])
qed

section \<open>A system with three shells\<close>

definition demo_three :: kernel where
  "demo_three = demo_kernel\<lparr>curr_proc := (\<lambda>t. pcb_addr (of_nat t)), curr_proc_id_mask := 0xE0,
     pcbs := (\<lambda>_. demo_pcb)
       (pcb_addr 1 := demo_pcb\<lparr>proc_num := 1, pcb_base := ucast (process_frame 1), p_sched_ksp := 0x7FDF00, p_sched_kbp := 0x7FDF80\<rparr>,
        pcb_addr 2 := demo_pcb\<lparr>proc_num := 2, pcb_base := ucast (process_frame 2), p_sched_ksp := 0x7FBF00, p_sched_kbp := 0x7FBF80\<rparr>),
     second_term_start := 1, third_term_start := 1, port_in := (\<lambda>n _. if n = in_count demo_kernel then 0x3C else 0x3B)\<rparr>"

definition three_stacks :: "nat \<Rightarrow> nat list" where
  "three_stacks t = [t]"

lemma demo_three_fields [simp]:
  "running demo_three = 0" "curr_active_term demo_three = 0" "window demo_three = Some (process_frame 0)" "in_count demo_three = in_count demo_kernel"
  "port_in demo_three = (\<lambda>n _. if n = in_count demo_kernel then 0x3C else 0x3B)" "\<not> special_key_enabled demo_three" "first_program_run demo_three \<noteq> 0"
  by (simp_all add: demo_three_def running_def) (simp_all add: demo_kernel_def kbd.defs demo_kbd_parts)

lemma demo_three_procs:
  "curr_proc demo_three = (\<lambda>t. pcb_addr (of_nat t))" "prev_proc demo_three = (\<lambda>_. 0)" "curr_proc_id_mask demo_three = 0xE0"
  "t < 3 \<Longrightarrow> pcb_view demo_three (pcb_addr (of_nat t)) = (of_nat t, ucast (process_frame (of_nat t)), 0)"
proof -
  show "t < 3 \<Longrightarrow> pcb_view demo_three (pcb_addr (of_nat t)) = (of_nat t, ucast (process_frame (of_nat t)), 0)"
    by (drule terminal_index, elim insertE emptyE) (simp_all add: demo_three_def pcb_view_def demo_pcb_def pcb_addr_def)
qed (simp_all add: demo_three_def)

lemma demo_three_dispatched: "dispatched demo_three three_stacks"
proof -
  have "\<forall>j\<in>set [0..<7]. slot_used 0xE0 j \<longleftrightarrow> j < 3" by code_simp
  then have "slot_used 0xE0 j \<longleftrightarrow> j < 3" if "j < 7" for j using that by simp
  then have "process_slots.in_use 0xE0 = {j. j < 3}" by (auto simp: process_slots.in_use_def)
  also have "\<dots> = {0, 1, 2}" by auto
  finally have u: "process_slots.in_use 0xE0 = {0, 1, 2}" .
  have "chain (pcb_view demo_three) (pcb_addr (of_nat t)) [t]" if "t < 3" for t using that by (simp add: demo_three_procs(4))
  then have "procs demo_three three_stacks"
    by (simp add: procs_def demo_three_procs(1-3) u three_stacks_def all_procs_def head_addr_def)
  then show ?thesis by (simp add: dispatched_def three_stacks_def)
qed

lemma demo_three_shown: "shown demo_three"
  by (simp add: shown_def) (simp add: demo_three_def)

section \<open>Properties\<close>


lemma demo_turns: "\<exists>s1. keyboard_irq demo_env demo_three = Some (Resume_stack s1) \<and> running s1 = 1 \<and> shown s1 \<and> dispatched s1 three_stacks \<and>
  port_in s1 (in_count s1) KEYBOARD_D_PORT = 0x3B \<and> \<not> special_key_enabled s1"
  using fkey_dispatches [OF demo_three_dispatched demo_three_shown, of 1 demo_env] by auto






end
