(* ===== verification/Shells.thy ===== *)
theory Shells
  imports Switch Boot
begin

text \<open>
  The first time that F2 or F3 is pressed, \<^verbatim>\<open>context_switch\<close> (\<^verbatim>\<open>src/drivers/pit.c\<close>) executes a shell
  on the second or third terminal. Shown here: what that does when there is a free slot for a
  process, and when there is none.
\<close>

section \<open>execute without a free slot\<close>

lemma run_file_full:
  assumes "runnable s names w n e" "cstr f_name w" "procs s st" "next_slot st = None"
    and "rng (f_init_data env) 32 \<inter> image_rng s = {}"
  shows "\<exists>s'. run_file env f_name flags s = Some (Ret (-1) s')"
proof -
  define t where "t = s\<lparr>mem := store_bytes (mem s) (f_init_data env) (file_slice s n 0 32)\<rparr>"
  note h = read_header_runnable [OF assms(1,2,5), folded t_def]
  have "curr_proc_id_mask t = curr_proc_id_mask s" by (simp add: t_def)
  moreover have "find_slot 0 PROGRAM_LOCATION_MASK (curr_proc_id_mask s) = None"
    using find_slot_next(1) [OF assms(3)] assms(4) by (cases "find_slot 0 PROGRAM_LOCATION_MASK (curr_proc_id_mask s)") auto
  moreover have "\<exists>r. printf (\<lambda>_. 0) (arr (str ''ERROR: Out of runnable program slots!'' @ [10, 0])) [] t = Some r"
  proof -
    have "cstr (arr ((str ''ERROR: Out of runnable program slots!'' @ [10]) @ [0])) (str ''ERROR: Out of runnable program slots!'' @ [10])"
      by (rule cstr_arr) (rule plain_messages)
    from printf_returns [OF this format_text_plain [OF plain_messages(4)] list_all2_Nil [THEN iffD2, OF refl], of "\<lambda>_. 0" t]
    show ?thesis by auto
  qed
  ultimately show ?thesis using h(1-3) by (auto simp: run_file_def)
qed

lemma execute_bare_full:
  fixes s :: "'a kernel_scheme"
  assumes cmd: "command \<noteq> 0" "cstr (view (mem s) command) w"
    and w: "w \<noteq> []" "chr CHR '' '' \<notin> set w" "10 \<notin> set w" "take 5 w \<noteq> str ''clear''"
    and run: "runnable s names w n e"
    and inv: "procs s st" "next_slot st = None"
    and lay: "bare_layout env command (length w) k s"
    and buf: "length w < length (strtok_buf s)"
  shows "\<exists>s'. execute env command s = Some (Ret (-1) s')"
proof -
  let ?p = "stale_end env (length w)" and ?s0 = "s\<lparr>int_flag := False\<rparr>"
  let ?s2 = "?s0\<lparr>mem := (mem s)(?p := 0)\<rparr>"
  have lw: "length w \<le> 31" using run by (auto simp: runnable_def dir_find_def directory_def find_Some_iff)
  note l = lay [unfolded bare_layout_def]
  have split: "split_command command (temp_arg env) 0 False (stale_cmd_len env) ?s0 =
      Some (Some (of_nat (length w), stale_cmd_len env, ?s0))"
    using split_command_bare [of ?s0 command w 0] cmd(2) w(2) lw by simp
  have s2: "poke (temp_arg env + (of_nat (length w) - ucast (stale_cmd_len env) - 1)) 0 ?s0 = ?s2"
    by (simp add: stale_end_def poke_def)
  have "cstr (view ((mem s)(?p := 0)) command) w"
    by (rule cstr_region [OF cmd(2)]) (use l lw in \<open>auto simp del: in_rng\<close>)
  then have cmd2: "cstr (view (mem ?s2) command) w" by simp
  have fw: "first_word w = w" using w(2,3) by (auto simp: first_word_def takeWhile_eq_all_conv)
  have hd: "hd w \<noteq> chr CHR '' ''" using w(1,2) by (cases w) auto
  obtain out where out: "run_command env command (int_flag s) (of_nat (length w)) (stale_cmd_len env) ?s0 =
      run_file env (arr out) (int_flag s) (?s2\<lparr>strtok_buf := out\<rparr>)" "cstr (arr out) w"
    using run_command_file [where s = ?s0 and env = env and k = "of_nat (length w)" and cl = "stale_cmd_len env" and flags = "int_flag s",
        unfolded s2, OF cmd2 fw hd w(1,4)] buf by auto
  let ?s3 = "?s2\<lparr>strtok_buf := out\<rparr>"
  have "proc_view ?s3 = proc_view s" by simp
  then have inv3: "procs ?s3 st" using inv(1) procs_cong by blast
  have sf: "same_files s ?s3" using l by (auto simp: same_files_def image_same_def simp del: in_rng)
  have wf: "fs_wf s" using run by (simp add: runnable_def)
  have "rng (f_init_data env) 32 \<inter> image_rng ?s3 = {}" using l same_files_keeps(2) [OF sf wf] by simp
  from run_file_full [OF runnable_same [OF run sf] out(2) inv3 inv(2) this]
  obtain s' where "run_file env (arr out) (int_flag s) ?s3 = Some (Ret (-1) s')" by blast
  then have "execute env command s = Some (Ret (-1) s')"
    using cmd(1) w(1) strlen_cstr [OF cmd(2)] split out(1)
    by (simp add: execute_def cli_and_save_def Let_def)
  then show ?thesis by blast
qed

section \<open>The first switch to a terminal\<close>

text \<open>Whether the shell of terminal \<open>u\<close> has been started.\<close>

definition start_flag :: "u8 \<Rightarrow> 'a kbd_scheme \<Rightarrow> u8" where
  "start_flag u s = (if u = 1 then get_second_term_start s else get_third_term_start s)"

definition set_start_flag :: "u8 \<Rightarrow> 'a kbd_scheme \<Rightarrow> 'a kbd_scheme" where
  "set_start_flag u = (if u = 1 then set_second_term_start else set_third_term_start)"

text \<open>The state in which \<^verbatim>\<open>execute("shell")\<close> is called.\<close>

definition at_first_switch :: "u8 \<Rightarrow> bool \<Rightarrow> 'a kernel_scheme \<Rightarrow> 'a kernel_scheme" where
  "at_first_switch u flags s =
     (let s1 = (update_screen u (active_terminal s) s)\<lparr>prev_terminal := active_terminal s, active_terminal := u\<rparr>;
          s2 = restore_flags flags (send_eoi 1 s1)
      in save_sched (curr_proc s (running s)) (set_start_flag u (set_running_proc u s2)))"

lemma switch_first_time:
  assumes "u = 1 \<or> u = 2" "start_flag u s = 0" "running s < 3" "active_terminal s = curr_active_term s" "curr_proc s (running s) \<noteq> 0"
  shows "switch_terminal (context_switch env) u flags s = execute_shell env (at_first_switch u flags s)"
proof -
  have a: "u < 3" "active_terminal s < 3" "unat (active_terminal s) = running s"
    using assms(1,3,4) by (auto simp: running_def word_less_nat_alt)
  define s1 where "s1 = (update_screen u (active_terminal s) s)\<lparr>prev_terminal := active_terminal s, active_terminal := u\<rparr>"
  define s2 where "s2 = restore_flags flags (send_eoi 1 s1)"
  have at: "active_terminal (update_screen u (active_terminal s) s) = active_terminal s"
    by (simp add: update_screen_eq [OF a(1,2)])
  have f1: "prev_terminal s1 = active_terminal s" "active_terminal s1 = u" "start_flag u s1 = 0" "curr_proc s1 = curr_proc s"
    using assms(2) update_screen_eq [OF a(1,2), of s]
    by (auto simp: s1_def start_flag_def get_second_term_start_def get_third_term_start_def split: if_splits)
  then have f: "prev_terminal s2 = active_terminal s" "active_terminal s2 = u" "start_flag u s2 = 0" "curr_proc s2 = curr_proc s"
    using send_eoi_ports [of 1 s1]
    by (auto simp: s2_def restore_flags_def start_flag_def get_second_term_start_def get_third_term_start_def)
  have g: "curr_proc (set_start_flag u (set_running_proc u s2)) = curr_proc s"
    using f(4) by (simp add: set_start_flag_def set_second_term_start_def set_third_term_start_def set_running_proc_def)
  have "context_switch env (active_terminal s) u s2 = start_terminal env (active_terminal s) (set_start_flag u (set_running_proc u s2))"
    using assms(1) f(3) by (auto simp: context_switch_def SCHED_ENABLED_def start_flag_def set_start_flag_def)
  also have "\<dots> = execute_shell env (at_first_switch u flags s)"
    using g assms(5) a(3) by (simp add: start_terminal_def get_pcb_def unat_wide at_first_switch_def Let_def s1_def [symmetric] s2_def [symmetric])
  finally show ?thesis
    using f(1,2) by (simp add: switch_terminal_def Let_def at s1_def [symmetric] s2_def [symmetric])
qed

lemma set_start_flag_fields [simp]:
  "mem (set_start_flag u s) = mem s" "running (set_start_flag u s) = running s" "window (set_start_flag u s) = window s"
  "frames (set_start_flag u s) = frames s" "pcbs (set_start_flag u s) = pcbs s" "strtok_buf (set_start_flag u s) = strtok_buf s"
  "cpu_esp (set_start_flag u s) = cpu_esp s" "cpu_ebp (set_start_flag u s) = cpu_ebp s" "proc_view (set_start_flag u s) = proc_view s"
  "start_flag u (set_start_flag u s) = 1" "curr_proc (set_start_flag u s) = curr_proc s" "active_terminal (set_start_flag u s) = active_terminal s"
  "curr_active_term (set_start_flag u s) = curr_active_term s"
  "boot_blk (set_start_flag u s) = boot_blk s" "b_block_addrs (set_start_flag u s) = b_block_addrs s" "dentries (set_start_flag u s) = dentries s"
  "inodes (set_start_flag u s) = inodes s" "data_blocks (set_start_flag u s) = data_blocks s"
  by (simp_all add: set_start_flag_def set_second_term_start_def set_third_term_start_def running_def start_flag_def proc_view_def
      get_second_term_start_def get_third_term_start_def)

lemma at_first_switch_facts:
  fixes s :: "'a kernel_scheme" and u :: u8 and flags :: bool
  assumes "u = 1 \<or> u = 2" "running s < 3" "active_terminal s = curr_active_term s"
  defines "v \<equiv> at_first_switch u flags s" and "a \<equiv> curr_proc s (running s)"
  shows "mem v = switched u (active_terminal s) (mem s)" "running v = unat u" "window v = window s" "frames v = frames s"
    "strtok_buf v = strtok_buf s" "cpu_esp v = cpu_esp s" "cpu_ebp v = cpu_ebp s" "start_flag u v = 1" "curr_proc v = curr_proc s"
    "proc_view v = proc_view (s\<lparr>curr_active_term := u\<rparr>)" "active_terminal v = u" "curr_active_term v = u"
    "pcbs v = (pcbs s)(a := (pcbs s a)\<lparr>p_sched_ksp := cpu_esp s, p_sched_kbp := cpu_ebp s\<rparr>)"
    "boot_blk v = boot_blk s" "b_block_addrs v = b_block_addrs s" "dentries v = dentries s" "inodes v = inodes s" "data_blocks v = data_blocks s"
proof -
  have t: "u < 3" "active_terminal s < 3"
    using assms(1-3) by (auto simp: running_def word_less_nat_alt)
  obtain p where p: "v = save_sched a (set_start_flag u (s\<lparr>mem := switched u (active_terminal s) (mem s), text_color := ucast (term_color u),
      prev_terminal := active_terminal s, active_terminal := u, port_out := p, int_flag := flags, curr_active_term := u\<rparr>))"
    using send_eoi_ports [of 1 "(update_screen u (active_terminal s) s)\<lparr>prev_terminal := active_terminal s, active_terminal := u\<rparr>"]
    by (auto simp: v_def a_def at_first_switch_def Let_def update_screen_eq [OF t] restore_flags_def set_running_proc_def)
  show "mem v = switched u (active_terminal s) (mem s)" "running v = unat u" "window v = window s" "frames v = frames s"
    "strtok_buf v = strtok_buf s" "cpu_esp v = cpu_esp s" "cpu_ebp v = cpu_ebp s" "curr_proc v = curr_proc s"
    "active_terminal v = u" "curr_active_term v = u"
    "pcbs v = (pcbs s)(a := (pcbs s a)\<lparr>p_sched_ksp := cpu_esp s, p_sched_kbp := cpu_ebp s\<rparr>)"
    "boot_blk v = boot_blk s" "b_block_addrs v = b_block_addrs s" "dentries v = dentries s" "inodes v = inodes s" "data_blocks v = data_blocks s"
    by (simp_all add: p save_sched_def set_pcb_def running_def)
  have "start_flag u v = start_flag u (set_start_flag u s)"
    by (simp only: p save_sched_def set_pcb_def) (simp add: start_flag_def set_start_flag_def get_second_term_start_def get_third_term_start_def
        set_second_term_start_def set_third_term_start_def)
  then show "start_flag u v = 1" by simp
  show "proc_view v = proc_view (s\<lparr>curr_active_term := u\<rparr>)" by (simp add: p) (simp add: proc_view_def)
qed


lemma switched_outside:
  assumes "unat src < 3" and "a \<notin> rng VIDEO 4096 \<union> rng (term_vid_mem (unat src)) 4096"
  shows "switched dest src m a = m a"
proof -
  have "rng VIDEO 4000 \<subseteq> rng VIDEO 4096" by (rule rng_mono) simp
  then have "a \<notin> rng VIDEO 4000" using assms(2) by blast
  then have "recoloured c 2000 m' a = m' a" for c m'
    using recoloured_cells(3) [OF order_refl, of m' c] by (simp add: off_screen_same_def del: in_rng)
  then show ?thesis using assms(2) by (simp add: switched_def Let_def store_bytes_outside del: in_rng)
qed

text \<open>
  The file system has an executable \<^verbatim>\<open>shell\<close>, the literal of its name is in memory, and the pages of
  the screen that a switch copies do not hold what \<^verbatim>\<open>execute\<close> reads.
\<close>

definition shell_ready ::
  "'a kernel_scheme env \<Rightarrow> u8 list list \<Rightarrow> u8 list \<Rightarrow> u32 \<Rightarrow> u32 \<Rightarrow> 'a kernel_scheme \<Rightarrow> bool" where
  "shell_ready env names args n e s \<longleftrightarrow> shell_literal env \<noteq> 0 \<and> cstr (view (mem s) (shell_literal env)) (str ''shell'')
     \<and> cstr (view ((mem s)(stale_end env 5 := 0)) (temp_arg env)) args \<and> length args < 4294967000
     \<and> runnable s names (str ''shell'') n e \<and> unat (inode_size n s) \<le> 0x3B8000
     \<and> bare_layout env (shell_literal env) 5 (length args) s
     \<and> 5 < length (strtok_buf s) \<and> (\<forall>a. length args < length (pcb_args (pcbs s a)))
     \<and> (rng VIDEO 4096 \<union> rng (term_vid_mem (running s)) 4096) \<inter>
         (image_rng s \<union> rng (shell_literal env) 6 \<union> rng (temp_arg env) (length args + 1)) = {}"

lemma at_first_switch_ready:
  fixes s :: "'a kernel_scheme" and u :: u8 and flags :: bool
  assumes u: "u = 1 \<or> u = 2" and r: "running s < 3" and a: "active_terminal s = curr_active_term s" and sh: "shell_ready env names args n e s"
  defines "v \<equiv> at_first_switch u flags s"
  shows "cstr (view (mem v) (shell_literal env)) (str ''shell'')" "cstr (view ((mem v)(stale_end env 5 := 0)) (temp_arg env)) args"
    "same_files s v" "bare_layout env (shell_literal env) 5 (length args) v" "5 < length (strtok_buf v)"
    "length args < length (pcb_args (pcbs v b))"
proof -
  note f = at_first_switch_facts [OF u r a, of flags, folded v_def]
  note sr = sh [unfolded shell_ready_def]
  have src: "unat (active_terminal s) = running s" by (simp add: a running_def)
  have m: "mem v x = mem s x" if "x \<in> image_rng s \<union> rng (shell_literal env) 6 \<union> rng (temp_arg env) (length args + 1)" for x
  proof -
    have "x \<notin> rng VIDEO 4096 \<union> rng (term_vid_mem (running s)) 4096" using that sr by blast
    then show ?thesis using switched_outside [of "active_terminal s" x] r by (simp add: f(1) src del: in_rng)
  qed
  show sf: "same_files s v"
    unfolding same_files_def image_same_def using f(14-18) m by (simp del: in_rng)
  have "image_rng v = image_rng s" using same_files_keeps(2) [OF sf] sr by (simp add: runnable_def)
  then show "bare_layout env (shell_literal env) 5 (length args) v" using sr by (simp add: bare_layout_def)
  show "cstr (view (mem v) (shell_literal env)) (str ''shell'')"
  proof (rule cstr_region [where m = "mem s"])
    show "mem v y = mem s y" if "y \<in> rng (shell_literal env) (length (str ''shell'') + 1)" for y
      using that m [of y] unfolding shell_word(1) by (simp del: in_rng)
  qed (use sr shell_word(1) in simp_all)
  show "cstr (view ((mem v)(stale_end env 5 := 0)) (temp_arg env)) args"
    by (rule cstr_region [where m = "(mem s)(stale_end env 5 := 0)"]) (use sr m in \<open>auto simp del: in_rng\<close>)
  show "5 < length (strtok_buf v)" using sr f(5) by simp
  show "length args < length (pcb_args (pcbs v b))" using sr by (simp add: f(13))
qed


section \<open>Pressing the key\<close>

definition after_key :: "bool \<Rightarrow> (unit, 'a kbd_scheme) flow option \<Rightarrow> (unit, 'a kbd_scheme) flow option" where
  "after_key flags r = (case r of Some (Ret _ s) \<Rightarrow> Some (Ret () (restore_flags flags (send_eoi 1 s))) | _ \<Rightarrow> r)"

lemma fkey_switches:
  assumes "port_in s (in_count s) KEYBOARD_D_PORT = 0x3B + of_nat u" "u < 3" "\<not> special_key_enabled s"
  shows "keyboard_irq env s = after_key (int_flag s)
    (switch_terminal (context_switch env) (of_nat u) (int_flag s) (s\<lparr>int_flag := False, in_count := Suc (in_count s)\<rparr>))"
  using assms fkey_codes [OF assms(2)]
  by (simp add: keyboard_irq_def handle_keypress_def cli_and_save_def inb_def Let_def key_control_fkey after_key_def split: option.split flow.split)

text \<open>A process runs, and the key of a terminal without one is pressed for the first time.\<close>

definition first_press :: "nat \<Rightarrow> (nat \<Rightarrow> nat list) \<Rightarrow> 'a kernel_scheme \<Rightarrow> bool" where
  "first_press u st s \<longleftrightarrow> procs s st \<and> st (running s) \<noteq> [] \<and> st u = [] \<and> active_terminal s = curr_active_term s
     \<and> (u = 1 \<or> u = 2) \<and> start_flag (of_nat u) s = 0
     \<and> port_in s (in_count s) KEYBOARD_D_PORT = 0x3B + of_nat u \<and> \<not> special_key_enabled s"

definition at_press :: "nat \<Rightarrow> 'a kernel_scheme \<Rightarrow> 'a kernel_scheme" where
  "at_press u s = at_first_switch (of_nat u) (int_flag s) (s\<lparr>int_flag := False, in_count := Suc (in_count s)\<rparr>)"

lemma first_press_shell:
  fixes s :: "'a kernel_scheme"
  assumes p: "first_press u st s" and sh: "shell_ready env names args n e s"
  defines "v \<equiv> at_press u s"
  shows "keyboard_irq env s = after_key (int_flag s) (execute_shell env v)" "procs v st" "running v = u" "window v = window s" "frames v = frames s"
    "active_terminal v = of_nat u" "start_flag (of_nat u) v = 1" "curr_proc v = curr_proc s"
    "pcbs v = (pcbs s)(curr_proc s (running s) := (pcbs s (curr_proc s (running s)))\<lparr>p_sched_ksp := cpu_esp s, p_sched_kbp := cpu_ebp s\<rparr>)"
    "in_window a \<Longrightarrow> mem v a = mem s a"
    "cstr (view (mem v) (shell_literal env)) (str ''shell'')" "cstr (view ((mem v)(stale_end env 5 := 0)) (temp_arg env)) args"
    "same_files s v" "bare_layout env (shell_literal env) 5 (length args) v" "5 < length (strtok_buf v)"
    "length args < length (pcb_args (pcbs v b))"
proof -
  define s1 where "s1 = s\<lparr>int_flag := False, in_count := Suc (in_count s)\<rparr>"
  have eq: "running s1 = running s" "active_terminal s1 = active_terminal s" "curr_active_term s1 = curr_active_term s" "curr_proc s1 = curr_proc s"
    "start_flag w s1 = start_flag w s" "proc_view s1 = proc_view s" "mem s1 = mem s" "window s1 = window s" "frames s1 = frames s"
    "pcbs s1 = pcbs s" "cpu_esp s1 = cpu_esp s" "cpu_ebp s1 = cpu_ebp s" for w
    by (simp_all add: s1_def start_flag_def get_second_term_start_def get_third_term_start_def running_def proc_view_def)
  note fp = p [unfolded first_press_def]
  have inv: "procs s1 st" using fp procs_cong [OF eq(6)] by simp
  have r: "running s1 < 3" using inv by (simp add: procs_def)
  have u: "of_nat u = (1 :: u8) \<or> of_nat u = (2 :: u8)" and u3: "u < 3" "unat (of_nat u :: u8) = u" using fp by auto
  have a: "active_terminal s1 = curr_active_term s1" using fp by (simp add: eq)
  obtain i "is" where st: "st (running s1) = i # is" using fp by (auto simp: eq neq_Nil_conv)
  have "curr_proc s1 (running s1) = head_addr (st (running s1))" "i < 7"
    using procs_fields(1,3) [OF inv r] st by simp_all
  then have c: "curr_proc s1 (running s1) \<noteq> 0" using pcb_addr_nonzero [of i] by (simp add: head_addr_def st)
  have v: "v = at_first_switch (of_nat u) (int_flag s) s1" by (simp add: v_def at_press_def s1_def)
  note f = at_first_switch_facts [OF u r a, of "int_flag s", folded v, unfolded eq u3(2)]
  show "keyboard_irq env s = after_key (int_flag s) (execute_shell env v)"
    using fkey_switches [of s u env] fp u3(1) switch_first_time [OF u _ r a c, of env "int_flag s"] by (simp add: s1_def [symmetric] eq v)
  show "procs v st"
    using procs_cong [OF f(10)] procs_running [OF inv, of "of_nat u"] procs_cong [of "s\<lparr>curr_active_term := of_nat u\<rparr>" "s1\<lparr>curr_active_term := of_nat u\<rparr>" st] u3
    by (simp add: s1_def proc_view_def)
  show "running v = u" "window v = window s" "frames v = frames s"
    "active_terminal v = of_nat u" "start_flag (of_nat u) v = 1" "curr_proc v = curr_proc s"
    "pcbs v = (pcbs s)(curr_proc s (running s) := (pcbs s (curr_proc s (running s)))\<lparr>p_sched_ksp := cpu_esp s, p_sched_kbp := cpu_ebp s\<rparr>)"
    by (rule f)+
  have src: "active_terminal s < 3" "(of_nat u :: u8) < 3" using r a u by (auto simp: eq running_def word_less_nat_alt)
  show "mem v a = mem s a" if "in_window a" for a
    using switched_window [OF src(2,1) that] by (simp add: f(1))
  have sf: "same_files s s1" by (simp add: same_files_def image_same_def s1_def)
  have "fs_wf s" "inode_ok n s" using sh by (simp_all add: shell_ready_def runnable_def)
  note k = same_files_keeps(2) [OF sf this(1)] same_files_keeps(6) [OF sf this]
  have "shell_ready env names args n e s1"
    using sh runnable_same [OF _ sf] k by (simp add: shell_ready_def bare_layout_def eq) (simp add: s1_def)
  note k = at_first_switch_ready [OF u r a this, of "int_flag s", folded v]
  show "same_files s v" using k(3) sf same_files_trans by blast
  show "cstr (view (mem v) (shell_literal env)) (str ''shell'')" "cstr (view ((mem v)(stale_end env 5 := 0)) (temp_arg env)) args"
    "bare_layout env (shell_literal env) 5 (length args) v" "5 < length (strtok_buf v)" "length args < length (pcb_args (pcbs v b))"
    by (rule k)+
qed


text \<open>What \<^verbatim>\<open>execute\<close> leaves alone when it starts a process in slot \<open>i\<close>.\<close>

lemma execute_others:
  assumes "execute env command s = Some (Enter_user e s')" and "procs s st" "next_slot st = Some i"
  shows "shown_view s' = shown_view s"
    and "a \<noteq> pcb_addr (of_nat i) \<Longrightarrow> p_sched_ksp (pcbs s' a) = p_sched_ksp (pcbs s a)"
    and "a \<noteq> pcb_addr (of_nat i) \<Longrightarrow> p_sched_kbp (pcbs s' a) = p_sched_kbp (pcbs s a)"
proof -
  have "shown_view s' = shown_view s \<and> (\<forall>a. a \<noteq> pcb_addr (of_nat i) \<longrightarrow>
    p_sched_ksp (pcbs s' a) = p_sched_ksp (pcbs s a) \<and> p_sched_kbp (pcbs s' a) = p_sched_kbp (pcbs s a))"
    using assms(1)
  proof (cases rule: sched.execute_cases)
    case (starts f e' s0 i' tm)
    note v = slot_view_fields [OF sched_slot_view [OF starts(1)]]
    have "procs s0 st" using procs_cong [OF v(1)] assms(2) by simp
    from find_slot_next(1) [OF this starts(2)] assms(3) have i': "i' = i" by simp
    have "shown_view s0 = shown_view s" using starts(1) v(1) by (simp add: shown_view_def sched_view_def proc_view_def)
    then show ?thesis using start_process_others [OF starts(3)] v(6,7) by (auto simp: i' shown_view_def)
  qed simp
  then show "shown_view s' = shown_view s"
    "a \<noteq> pcb_addr (of_nat i) \<Longrightarrow> p_sched_ksp (pcbs s' a) = p_sched_ksp (pcbs s a)"
    "a \<noteq> pcb_addr (of_nat i) \<Longrightarrow> p_sched_kbp (pcbs s' a) = p_sched_kbp (pcbs s a)" by auto
qed

lemma shell_starts:
  fixes s :: "'a kernel_scheme"
  assumes p: "first_press u st s" and sh: "shell_ready env names args n e s" and i: "next_slot st = Some i"
    and w: "window s = Some (process_frame (of_nat (hd (st (running s)))))"
  shows "\<exists>s'. keyboard_irq env s = Some (Enter_user e s') \<and> procs s' (push_proc u i st) \<and> running s' = u
    \<and> active_terminal s' = of_nat u \<and> start_flag (of_nat u) s' = 1
    \<and> context_of s' (running s) = context_of s (running s)
    \<and> load_bytes (mem s') PROGRAM_EXEC_ADDR (unat (inode_size n s)) = file_slice s n 0 (unat (inode_size n s))
    \<and> window s' = Some (process_frame (of_nat i)) \<and> std_open (pcbs s' (curr_proc s' u))"
proof -
  define v where "v = at_press u s"
  note f = first_press_shell [OF p sh, folded v_def]
  note fp = p [unfolded first_press_def] and sr = sh [unfolded shell_ready_def]
  have wf: "fs_wf s" "inode_ok n s" using sr by (simp_all add: runnable_def)
  note keep = same_files_keeps [OF f(13) wf(1)]
  have run: "runnable v names (str ''shell'') n e" using runnable_same [OF _ f(13)] sr by blast
  obtain s' where s': "execute env (shell_literal env) v = Some (Enter_user e s')" "started i n args v s'" "procs s' (push_proc u i st)"
    using execute_bare [OF _ f(11) shell_word(2-5) run _ f(2) i, unfolded shell_word(1), OF _ _ f(14) _ f(12,15,16)] sr keep(6) [OF wf(2)] f(3)
    by auto
  have key: "keyboard_irq env s = Some (Enter_user e s')"
    by (simp add: f(1) execute_shell_def s'(1) after_key_def)
  let ?t = "running s"
  have t: "?t < 3" "?t \<noteq> u" "u < 3" using fp by (auto simp: procs_def)
  have r: "running s' = u" using s'(2) f(3) by (simp add: started_def Let_def)
  obtain j js where st: "st ?t = j # js" using fp by (auto simp: neq_Nil_conv)
  have st': "push_proc u i st ?t = j # js" using st t(2) by (simp add: push_proc_def)
  have ip: "push_proc u i st u = i # st u" by (simp add: push_proc_def)
  have fs: "procs s st" using fp by simp
  note pf = procs_fields [OF fs t(1)] and pf' = procs_fields [OF s'(3) t(1)]
  have c: "curr_proc s ?t = pcb_addr (of_nat j)" "curr_proc s' ?t = pcb_addr (of_nat j)" using pf(1) pf'(1) st st' by (simp_all add: head_addr_def)
  have base: "pcb_base (pcbs s (pcb_addr (of_nat j))) = ucast (process_frame (of_nat j))"
    "pcb_base (pcbs s' (pcb_addr (of_nat j))) = ucast (process_frame (of_nat j))" using pf(4) [OF st] pf'(4) [OF st'] by simp_all
  have j7: "j < 7" "i < 7" using pf(3) st procs_fields(3) [OF s'(3) t(3)] ip by simp_all
  have "distinct (all_procs (push_proc u i st))" using s'(3) by (simp add: procs_def)
  then have ij: "i \<noteq> j" using terminal_index [OF t(1)] terminal_index [OF t(3)] t(2) st' ip by (auto simp: all_procs_def)
  note o = execute_others [OF s'(1) f(2) i]
  have ksp: "p_sched_ksp (pcbs s' (pcb_addr (of_nat j))) = cpu_esp s \<and> p_sched_kbp (pcbs s' (pcb_addr (of_nat j))) = cpu_ebp s"
    using o(2,3) pcb_addr_inj [OF j7] ij by (auto simp: f(9) c)
  have fr: "frames s' f' (b - user_base) = saved_frames v f' (b - user_base)" if "in_window b" for f' b
    using s'(2) that by (simp add: started_def Let_def)
  have "frames s' (process_frame (of_nat j)) ofs = mem s (user_base + ofs)" if "unat ofs < 4194304" for ofs
    using fr [of "user_base + ofs" "process_frame (of_nat j)"] window_addr [OF that] f(10) [OF window_addr [OF that]] w st f(4)
    by (simp add: saved_frames_def that)
  moreover have "(ucast (ucast f :: u32) :: 20 word) = f" for f :: "20 word" by (rule bit_word_eqI) (simp add: bit_simps)
  ultimately have ctx: "context_of s' ?t = context_of s ?t"
    using t(2) r ksp c base by (auto simp: context_of_def Let_def user_part_def)
  have "start_flag (of_nat u) s' = 1 \<and> active_terminal s' = of_nat u"
    using o(1) f(6,7) by (auto simp: shown_view_def start_flag_def get_second_term_start_def get_third_term_start_def split: if_splits)
  moreover have "curr_proc s' u = pcb_addr (of_nat i) \<and> std_open (pcbs s' (pcb_addr (of_nat i)))"
    using s'(2) r by (auto simp: started_def Let_def)
  then have "std_open (pcbs s' (curr_proc s' u))" by simp
  ultimately show ?thesis
    using key s'(2,3) r ctx keep(6,7) [OF wf(2)] by (simp add: started_def Let_def)
qed


text \<open>Without a free slot the terminal is left running with no process.\<close>

lemma shell_stranded:
  fixes s :: "'a kernel_scheme"
  assumes p: "first_press u st s" and sh: "shell_ready env names args n e s" and i: "next_slot st = None"
  shows "\<exists>s'. keyboard_irq env s = Some (Ret () s') \<and> procs s' st \<and> running s' = u \<and> curr_proc s' u = 0
    \<and> active_terminal s' = of_nat u \<and> start_flag (of_nat u) s' = 1"
proof -
  define v where "v = at_press u s"
  note f = first_press_shell [OF p sh, folded v_def]
  note fp = p [unfolded first_press_def] and sr = sh [unfolded shell_ready_def]
  have run: "runnable v names (str ''shell'') n e" using runnable_same [OF _ f(13)] sr by blast
  obtain t where t: "execute env (shell_literal env) v = Some (Ret (-1) t)"
    using execute_bare_full [OF _ f(11) shell_word(2-5) run f(2) i, unfolded shell_word(1), OF _ f(14,15)] sr by auto
  have tv: "sched_view t = sched_view v" using t by (cases rule: sched.execute_cases) (auto dest!: start_process_others)
  define s' where "s' = restore_flags (int_flag s) (send_eoi 1 t)"
  have "keyboard_irq env s = Some (Ret () s')"
    by (simp add: f(1) execute_shell_def t after_key_def s'_def)
  moreover have s': "sched_view s' = sched_view v"
    using tv send_eoi_ports [of 1 t] by (auto simp: s'_def sched_view_def slot_view_def proc_view_def restore_flags_def)
  have pv: "proc_view s' = proc_view v" by (rule slot_view_fields [OF sched_slot_view [OF s']])
  have "procs s' st" using procs_cong [OF pv] f(2) by simp
  moreover have "running s' = u" using slot_view_fields(2) [OF sched_slot_view [OF s']] f(3) by simp
  moreover have "curr_proc s' u = 0"
    using procs_fields(1) [OF \<open>procs s' st\<close>, of u] fp by (auto simp: head_addr_def)
  moreover have "active_terminal s' = of_nat u \<and> start_flag (of_nat u) s' = 1"
    using s' f(6,7) by (auto simp: sched_view_def start_flag_def get_second_term_start_def get_third_term_start_def split: if_splits)
  ultimately show ?thesis by blast
qed

text \<open>In a terminal without a process, no system call that looks at the process returns, and no key leaves the terminal.\<close>

lemma no_process_faults:
  assumes "curr_proc s (running s) = 0"
  shows "halt env status s = None" "buf \<noteq> 0 \<Longrightarrow> sys_read env 0 buf k s = None" "buf \<noteq> 0 \<Longrightarrow> sys_write env 1 buf k s = None"
  using assms by (simp_all add: halt_def sys_read_def sys_write_def cli_and_save_def cur_pcb_def running_def Let_def)


lemma no_process_key:
  assumes "curr_proc s (running s) = 0" "active_terminal s = curr_active_term s" "running s < 3"
    and "port_in s (in_count s) KEYBOARD_D_PORT = 0x3B" "\<not> special_key_enabled s"
  shows "\<exists>s'. keyboard_irq env s = Some (Ret () s') \<and> running s' = running s \<and> active_terminal s' = 0"
proof -
  define s1 where "s1 = s\<lparr>int_flag := False, in_count := Suc (in_count s)\<rparr>"
  have a: "active_terminal s1 < 3" "(0 :: u8) < 3" using assms(2,3) by (simp_all add: s1_def running_def word_less_nat_alt)
  have at: "active_terminal (update_screen 0 (active_terminal s1) s1) = active_terminal s1"
    by (simp add: update_screen_eq [OF a(2,1)])
  define s2 where "s2 = (update_screen 0 (active_terminal s1) s1)\<lparr>prev_terminal := active_terminal s1, active_terminal := 0\<rparr>"
  define s3 where "s3 = restore_flags (int_flag s) (send_eoi 1 s2)"
  have f2: "prev_terminal s2 = active_terminal s" "active_terminal s2 = 0" "curr_proc s2 = curr_proc s" "curr_active_term s2 = curr_active_term s"
    by (simp_all add: s2_def update_screen_eq [OF a(2,1)]) (simp_all add: s1_def)
  then have f: "prev_terminal s3 = active_terminal s" "active_terminal s3 = 0" "curr_proc s3 = curr_proc s" "curr_active_term s3 = curr_active_term s"
    using send_eoi_ports [of 1 s2] by (auto simp: s3_def restore_flags_def)
  have sw: "switch_terminal (context_switch env) 0 (int_flag s) s1 = Some (Ret () s3)"
    using f assms(1,2) by (simp add: switch_terminal_def Let_def at s2_def [symmetric] s3_def [symmetric])
      (simp add: context_switch_def SCHED_ENABLED_def get_pcb_def unat_wide running_def)
  have "keyboard_irq env s = Some (Ret () (restore_flags (int_flag s) (send_eoi 1 s3)))"
    using fkey_switches [of s 0 env] assms(4,5) sw by (simp add: s1_def [symmetric] after_key_def)
  moreover have "running (restore_flags (int_flag s) (send_eoi 1 s3)) = running s" "active_terminal (restore_flags (int_flag s) (send_eoi 1 s3)) = 0"
    using f send_eoi_ports [of 1 s3] by (auto simp: restore_flags_def running_def)
  ultimately show ?thesis by blast
qed

section \<open>A system with one terminal\<close>

text \<open>The booted machine with a shell in the first terminal; the next key is F2.\<close>

definition one_shell :: kernel where
  "one_shell = (fs_init 0x1000 boot_machine)\<lparr>curr_proc := (\<lambda>_. 0)(0 := pcb_addr 0), curr_proc_id_mask := 0x80, port_in := \<lambda>_ _. 0x3C\<rparr>"

lemma fs_init_proc_view: "proc_view (fs_init a s) = proc_view s" for s :: "'a kernel_scheme"
  by (simp add: fs_init_def Let_def proc_view_def)

lemma one_shell_procs: "procs one_shell demo_stacks"
proof -
  have "proc_view one_shell = proc_view demo_kernel"
    using fs_init_proc_view [of "0x1000" boot_machine]
    by (simp add: one_shell_def proc_view_def) (simp add: boot_machine_def running_def)
  then show ?thesis using procs_cong demo_procs(1) by blast
qed

lemma one_shell_fields:
  "running one_shell = 0" "active_terminal one_shell = 0" "curr_active_term one_shell = 0" "second_term_start one_shell = 0"
  "\<not> special_key_enabled one_shell" "port_in one_shell = (\<lambda>_ _. 0x3C)" "window one_shell = Some (process_frame 0)"
  "strtok_buf one_shell = replicate 32 0" "pcbs one_shell = (\<lambda>_. demo_pcb)" "mem one_shell = boot_image"
  by (simp_all add: one_shell_def running_def fs_init_def Let_def boot_machine_def) (simp_all add: demo_kernel_def kbd.defs demo_kbd_parts)

lemma one_shell_press: "first_press 1 demo_stacks one_shell"
  using one_shell_procs
  by (simp add: first_press_def one_shell_fields start_flag_def get_second_term_start_def demo_stacks_def)

lemma one_shell_ready: "shell_ready demo_env [str ''shell''] [] 0 0x08048020 one_shell"
proof -
  let ?f = "fs_init 0x1000 boot_machine"
  have sf: "same_files ?f one_shell" by (simp add: same_files_def image_same_def one_shell_def)
  note b = boot_machine_ready [unfolded boot_ready_def Let_def]
  have run: "runnable ?f [str ''shell''] (str ''shell'') 0 0x08048020" by (rule boot_machine_runnable)
  then have wf: "fs_wf ?f" "inode_ok 0 ?f" by (simp_all add: runnable_def)
  note k = same_files_keeps(2) [OF sf wf(1)] same_files_keeps(6) [OF sf wf]
  have im: "image_rng one_shell = rng 0x1000 12288" using k(1) by (simp add: image_rng_def image_size_def)
  have "rng (0x1000 :: u32) 12288 \<inter> rng VIDEO 4096 = {}" "rng (0x1000 :: u32) 12288 \<inter> rng (term_vid_mem 0) 4096 = {}"
    "rng (0xA000 :: u32) 6 \<inter> rng VIDEO 4096 = {}" "rng (0xA000 :: u32) 6 \<inter> rng (term_vid_mem 0) 4096 = {}"
    "rng (0xB000 :: u32) 1 \<inter> rng VIDEO 4096 = {}" "rng (0xB000 :: u32) 1 \<inter> rng (term_vid_mem 0) 4096 = {}"
    by (rule rng_disjoint, simp_all add: VIDEO_def term_vid_mem_def)+
  then have "(rng VIDEO 4096 \<union> rng (term_vid_mem 0) 4096) \<inter> (rng 0x1000 12288 \<union> rng 0xA000 6 \<union> rng 0xB000 1) = {}" by blast
  moreover have "bare_layout demo_env 0xA000 5 0 one_shell" using b k(1) by (simp add: bare_layout_def demo_env_def)
  ultimately show ?thesis
    using b runnable_same [OF run sf] k(2)
    by (simp add: shell_ready_def im one_shell_fields del: in_rng) (simp add: demo_env_def demo_pcb_def del: in_rng)
qed


text \<open>The same with programs in all the slots, each started by the one before.\<close>

definition full_shells :: kernel where
  "full_shells = one_shell\<lparr>curr_proc := (\<lambda>_. 0)(0 := pcb_addr 6), prev_proc := (\<lambda>_. 0)(0 := pcb_addr 5), curr_proc_id_mask := 0xFE,
     window := Some (process_frame 6),
     pcbs := (\<lambda>a. if a = pcb_addr 0 then demo_pcb else
       let i = find (\<lambda>i. a = pcb_addr (of_nat i)) [1..<7]
       in case i of None \<Rightarrow> demo_pcb
          | Some i \<Rightarrow> demo_pcb\<lparr>proc_num := of_nat i, pcb_base := ucast (process_frame (of_nat i)), pcb_prev := pcb_addr (of_nat i - 1)\<rparr>)\<rparr>"

definition full_stacks :: "nat \<Rightarrow> nat list" where
  "full_stacks = (\<lambda>_. [])(0 := [6, 5, 4, 3, 2, 1, 0])"

lemma full_shells_fields:
  "running full_shells = 0" "active_terminal full_shells = 0" "curr_active_term full_shells = 0" "second_term_start full_shells = 0"
  "\<not> special_key_enabled full_shells" "port_in full_shells = (\<lambda>_ _. 0x3C)" "length (pcb_args (pcbs full_shells a)) = length (pcb_args demo_pcb)"
  by (simp_all add: full_shells_def one_shell_fields running_def Let_def split: option.split)

lemma full_shells_pcbs:
  "pcb_view full_shells (pcb_addr 0) = (0, ucast (process_frame 0), 0)"
  "pcb_view full_shells (pcb_addr 1) = (1, ucast (process_frame 1), pcb_addr 0)"
  "pcb_view full_shells (pcb_addr 2) = (2, ucast (process_frame 2), pcb_addr 1)"
  "pcb_view full_shells (pcb_addr 3) = (3, ucast (process_frame 3), pcb_addr 2)"
  "pcb_view full_shells (pcb_addr 4) = (4, ucast (process_frame 4), pcb_addr 3)"
  "pcb_view full_shells (pcb_addr 5) = (5, ucast (process_frame 5), pcb_addr 4)"
  "pcb_view full_shells (pcb_addr 6) = (6, ucast (process_frame 6), pcb_addr 5)"
  by (simp_all add: full_shells_def pcb_view_def pcb_addr_def upt_rec demo_pcb_def)

lemma full_shells_heads:
  "curr_proc full_shells = (\<lambda>_. 0)(0 := pcb_addr 6)" "prev_proc full_shells = (\<lambda>_. 0)(0 := pcb_addr 5)" "curr_proc_id_mask full_shells = 0xFE"
  by (simp_all add: full_shells_def)

lemma full_shells_procs: "procs full_shells full_stacks" "next_slot full_stacks = None"
proof -
  have "\<forall>j\<in>set [0..<7]. slot_used 0xFE j" by code_simp
  then have u: "process_slots.in_use 0xFE = {0, 1, 2, 3, 4, 5, 6}" by (auto simp: process_slots.in_use_def)
  have "chain (pcb_view full_shells) (pcb_addr 6) [6, 5, 4, 3, 2, 1, 0]"
    by (simp add: full_shells_pcbs)
  then show "procs full_shells full_stacks"
    using full_shells_fields(1) full_shells_heads
    by (auto simp: procs_def u full_stacks_def all_procs_def head_addr_def)
  show "next_slot full_stacks = None" by (simp add: next_slot_def full_stacks_def all_procs_def upt_rec)
qed

lemma full_shells_press: "first_press 1 full_stacks full_shells"
  using full_shells_procs(1)
  by (simp add: first_press_def full_shells_fields start_flag_def get_second_term_start_def full_stacks_def)

lemma full_shells_ready: "shell_ready demo_env [str ''shell''] [] 0 0x08048020 full_shells"
proof -
  have sf: "same_files one_shell full_shells" by (simp add: same_files_def image_same_def full_shells_def)
  note o = one_shell_ready [unfolded shell_ready_def]
  then have run: "runnable one_shell [str ''shell''] (str ''shell'') 0 0x08048020" by blast
  then have wf: "fs_wf one_shell" "inode_ok 0 one_shell" by (simp_all add: runnable_def)
  note k = same_files_keeps(2) [OF sf wf(1)] same_files_keeps(6) [OF sf wf]
  have "mem full_shells = mem one_shell" "strtok_buf full_shells = strtok_buf one_shell" by (simp_all add: full_shells_def)
  moreover have "0 < length (pcb_args demo_pcb)" by (simp add: demo_pcb_def)
  ultimately show ?thesis
    using o runnable_same [OF run sf] k full_shells_fields(1) one_shell_fields(1)
    by (simp add: shell_ready_def bare_layout_def full_shells_fields(7) del: in_rng)
qed

section \<open>Properties\<close>

text \<open>C10: the first press of the key of the second or third terminal starts a shell there, when the
  file system has one and a slot is free. The handler ends in user mode at the entry of the
  shell, whose image is in memory; its slot is the only process of the terminal, which is now the running
  one and the one on the screen. The terminal that was left keeps its stack pointers and its whole
  user memory, for the switch back.\<close>

theorem function_key_starts_shell:
  fixes s :: "'a kernel_scheme"
  assumes "first_press u st s" and "shell_ready env names args n e s" and "next_slot st = Some i"
    and "window s = Some (process_frame (of_nat (hd (st (running s)))))"
  shows "\<exists>s'. keyboard_irq env s = Some (Enter_user e s') \<and> procs s' (push_proc u i st) \<and> running s' = u
    \<and> active_terminal s' = of_nat u \<and> start_flag (of_nat u) s' = 1
    \<and> context_of s' (running s) = context_of s (running s)
    \<and> load_bytes (mem s') PROGRAM_EXEC_ADDR (unat (inode_size n s)) = file_slice s n 0 (unat (inode_size n s))
    \<and> window s' = Some (process_frame (of_nat i)) \<and> std_open (pcbs s' (curr_proc s' u))"
  by (rule shell_starts [OF assms])

theorem function_key_starts_shell_witness:
  "\<exists>s'. keyboard_irq demo_env one_shell = Some (Enter_user 0x08048020 s') \<and> running s' = 1 \<and> window s' = Some (process_frame 1)"
proof -
  have "window one_shell = Some (process_frame (of_nat (hd (demo_stacks (running one_shell)))))"
    by (simp add: one_shell_fields demo_stacks_def)
  from function_key_starts_shell [OF one_shell_press one_shell_ready demo_procs(2) this] show ?thesis by auto
qed

text \<open>C12: when no slot is free, the first press of the key strands the terminal. \<^verbatim>\<open>context_switch\<close> has made it the
  running one before it calls \<^verbatim>\<open>execute\<close>, whose failure nobody looks at: the handler returns
  to the old program with a running terminal that has no process. Any \<^verbatim>\<open>halt\<close> of that program and
  any \<^verbatim>\<open>read\<close> or \<^verbatim>\<open>write\<close> of its terminal then goes through a NULL control block, and F1
  shows the first terminal without making it run again.\<close>

theorem full_system_strands_terminal:
  fixes s :: "'a kernel_scheme"
  assumes "first_press u st s" and "shell_ready env names args n e s" and "next_slot st = None"
  shows "\<exists>s'. keyboard_irq env s = Some (Ret () s') \<and> procs s' st \<and> running s' = u \<and> st u = [] \<and> start_flag (of_nat u) s' = 1
    \<and> (\<forall>status. halt env status s' = None)
    \<and> (\<forall>buf k. buf \<noteq> 0 \<longrightarrow> sys_read env 0 buf k s' = None \<and> sys_write env 1 buf k s' = None)
    \<and> (\<forall>x. sched_view x = sched_view s' \<and> port_in x (in_count x) KEYBOARD_D_PORT = 0x3B \<and> \<not> special_key_enabled x \<longrightarrow>
        (\<exists>x'. keyboard_irq env x = Some (Ret () x') \<and> running x' = u \<and> active_terminal x' = 0))"
proof -
  obtain s' where s': "keyboard_irq env s = Some (Ret () s')" "procs s' st" "running s' = u" "curr_proc s' u = 0"
    "active_terminal s' = of_nat u" "start_flag (of_nat u) s' = 1"
    using shell_stranded [OF assms] by blast
  have u: "st u = []" "u < 3" using assms(1) by (auto simp: first_press_def)
  have "\<exists>x'. keyboard_irq env x = Some (Ret () x') \<and> running x' = u \<and> active_terminal x' = 0"
    if x: "sched_view x = sched_view s'" "port_in x (in_count x) KEYBOARD_D_PORT = 0x3B" "\<not> special_key_enabled x" for x :: "'a kernel_scheme"
  proof -
    have a: "active_terminal x = of_nat u" using x(1) s'(5) by (simp add: sched_view_def)
    have r: "running x = u" "curr_proc x u = 0" using slot_view_fields(2,3) [OF sched_slot_view [OF x(1)]] s'(3,4) by simp_all
    have "curr_active_term x = of_nat u" using r(1) by (auto simp: running_def)
    then show ?thesis using no_process_key [of x env] a r u(2) x(2,3) by simp
  qed
  then show ?thesis
    using s' u(1) no_process_faults [where s = s' and env = env] by (intro exI [of _ s'] conjI) auto
qed

theorem full_system_strands_terminal_witness:
  "\<exists>s'. keyboard_irq demo_env full_shells = Some (Ret () s') \<and> running s' = 1 \<and> sys_read demo_env 0 0x08050000 16 s' = None"
proof -
  from full_system_strands_terminal [OF full_shells_press full_shells_ready full_shells_procs(2)]
  obtain s' where "keyboard_irq demo_env full_shells = Some (Ret () s')" "running s' = 1"
    "\<forall>buf k. buf \<noteq> 0 \<longrightarrow> sys_read demo_env 0 buf k s' = None \<and> sys_write demo_env 1 buf k s' = None" by blast
  then show ?thesis by (intro exI [of _ s']) simp
qed

end
